(* ===== verification/Prelude.thy ===== *)
theory Prelude
  imports Main "HOL-Library.Word" "HOL-Library.Monad_Syntax" "HOL-Library.Multiset"
begin

text \<open>
  The shared vocabulary of the development: the Go types the model keeps at their width, the
  error values of the program, the convention for calls that do not return, and the generic
  lemmas on lists and options that the component theories use.

  Conventions:
  \<^item> a Go \<open>[]byte\<close> is a list of bytes (\<open>nil\<close> and the empty slice are not told apart, as
    \<open>bytes.Equal\<close> and \<open>len\<close> do not tell them apart), a Go \<open>string\<close> is a \<open>string\<close> (its bytes);
  \<^item> \<open>uint32\<close> and \<open>int64\<close> are words of 32 and 64 bits; \<open>int64\<close> values are compared through
    \<^const>\<open>sint\<close>, and their differences wrap;
  \<^item> a call that may panic has an \<open>option\<close> result: \<open>None\<close> says that the call does not
    return, because of a Go run-time panic (nil dereference, slice index out of range, send on
    a closed channel) or because a pointer loop never ends; \<open>Some\<close> carries the returned values
    and the new state;
  \<^item> a Go \<open>error\<close> result is an \<open>error option\<close> (\<open>None\<close> is \<open>nil\<close>), and a pair of a value
    and an error is \<open>error + 'a\<close> where the code returns a value only on success.
\<close>

type_synonym bytes = "8 word list"
type_synonym u32 = "32 word"
type_synonym i64 = "64 word"

text \<open>
  The errors of the program. The constructors that start with \<open>Err\<close> are the package-level error
  variables; the others are the \<open>fmt.Errorf\<close> calls, named after their message, with the values
  they print; \<open>External\<close> is an error made by code outside the repository (msgpack, scrypt, the
  random source, JSON, raft), carried through unchanged.
\<close>

datatype error =
    ErrQueueMissing
  | ErrQueueLockMissing
  | ErrQueueAlreadyExists
  | ErrFailedEmpty
  | ErrInvalidQueueSize
  | ErrInvalidQueueName
  | ErrFailedQueueCreation
  | ErrMissingRoutingKey
  | ErrRoutingKeyDoesNotExist
  | ErrQueueDoesNotExist
  | ErrQueueMustHaveOneRoutingKey
  | ErrEmptyData
  | QueueIsEmpty
  | CouldNotFindItem bytes
  | CouldNotAckQueueTooShort
  | CouldNotAckAll
  | CouldNotNackAll bool bool
  | MissingRoleName
  | RoleNameLength
  | RoleExistsAlready string
  | MissingActions
  | InvalidActions
  | NoActionsProvided
  | InvalidPermission
  | InvalidFieldFound string
  | RoleNameExists
  | OnlyDenyOrAllow
  | InvalidNumberOfParts
  | InvalidEntityLength
  | RoleDoesNotExistError string
  | UserWithoutRoles string
  | UserWithoutRole string string
  | ErrUserDoesNotExist
  | ErrUsernameAlreadyTaken
  | ErrInvalidLogin
  | ErrAtLeastOneAccount
  | ErrNoUserSessionExists
  | ErrTokenDoesNotExist
  | FailedToGetSaltPass
  | MissingToken
  | MissingUsername
  | NoPermission
  | Joined "error list"
  | UserDoesNotExist string
  | RoleDoesNotExist string
  | MissingAction
  | ErrInvalidData
  | ErrInvalidRoutingKey
  | HandlerErrInvalidQueueName
  | ErrInvalidAmount
  | ErrInvalidSize
  | ErrInvalidId
  | ErrInvalidUsername
  | ErrInvalidOldPassword
  | ErrInvalidNewPassword
  | ErrInvalidPassword
  | ErrRaftNotIntialised
  | UserCannotBeFound
  | InvalidAssignRequest
  | InvalidUnassignRequest
  | UnableToProcess
  | ParseSyntax
  | ParseRange
  | NoNumberFound
  | ContextValuesMissing
  | ErrNotLeader
  | ErrMetaDataNotFound
  | ErrNoAuthToken
  | Fatal string
  | External string

text \<open>
  A \<open>range\<close> over a Go map visits every key once, in an order the language leaves open. Operations
  that range over a map take the order as their first argument.
\<close>

definition mapOrder :: "'k list \<Rightarrow> ('k \<rightharpoonup> 'v) \<Rightarrow> bool" where
  "mapOrder ks m \<longleftrightarrow> distinct ks \<and> set ks = dom m"

subsection \<open>Collections of simplification rules\<close>

named_theorems heap_simps "reading and writing the node memory of a queue"
named_theorems op_defs "definitions of the operations of a component, to be unfolded together"
named_theorems spec_defs "definitions of the abstract specifications"

subsection \<open>Lists\<close>

text \<open>The first element that satisfies a predicate splits its list.\<close>

lemma split_first:
  assumes "\<exists>x\<in>set xs. P x"
  shows "\<exists>ys x zs. xs = ys @ x # zs \<and> P x \<and> (\<forall>y\<in>set ys. \<not> P y)"
  using assms by (metis split_list_first_prop)

lemma mset_swap_remove:
  "mset (ys @ x # zs) = mset (ys @ zs) + {#x#}"
  by simp

lemma last_split:
  "zs \<noteq> [] \<Longrightarrow> last (ys @ x # zs) = last zs"
  by simp

lemma distinct_middle:
  "distinct (ys @ x # zs) \<longleftrightarrow> x \<notin> set ys \<and> x \<notin> set zs \<and> distinct (ys @ zs)"
  by auto

lemma distinct_middle_last:
  "distinct (ys @ x # zs) \<Longrightarrow> last (ys @ x # zs) = x \<longleftrightarrow> zs = []"
  by (cases zs rule: rev_cases) auto

text \<open>
  The removal the program uses for slices whose order does not matter: the last element is copied to
  the index and the slice is shortened by one.
\<close>

definition swapRemove :: "'a list \<Rightarrow> nat \<Rightarrow> 'a list" where
  "swapRemove s i = take (length s - 1) (s[i := s ! (length s - 1)])"

lemma mset_swapRemove:
  assumes "i < length s"
  shows "mset (swapRemove s i) = mset s - {#s ! i#}"
proof -
  obtain t x where s: "s = t @ [x]" using assms by (cases s rule: rev_cases) auto
  show ?thesis
  proof (cases "i = length t")
    case True
    with s show ?thesis by (simp add: swapRemove_def)
  next
    case False
    with assms s have i: "i < length t" by simp
    then have "mset (t[i := x]) = add_mset x (mset t - {#t ! i#})" by (rule mset_update)
    with s i show ?thesis
      by (simp add: swapRemove_def list_update_append nth_append insert_DiffM2)
  qed
qed

text \<open>The index of the first element that satisfies a test, as the loops of the program find it.\<close>

fun firstIndex :: "('a \<Rightarrow> bool) \<Rightarrow> 'a list \<Rightarrow> nat option" where
  "firstIndex P [] = None"
| "firstIndex P (x # xs) = (if P x then Some 0 else map_option Suc (firstIndex P xs))"

lemma firstIndex_None: "firstIndex P xs = None \<longleftrightarrow> (\<forall>x\<in>set xs. \<not> P x)"
  by (induction xs) auto

lemma firstIndex_Some:
  "firstIndex P xs = Some i \<Longrightarrow> i < length xs \<and> P (xs ! i) \<and> (\<forall>j<i. \<not> P (xs ! j))"
proof (induction xs arbitrary: i)
  case (Cons x xs)
  show ?case
  proof (cases "P x")
    case False
    with Cons.prems obtain k where "firstIndex P xs = Some k" "i = Suc k" by auto
    with Cons.IH[of k] False show ?thesis by (auto simp: less_Suc_eq_0_disj)
  qed (use Cons.prems in auto)
qed simp

subsection \<open>Options\<close>

lemma bind_Some_iff:
  "(m \<bind> f) = Some y \<longleftrightarrow> (\<exists>x. m = Some x \<and> f x = Some y)"
  by (cases m) auto

text \<open>Simulation of a sequence of two calls, each of which may fail to return.\<close>

lemma rel_option_bind:
  assumes "rel_option R m n" "\<And>x y. R x y \<Longrightarrow> rel_option S (f x) (g y)"
  shows "rel_option S (m \<bind> f) (n \<bind> g)"
  using assms by (cases m; cases n) auto

lemma rel_option_Some_right:
  "rel_option R x (Some y) \<longleftrightarrow> (\<exists>z. x = Some z \<and> R z y)"
  by (cases x) auto

lemma rel_option_Some_left:
  "rel_option R (Some x) y \<longleftrightarrow> (\<exists>z. y = Some z \<and> R x z)"
  by (cases y) auto

text \<open>
  Chains of calls that return early with an error: \<open>onOk\<close> goes on with the value of a call, \<open>onNil\<close> after
  a check that gave no error.
\<close>

definition onOk :: "error + 'a \<Rightarrow> ('a \<Rightarrow> error + 'b) \<Rightarrow> error + 'b" where
  "onOk x f = (case x of Inl err \<Rightarrow> Inl err | Inr a \<Rightarrow> f a)"

definition onNil :: "error option \<Rightarrow> error + 'b \<Rightarrow> error + 'b" where
  "onNil x y = (case x of Some err \<Rightarrow> Inl err | None \<Rightarrow> y)"

lemma onOk_Inr: "onOk x f = Inr y \<longleftrightarrow> (\<exists>a. x = Inr a \<and> f a = Inr y)"
  by (cases x) (auto simp: onOk_def)

lemma onNil_Inr: "onNil x y = Inr z \<longleftrightarrow> x = None \<and> y = Inr z"
  by (cases x) (auto simp: onNil_def)

text \<open>
  \<open>keeps I out\<close>: if the call returns, the new state, the second component of its result, satisfies \<open>I\<close>.
  The rules below follow the structure of a handler.
\<close>

definition keeps :: "('s \<Rightarrow> bool) \<Rightarrow> ('r \<times> 's) option \<Rightarrow> bool" where
  "keeps I out \<longleftrightarrow> (\<forall>r s. out = Some (r, s) \<longrightarrow> I s)"

lemma keeps_simps [simp]:
  "keeps I None" "keeps I (Some (r, s)) \<longleftrightarrow> I s"
  by (simp_all add: keeps_def)

lemma keepsD: "keeps I out \<Longrightarrow> out = Some (r, s) \<Longrightarrow> I s"
  by (simp add: keeps_def)

lemma keeps_bind:
  assumes "keeps J m" "\<And>r s. J s \<Longrightarrow> keeps I (f (r, s))"
  shows "keeps I (m \<bind> f)"
  using assms by (cases m) auto

lemma keeps_pair: "I s' \<Longrightarrow> x = (r, s') \<Longrightarrow> keeps I (Some x)"
  by simp

end
