(* ===== verification/NodePool.thy ===== *)
theory NodePool
  imports Prelude
begin

text \<open>
  Counters, list nodes and the pool that recycles them (\<open>pkg/core/Counter.go\<close>, the node type of
  \<open>pkg/core/LinkedList.go\<close> and \<open>pkg/core/NodeObjectPool.go\<close>).

  A Go pointer to a node is a \<open>ptr\<close>: \<open>None\<close> is \<open>nil\<close>, \<open>Some a\<close> a node at address \<open>a\<close>. Every queue
  owns one pool, every node of a queue is made by its pool, and no node moves between queues, so
  the node memory is kept per queue: a total map from addresses to nodes and the next address
  that was never handed out. The mutexes of the source only serialise the operations, which are
  single steps here.
\<close>

section \<open>Counters\<close>

text \<open>
  The count is a Go \<open>int\<close> of 64 bits. It changes by one per message, so it is modelled as an
  unbounded integer.
\<close>

record Counter =
  ccount :: int

definition Increment :: "Counter \<Rightarrow> Counter" where
  "Increment c = c\<lparr>ccount := ccount c + 1\<rparr>"

definition IncrementBy :: "Counter \<Rightarrow> int \<Rightarrow> Counter" where
  "IncrementBy c amount = c\<lparr>ccount := ccount c + amount\<rparr>"

definition Decrement :: "Counter \<Rightarrow> Counter" where
  "Decrement c = c\<lparr>ccount := ccount c - 1\<rparr>"

definition DecrementBy :: "Counter \<Rightarrow> int \<Rightarrow> Counter" where
  "DecrementBy c amount = c\<lparr>ccount := ccount c - amount\<rparr>"

definition Value :: "Counter \<Rightarrow> int" where
  "Value c = ccount c"

section \<open>Nodes and node memory\<close>

type_synonym addr = nat
type_synonym ptr = "addr option"

record ListNode =
  ID :: bytes
  Val :: bytes
  Next :: ptr
  ConsumerID :: bytes
  nodeTime :: i64
  fetched :: u32

text \<open>The node that \<open>&ListNode{}\<close> makes, and that \<open>Reset\<close> leaves behind.\<close>

definition zeroNode :: ListNode where
  "zeroNode = \<lparr>ID = [], Val = [], Next = None, ConsumerID = [], nodeTime = 0, fetched = 0\<rparr>"

definition Reset :: "ListNode \<Rightarrow> ListNode" where
  "Reset n = n\<lparr>ID := [], Val := [], Next := None, ConsumerID := [], nodeTime := 0, fetched := 0\<rparr>"

record node_mem =
  nodes :: "addr \<Rightarrow> ListNode"
  top :: addr

definition emptyMem :: node_mem where
  "emptyMem = \<lparr>nodes = (\<lambda>_. zeroNode), top = 0\<rparr>"

section \<open>The object pool\<close>

text \<open>
  The channel of the pool is a queue of addresses. \<open>Close\<close> empties the channel, sets \<open>killed\<close>
  and closes the channel, so \<open>killed\<close> also says that the channel is closed: a receive then gives
  \<open>nil\<close>, and a send panics.
\<close>

record NodeObjectPool =
  pool :: "addr list"
  maxSize :: int
  killed :: bool

definition NewNodeObjectPool :: "int \<Rightarrow> NodeObjectPool" where
  "NewNodeObjectPool sz = \<lparr>pool = [], maxSize = sz, killed = False\<rparr>"

definition GetObject :: "NodeObjectPool \<Rightarrow> node_mem \<Rightarrow> ptr \<times> NodeObjectPool \<times> node_mem" where
  "GetObject op m =
     (case pool op of
        obj # rest \<Rightarrow> (Some obj, op\<lparr>pool := rest\<rparr>, m)
      | [] \<Rightarrow>
          if killed op then (None, op, m)
          else (Some (top m), op, m\<lparr>nodes := (nodes m)(top m := zeroNode), top := Suc (top m)\<rparr>))"

definition ReleaseObject ::
    "NodeObjectPool \<Rightarrow> node_mem \<Rightarrow> ptr \<Rightarrow> (NodeObjectPool \<times> node_mem) option" where
  "ReleaseObject op m p =
     (case p of
        None \<Rightarrow> None
      | Some obj \<Rightarrow>
          let m' = m\<lparr>nodes := (nodes m)(obj := Reset (nodes m obj))\<rparr> in
          if int (length (pool op)) < maxSize op
          then if killed op then None else Some (op\<lparr>pool := pool op @ [obj]\<rparr>, m')
          else Some (op, m'))"

definition Close :: "NodeObjectPool \<Rightarrow> NodeObjectPool option" where
  "Close op = (if killed op then None else Some (op\<lparr>pool := [], killed := True\<rparr>))"

section \<open>Facts\<close>

lemma Reset_zeroNode [simp]: "Reset n = zeroNode"
  by (simp add: Reset_def zeroNode_def)

lemma zeroNode_fields [simp]:
  "ID zeroNode = []" "Val zeroNode = []" "Next zeroNode = None"
  "ConsumerID zeroNode = []" "nodeTime zeroNode = 0" "fetched zeroNode = 0"
  by (simp_all add: zeroNode_def)

text \<open>
  The pool's invariant: the addresses in the channel are distinct, were handed out before, lie
  outside a set of nodes in use, hold reset nodes, and are no more than the channel can hold.
\<close>

definition pool_inv :: "NodeObjectPool \<Rightarrow> node_mem \<Rightarrow> addr set \<Rightarrow> bool" where
  "pool_inv op m used \<longleftrightarrow>
     \<not> killed op \<and> distinct (pool op) \<and> int (length (pool op)) \<le> maxSize op \<and>
     set (pool op) \<inter> used = {} \<and>
     (\<forall>a\<in>set (pool op). a < top m \<and> nodes m a = zeroNode) \<and> (\<forall>a\<in>used. a < top m)"

lemma pool_inv_new: "0 \<le> sz \<Longrightarrow> pool_inv (NewNodeObjectPool sz) emptyMem {}"
  by (simp add: pool_inv_def NewNodeObjectPool_def)

text \<open>
  A pool that is not closed hands out a zero node that is not in use, whether it was recycled or
  is new, and leaves the nodes in use as they were.
\<close>

lemma GetObject_fresh:
  assumes "pool_inv op m used" "GetObject op m = (p, op', m')"
  obtains a where "p = Some a" "a \<notin> used" "nodes m' a = zeroNode"
    "\<forall>b. b \<noteq> a \<longrightarrow> nodes m' b = nodes m b" "pool_inv op' m' (insert a used)"
    "maxSize op' = maxSize op"
proof (cases "pool op")
  case Nil
  with assms have "p = Some (top m)" "op' = op"
    "m' = m\<lparr>nodes := (nodes m)(top m := zeroNode), top := Suc (top m)\<rparr>"
    by (auto simp: GetObject_def pool_inv_def)
  with assms(1) Nil show ?thesis
    by (intro that[of "top m"]) (auto simp: pool_inv_def less_Suc_eq)
next
  case (Cons a rest)
  with assms have "p = Some a" "op' = op\<lparr>pool := rest\<rparr>" "m' = m"
    by (auto simp: GetObject_def)
  with assms(1) Cons show ?thesis
    by (intro that[of a]) (auto simp: pool_inv_def)
qed

text \<open>Releasing a node in use makes it a reset node that is no longer in use.\<close>

lemma ReleaseObject_inv:
  assumes "pool_inv op m used" "a \<in> used"
  obtains op' m' where "ReleaseObject op m (Some a) = Some (op', m')"
    "pool_inv op' m' (used - {a})" "nodes m' = (nodes m)(a := zeroNode)" "top m' = top m"
    "maxSize op' = maxSize op"
proof (cases "int (length (pool op)) < maxSize op")
  case True
  with assms show ?thesis
    by (intro that[of "op\<lparr>pool := pool op @ [a]\<rparr>"
          "m\<lparr>nodes := (nodes m)(a := zeroNode)\<rparr>"])
      (auto simp: ReleaseObject_def pool_inv_def Let_def)
next
  case False
  with assms show ?thesis
    by (intro that[of op "m\<lparr>nodes := (nodes m)(a := zeroNode)\<rparr>"])
      (auto simp: ReleaseObject_def pool_inv_def Let_def)
qed

text \<open>A write to a node in use keeps the pool's invariant.\<close>

lemma pool_inv_write:
  "pool_inv op m used \<Longrightarrow> a \<in> used \<Longrightarrow> pool_inv op (m\<lparr>nodes := (nodes m)(a := n)\<rparr>) used"
  by (auto simp: pool_inv_def)

text \<open>Once the pool is closed, every request gives \<open>nil\<close>.\<close>

lemma GetObject_after_Close:
  "Close op = Some op' \<Longrightarrow> fst (GetObject op' m) = None"
  by (auto simp: Close_def GetObject_def split: if_splits)

end
