(* ===== verification/LinkedList.thy ===== *)
theory LinkedList
  imports NodePool
begin

text \<open>
  The queue of \<open>pkg/core/LinkedList.go\<close>, as the pointer program it is: \<open>Head\<close> and \<open>Tail\<close> pointers
  into the node memory of the queue, a node pool, a counter that is kept beside the list, and a
  pointer to a dead letter queue. Every loop of the source that follows \<open>Next\<close> pointers is a
  \<open>partial_function\<close> into \<open>option\<close>, with the loop variables as its arguments.
\<close>

section \<open>State\<close>

text \<open>
  The field \<open>deadLetter\<close> has type \<open>*Queue\<close>, a pointer to an interface value, so it has three kinds
  of values: a nil pointer, a pointer to a nil interface value (what \<open>CreateQueue\<close> passes for a
  queue without a dead letter queue), and a pointer to a queue object.
\<close>

type_synonym qid = nat

datatype queueRef = NilPtr | PtrNil | PtrQueue qid

record LinkedList =
  Head :: ptr
  Tail :: ptr
  Amount :: Counter
  cap :: u32
  nodeTTL :: i64
  objPool :: NodeObjectPool
  deadLetter :: queueRef
  fetchLimit :: u32
  nmem :: node_mem

record MessageBatch =
  mbId :: bytes
  mbData :: bytes

definition NO_CONSUMER :: bytes where
  "NO_CONSUMER = []"

abbreviation mem :: "LinkedList \<Rightarrow> addr \<Rightarrow> ListNode" where
  "mem ll \<equiv> nodes (nmem ll)"

text \<open>A write through a pointer that is not nil.\<close>

definition modNode :: "addr \<Rightarrow> (ListNode \<Rightarrow> ListNode) \<Rightarrow> LinkedList \<Rightarrow> LinkedList" where
  "modNode a f ll = ll\<lparr>nmem := (nmem ll)\<lparr>nodes := (mem ll)(a := f (mem ll a))\<rparr>\<rparr>"

text \<open>The two calls of the pool, on the pool and the memory of the queue.\<close>

definition getNode :: "LinkedList \<Rightarrow> ptr \<times> LinkedList" where
  "getNode ll =
     (case GetObject (objPool ll) (nmem ll) of
        (p, op, m) \<Rightarrow> (p, ll\<lparr>objPool := op, nmem := m\<rparr>))"

definition releaseNode :: "ptr \<Rightarrow> LinkedList \<Rightarrow> LinkedList option" where
  "releaseNode p ll =
     do { (op, m) \<leftarrow> ReleaseObject (objPool ll) (nmem ll) p;
          Some (ll\<lparr>objPool := op, nmem := m\<rparr>) }"

definition decAmount :: "LinkedList \<Rightarrow> LinkedList" where
  "decAmount ll = ll\<lparr>Amount := Decrement (Amount ll)\<rparr>"

section \<open>Operations\<close>

definition NewQueue :: "u32 \<Rightarrow> u32 \<Rightarrow> i64 \<Rightarrow> queueRef \<Rightarrow> LinkedList" where
  "NewQueue sz limit ttl dl =
     \<lparr>Head = None, Tail = None, Amount = \<lparr>ccount = 0\<rparr>, cap = sz, nodeTTL = ttl,
      objPool = NewNodeObjectPool (uint sz), deadLetter = dl, fetchLimit = limit,
      nmem = emptyMem\<rparr>"

definition byteSliceExists :: "bytes list \<Rightarrow> bytes \<Rightarrow> bool" where
  "byteSliceExists sl i \<longleftrightarrow> list_ex (\<lambda>s. s = i) sl"

definition IsEmpty :: "LinkedList \<Rightarrow> bool" where
  "IsEmpty ll \<longleftrightarrow> Head ll = None"

definition Capacity :: "LinkedList \<Rightarrow> u32" where
  "Capacity ll = cap ll"

definition IsFull :: "LinkedList \<Rightarrow> bool" where
  "IsFull ll \<longleftrightarrow> uint (cap ll) \<le> Value (Amount ll)"

definition Size :: "LinkedList \<Rightarrow> u32" where
  "Size ll = word_of_int (Value (Amount ll))"

definition Enqueue :: "LinkedList \<Rightarrow> bytes \<Rightarrow> bytes \<Rightarrow> LinkedList option" where
  "Enqueue ll0 i v =
     (let (newNode, ll1) = getNode ll0 in
      do { a \<leftarrow> newNode;
           let ll = modNode a (\<lambda>n. n\<lparr>ID := i, Val := v, ConsumerID := NO_CONSUMER, nodeTime := 0\<rparr>) ll1;
           if uint (cap ll) \<le> Value (Amount ll) then Some ll
           else if Head ll = None then
             Some ((modNode a (\<lambda>n. n\<lparr>Next := Head ll\<rparr>) ll)
               \<lparr>Head := Some a, Tail := Some a, Amount := Increment (Amount ll)\<rparr>)
           else do { t \<leftarrow> Tail ll;
             Some ((modNode t (\<lambda>n. n\<lparr>Next := Some a\<rparr>) ll)
               \<lparr>Tail := Some a, Amount := Increment (Amount ll)\<rparr>) } })"

text \<open>The loop of \<open>BatchEnqueue\<close>, which links one node per remaining message behind \<open>currentEnd\<close>.\<close>

fun BatchEnqueue_loop :: "LinkedList \<Rightarrow> addr \<Rightarrow> MessageBatch list \<Rightarrow> (LinkedList \<times> addr) option" where
  "BatchEnqueue_loop ll currentEnd [] = Some (ll, currentEnd)"
| "BatchEnqueue_loop ll0 currentEnd (m # ms) =
     (let (p, ll1) = getNode ll0 in
      do { a \<leftarrow> p;
           let ll2 = modNode a (\<lambda>n. n\<lparr>ID := mbId m, Val := mbData m,
                                       ConsumerID := NO_CONSUMER, nodeTime := 0\<rparr>) ll1;
           BatchEnqueue_loop (modNode currentEnd (\<lambda>n. n\<lparr>Next := Some a\<rparr>) ll2) a ms })"

definition BatchEnqueue :: "LinkedList \<Rightarrow> MessageBatch list \<Rightarrow> LinkedList option" where
  "BatchEnqueue ll0 messages =
     (case messages of
        [] \<Rightarrow> Some ll0
      | m # ms \<Rightarrow>
          if uint (cap ll0) \<le> Value (Amount ll0) then Some ll0
          else
            let (p, ll1) = getNode ll0 in
            do { headNode \<leftarrow> p;
                 let ll2 = modNode headNode (\<lambda>n. n\<lparr>ID := mbId m, Val := mbData m,
                                       ConsumerID := NO_CONSUMER, nodeTime := 0\<rparr>) ll1;
                 (ll, currentEnd) \<leftarrow> BatchEnqueue_loop ll2 headNode ms;
                 if Head ll = None then
                   Some ((modNode currentEnd (\<lambda>n. n\<lparr>Next := Head ll\<rparr>) ll)
                     \<lparr>Head := Some headNode, Tail := Some currentEnd,
                      Amount := IncrementBy (Amount ll) (int (length messages))\<rparr>)
                 else do { t \<leftarrow> Tail ll;
                   Some ((modNode t (\<lambda>n. n\<lparr>Next := Some headNode\<rparr>) ll)
                     \<lparr>Tail := Some currentEnd,
                      Amount := IncrementBy (Amount ll) (int (length messages))\<rparr>) } })"

text \<open>
  A method that can reach the dead letter queue takes the queue object that \<open>deadLetter\<close> points to
  as an argument of its own and returns it updated.
\<close>

definition sendDeadLetter ::
    "LinkedList \<Rightarrow> LinkedList option \<Rightarrow> addr \<Rightarrow> LinkedList option option" where
  "sendDeadLetter ll dl current =
     (case deadLetter ll of
        NilPtr \<Rightarrow> Some dl
      | PtrNil \<Rightarrow> None
      | PtrQueue q \<Rightarrow>
          do { d \<leftarrow> dl; d' \<leftarrow> Enqueue d (ID (mem ll current)) (Val (mem ll current));
               Some (Some d') })"

definition expireNode :: "LinkedList \<Rightarrow> ptr \<Rightarrow> addr \<Rightarrow> LinkedList option" where
  "expireNode ll prev current =
     (if Some current = Tail ll \<and> Some current = Head ll then
        Some (ll\<lparr>Head := None, Tail := None\<rparr>)
      else if Some current = Tail ll then
        do { p \<leftarrow> prev; Some (modNode p (\<lambda>n. n\<lparr>Next := None\<rparr>) (ll\<lparr>Tail := Some p\<rparr>)) }
      else if Some current = Head ll then
        Some (ll\<lparr>Head := Next (mem ll current)\<rparr>)
      else
        do { p \<leftarrow> prev; Some (modNode p (\<lambda>n. n\<lparr>Next := Next (mem ll current)\<rparr>) ll) })"

definition handleThresholdExpire ::
    "LinkedList \<Rightarrow> LinkedList option \<Rightarrow> ptr \<Rightarrow> addr \<Rightarrow> (LinkedList \<times> LinkedList option) option" where
  "handleThresholdExpire ll dl prev current =
     do { dl' \<leftarrow> sendDeadLetter ll dl current;
          ll' \<leftarrow> expireNode ll prev current;
          Some (ll', dl') }"

text \<open>
  The body shared by \<open>Unlock\<close> and \<open>BatchUnlock\<close>: the node is unlocked and its fetch count raised,
  and at the limit it leaves the queue.
\<close>

definition unlockNode ::
    "LinkedList \<Rightarrow> LinkedList option \<Rightarrow> ptr \<Rightarrow> addr \<Rightarrow> (LinkedList \<times> LinkedList option) option" where
  "unlockNode ll0 dl prev current =
     (let ll = modNode current (\<lambda>n. n\<lparr>ConsumerID := NO_CONSUMER, fetched := fetched n + 1\<rparr>) ll0 in
      if fetchLimit ll \<le> fetched (mem ll current) then
        do { (ll1, dl1) \<leftarrow> handleThresholdExpire ll dl prev current;
             ll2 \<leftarrow> releaseNode (Some current) ll1;
             Some (decAmount ll2, dl1) }
      else Some (ll, dl))"

partial_function (option) Unlock_loop ::
    "LinkedList \<Rightarrow> LinkedList option \<Rightarrow> bytes \<Rightarrow> bytes \<Rightarrow> ptr \<Rightarrow> ptr \<Rightarrow>
     (bool \<times> LinkedList \<times> LinkedList option) option" where
  "Unlock_loop ll dl consumer i prev current =
     (case current of
        None \<Rightarrow> Some (False, ll, dl)
      | Some a \<Rightarrow>
          if ID (mem ll a) = i then
            if ConsumerID (mem ll a) = consumer then
              do { (ll', dl') \<leftarrow> unlockNode ll dl prev a; Some (True, ll', dl') }
            else Some (False, ll, dl)
          else Unlock_loop ll dl consumer i current (Next (mem ll a)))"

definition Unlock ::
    "LinkedList \<Rightarrow> LinkedList option \<Rightarrow> bytes \<Rightarrow> bytes \<Rightarrow>
     (bool \<times> LinkedList \<times> LinkedList option) option" where
  "Unlock ll dl consumer i = Unlock_loop ll dl consumer i None (Head ll)"

partial_function (option) unlockAndEmpty_loop ::
    "LinkedList \<Rightarrow> bytes \<Rightarrow> bytes \<Rightarrow> ptr \<Rightarrow> ptr \<Rightarrow> (error option \<times> LinkedList) option" where
  "unlockAndEmpty_loop ll consumer i prev current =
     (case current of
        None \<Rightarrow> Some (Some (CouldNotFindItem i), ll)
      | Some a \<Rightarrow>
          if ID (mem ll a) = i \<and> ConsumerID (mem ll a) = consumer then
            do { p \<leftarrow> prev;
                 let ll1 = (if Some a = Tail ll
                            then modNode p (\<lambda>n. n\<lparr>Next := None\<rparr>) (ll\<lparr>Tail := prev\<rparr>)
                            else modNode p (\<lambda>n. n\<lparr>Next := Next (mem ll a)\<rparr>) ll);
                 ll2 \<leftarrow> releaseNode (Some a) ll1;
                 Some (None, decAmount ll2) }
          else unlockAndEmpty_loop ll consumer i current (Next (mem ll a)))"

definition unlockAndEmpty ::
    "LinkedList \<Rightarrow> bytes \<Rightarrow> bytes \<Rightarrow> (error option \<times> LinkedList) option" where
  "unlockAndEmpty ll consumer i =
     do { h \<leftarrow> Head ll;
          if ID (mem ll h) = i \<and> ConsumerID (mem ll h) = consumer then
            if Tail ll = Head ll then
              do { ll1 \<leftarrow> releaseNode (Head ll) ll;
                   Some (None, decAmount (ll1\<lparr>Head := None, Tail := None\<rparr>)) }
            else
              do { ll1 \<leftarrow> releaseNode (Some h) (ll\<lparr>Head := Next (mem ll h)\<rparr>);
                   Some (None, decAmount ll1) }
          else unlockAndEmpty_loop ll consumer i (Head ll) (Next (mem ll h)) }"

definition UnlockAndEmpty ::
    "LinkedList \<Rightarrow> bytes \<Rightarrow> bytes \<Rightarrow> (error option \<times> LinkedList) option" where
  "UnlockAndEmpty ll consumer i =
     (if Head ll = None then Some (Some QueueIsEmpty, ll) else unlockAndEmpty ll consumer i)"

text \<open>
  The unlinking loop of \<open>UnlockAndEmptyBatch\<close>. It returns the nodes it took out and the final value
  of \<open>current\<close>, which the code reads again afterwards.
\<close>

partial_function (option) UnlockAndEmptyBatch_loop ::
    "bytes \<Rightarrow> bytes list \<Rightarrow> LinkedList \<Rightarrow> addr list \<Rightarrow> ptr \<Rightarrow> ptr \<Rightarrow>
     (LinkedList \<times> addr list \<times> ptr) option" where
  "UnlockAndEmptyBatch_loop consumer ids ll ns prev current =
     (case current of
        None \<Rightarrow> Some (ll, ns, current)
      | Some a \<Rightarrow>
          if \<not> length ns < length ids then Some (ll, ns, current)
          else if ConsumerID (mem ll a) = consumer \<and> byteSliceExists ids (ID (mem ll a)) then
            if Some a = Tail ll then
              if Head ll = Tail ll then
                Some (ll\<lparr>Head := None, Tail := None\<rparr>, ns @ [a], current)
              else
                do { p \<leftarrow> prev;
                     Some (modNode p (\<lambda>n. n\<lparr>Next := None\<rparr>) (ll\<lparr>Tail := prev\<rparr>), ns @ [a], current) }
            else
              (case prev of
                 None \<Rightarrow>
                   do { h \<leftarrow> Head ll;
                        UnlockAndEmptyBatch_loop consumer ids (ll\<lparr>Head := Next (mem ll h)\<rparr>)
                          (ns @ [a]) prev (Next (mem ll h)) }
               | Some p \<Rightarrow>
                   UnlockAndEmptyBatch_loop consumer ids
                     (modNode p (\<lambda>n. n\<lparr>Next := Next (mem ll a)\<rparr>) ll) (ns @ [a]) prev
                     (Next (mem (modNode p (\<lambda>n. n\<lparr>Next := Next (mem ll a)\<rparr>) ll) a)))
          else UnlockAndEmptyBatch_loop consumer ids ll ns current (Next (mem ll a)))"

text \<open>
  The loop that is meant to chain the nodes that were taken out: \<open>start\<close> is set from
  \<open>current.Next\<close>, where \<open>current\<close> is the variable of the loop above.
\<close>

fun relink_loop :: "ptr \<Rightarrow> ptr \<Rightarrow> addr list \<Rightarrow> LinkedList \<Rightarrow> LinkedList option" where
  "relink_loop current start [] ll = Some ll"
| "relink_loop current start (a # as) ll =
     do { s \<leftarrow> start;
          let ll1 = modNode s (\<lambda>n. n\<lparr>Next := Some a\<rparr>) ll;
          c \<leftarrow> current;
          relink_loop current (Next (mem ll1 c)) as ll1 }"

definition UnlockAndEmptyBatch ::
    "LinkedList \<Rightarrow> bytes \<Rightarrow> bytes list \<Rightarrow> (error option \<times> LinkedList) option" where
  "UnlockAndEmptyBatch ll0 consumer ids =
     (if Head ll0 = None then Some (Some QueueIsEmpty, ll0)
      else if length ids = 1 then unlockAndEmpty ll0 consumer (ids ! 0)
      else if Value (Amount ll0) < int (length ids) then Some (Some CouldNotAckQueueTooShort, ll0)
      else
        do { h0 \<leftarrow> Head ll0;
             let (ll1, ns1) =
               (if ConsumerID (mem ll0 h0) = consumer \<and> byteSliceExists ids (ID (mem ll0 h0))
                then (ll0\<lparr>Head := Next (mem ll0 h0)\<rparr>, [h0]) else (ll0, []));
             (ll, ns, current) \<leftarrow>
               UnlockAndEmptyBatch_loop consumer ids ll1 ns1 None (Head ll1);
             if length ns = 0 then Some (Some CouldNotAckAll, ll)
             else if length ns = length ids then Some (None, ll)
             else if length ns = 1 then
               do { h \<leftarrow> Head ll;
                    let nxt = Next (mem ll h);
                    Some (Some CouldNotAckAll,
                      modNode (ns ! 0) (\<lambda>n. n\<lparr>Next := nxt\<rparr>)
                        (modNode h (\<lambda>n. n\<lparr>Next := Some (ns ! 0)\<rparr>) ll)) }
             else
               do { ll2 \<leftarrow> relink_loop current (Some (ns ! 0)) (tl ns) ll;
                    h \<leftarrow> Head ll2;
                    let nxt = Next (mem ll2 h);
                    Some (Some CouldNotAckAll,
                      modNode (last ns) (\<lambda>n. n\<lparr>Next := nxt\<rparr>)
                        (modNode h (\<lambda>n. n\<lparr>Next := Some (ns ! 0)\<rparr>) ll2)) } })"

text \<open>
  \<open>BatchUnlock\<close> first collects the matching nodes. Its loop advances \<open>current\<close> and leaves \<open>prev\<close> at
  the head of the list.
\<close>

record pairNode =
  pprev :: ptr
  pcurrent :: addr

partial_function (option) BatchUnlock_collect ::
    "LinkedList \<Rightarrow> bytes list \<Rightarrow> pairNode list \<Rightarrow> ptr \<Rightarrow> ptr \<Rightarrow> pairNode list option" where
  "BatchUnlock_collect ll ids ns prev current =
     (case current of
        None \<Rightarrow> Some ns
      | Some a \<Rightarrow>
          if length ns < length ids then
            BatchUnlock_collect ll ids
              (if byteSliceExists ids (ID (mem ll a))
               then ns @ [\<lparr>pprev = prev, pcurrent = a\<rparr>] else ns)
              prev (Next (mem ll a))
          else Some ns)"

fun BatchUnlock_apply ::
    "LinkedList \<Rightarrow> LinkedList option \<Rightarrow> pairNode list \<Rightarrow> (LinkedList \<times> LinkedList option) option" where
  "BatchUnlock_apply ll dl [] = Some (ll, dl)"
| "BatchUnlock_apply ll dl (nodePair # ps) =
     do { (ll1, dl1) \<leftarrow> unlockNode ll dl (pprev nodePair) (pcurrent nodePair);
          BatchUnlock_apply ll1 dl1 ps }"

definition BatchUnlock ::
    "LinkedList \<Rightarrow> LinkedList option \<Rightarrow> bytes \<Rightarrow> bytes list \<Rightarrow>
     (error option \<times> LinkedList \<times> LinkedList option) option" where
  "BatchUnlock ll dl consumer ids =
     (case Head ll of
        None \<Rightarrow> Some (Some QueueIsEmpty, ll, dl)
      | Some h \<Rightarrow>
          if Value (Amount ll) < int (length ids) then Some (Some CouldNotAckQueueTooShort, ll, dl)
          else
            do { ns \<leftarrow> BatchUnlock_collect ll ids
                    (if byteSliceExists ids (ID (mem ll h))
                     then [\<lparr>pprev = None, pcurrent = h\<rparr>] else [])
                    (Head ll) (Next (mem ll h));
                 if length ns = 0 \<or> length ns \<noteq> length ids then
                   Some (Some (CouldNotNackAll (length ns = 0) (length ns \<noteq> length ids)), ll, dl)
                 else
                   do { (ll1, dl1) \<leftarrow> BatchUnlock_apply ll dl ns; Some (None, ll1, dl1) } })"

text \<open>
  \<open>Dequeue\<close>: a node is handed out when its consumer holds it, when nobody holds it, or when its
  lock is older than the queue's time to live; the difference of the two 64-bit times wraps.
\<close>

definition available :: "i64 \<Rightarrow> bytes \<Rightarrow> i64 \<Rightarrow> bytes \<Rightarrow> i64 \<Rightarrow> bool" where
  "available ttl consumer now owner locked \<longleftrightarrow>
     owner = consumer \<or> owner = NO_CONSUMER \<or> sint ttl < sint (now - locked)"

partial_function (option) Dequeue_loop ::
    "u32 \<Rightarrow> bytes \<Rightarrow> i64 \<Rightarrow> LinkedList \<Rightarrow> bytes list \<Rightarrow> bytes list \<Rightarrow> ptr \<Rightarrow>
     (bytes list \<times> bytes list \<times> LinkedList) option" where
  "Dequeue_loop amount consumer now ll data ids current =
     (case current of
        None \<Rightarrow> Some (data, ids, ll)
      | Some a \<Rightarrow>
          if length data < unat amount then
            if available (nodeTTL ll) consumer now (ConsumerID (mem ll a)) (nodeTime (mem ll a)) then
              Dequeue_loop amount consumer now
                (modNode a (\<lambda>n. n\<lparr>ConsumerID := consumer, nodeTime := now\<rparr>) ll)
                (data @ [Val (mem ll a)]) (ids @ [ID (mem ll a)])
                (Next (mem (modNode a (\<lambda>n. n\<lparr>ConsumerID := consumer, nodeTime := now\<rparr>) ll) a))
            else Dequeue_loop amount consumer now ll data ids (Next (mem ll a))
          else Some (data, ids, ll))"

definition Dequeue ::
    "LinkedList \<Rightarrow> u32 \<Rightarrow> bytes \<Rightarrow> i64 \<Rightarrow> (bytes list \<times> bytes list \<times> LinkedList) option" where
  "Dequeue ll amount consumer now =
     (if Head ll = None then Some ([], [], ll)
      else Dequeue_loop amount consumer now ll [] [] (Head ll))"

partial_function (option) UnlockAllFromConsumer_loop ::
    "bytes \<Rightarrow> LinkedList \<Rightarrow> ptr \<Rightarrow> LinkedList option" where
  "UnlockAllFromConsumer_loop consumer ll current =
     (case current of
        None \<Rightarrow> Some ll
      | Some a \<Rightarrow>
          if ConsumerID (mem ll a) = consumer then
            UnlockAllFromConsumer_loop consumer
              (modNode a (\<lambda>n. n\<lparr>ConsumerID := NO_CONSUMER\<rparr>) ll)
              (Next (mem (modNode a (\<lambda>n. n\<lparr>ConsumerID := NO_CONSUMER\<rparr>) ll) a))
          else UnlockAllFromConsumer_loop consumer ll (Next (mem ll a)))"

definition UnlockAllFromConsumer :: "LinkedList \<Rightarrow> bytes \<Rightarrow> LinkedList option" where
  "UnlockAllFromConsumer ll consumer = UnlockAllFromConsumer_loop consumer ll (Head ll)"

text \<open>The unfolding equations of the loops run them on concrete queues.\<close>

declare Unlock_loop.simps [code] unlockAndEmpty_loop.simps [code] UnlockAndEmptyBatch_loop.simps [code]
  BatchUnlock_collect.simps [code] Dequeue_loop.simps [code] UnlockAllFromConsumer_loop.simps [code]

end
