(* ===== verification/QueueSpec.thy ===== *)
theory QueueSpec
  imports LinkedList
begin

text \<open>
  What a queue promises, on plain lists: the abstract state of a queue (its entries in order, the
  message count it keeps, its settings) and one function per method of the Go interface
  \<open>Queue\<close>. That the linked list implements them is shown in the theories from \<open>LinkedListRefine\<close> on;
  what follows for any implementation, in the locale of \<open>QueueInterface\<close>.
\<close>

section \<open>Abstract queues\<close>

record entry =
  eid :: bytes
  evalue :: bytes
  eowner :: bytes
  etime :: i64
  efetched :: u32

record aqueue =
  items :: "entry list"
  amount :: int
  acap :: u32
  attl :: i64
  alimit :: u32
  adl :: queueRef

definition newEntry :: "bytes \<Rightarrow> bytes \<Rightarrow> entry" where
  "newEntry i v = \<lparr>eid = i, evalue = v, eowner = NO_CONSUMER, etime = 0, efetched = 0\<rparr>"

definition newAq :: "u32 \<Rightarrow> u32 \<Rightarrow> i64 \<Rightarrow> queueRef \<Rightarrow> aqueue" where
  "newAq sz limit ttl dl =
     \<lparr>items = [], amount = 0, acap = sz, attl = ttl, alimit = limit, adl = dl\<rparr>"

definition aqFull :: "aqueue \<Rightarrow> bool" where
  "aqFull q \<longleftrightarrow> uint (acap q) \<le> amount q"

definition aqEnqueue :: "aqueue \<Rightarrow> bytes \<Rightarrow> bytes \<Rightarrow> aqueue" where
  "aqEnqueue q i v =
     (if aqFull q then q else q\<lparr>items := items q @ [newEntry i v], amount := amount q + 1\<rparr>)"

definition aqBatchEnqueue :: "aqueue \<Rightarrow> MessageBatch list \<Rightarrow> aqueue" where
  "aqBatchEnqueue q ms =
     (if aqFull q then q
      else q\<lparr>items := items q @ map (\<lambda>m. newEntry (mbId m) (mbData m)) ms,
             amount := amount q + int (length ms)\<rparr>)"

text \<open>
  \<open>grab P f n xs\<close>: the first \<open>n\<close> elements that satisfy \<open>P\<close>, and the list with \<open>f\<close> applied to them.
\<close>

fun grab :: "('a \<Rightarrow> bool) \<Rightarrow> ('a \<Rightarrow> 'a) \<Rightarrow> nat \<Rightarrow> 'a list \<Rightarrow> 'a list \<times> 'a list" where
  "grab P f n [] = ([], [])"
| "grab P f 0 (x # xs) = ([], x # xs)"
| "grab P f (Suc n) (x # xs) =
     (if P x then (x # fst (grab P f n xs), f x # snd (grab P f n xs))
      else (fst (grab P f (Suc n) xs), x # snd (grab P f (Suc n) xs)))"

definition entryFree :: "i64 \<Rightarrow> bytes \<Rightarrow> i64 \<Rightarrow> entry \<Rightarrow> bool" where
  "entryFree ttl consumer now e = available ttl consumer now (eowner e) (etime e)"

definition lockEntry :: "bytes \<Rightarrow> i64 \<Rightarrow> entry \<Rightarrow> entry" where
  "lockEntry consumer now e = e\<lparr>eowner := consumer, etime := now\<rparr>"

definition handedOut :: "aqueue \<Rightarrow> u32 \<Rightarrow> bytes \<Rightarrow> i64 \<Rightarrow> entry list" where
  "handedOut q n consumer now =
     fst (grab (entryFree (attl q) consumer now) (lockEntry consumer now) (unat n) (items q))"

definition aqDequeue :: "aqueue \<Rightarrow> u32 \<Rightarrow> bytes \<Rightarrow> i64 \<Rightarrow> aqueue" where
  "aqDequeue q n consumer now =
     q\<lparr>items :=
        snd (grab (entryFree (attl q) consumer now) (lockEntry consumer now) (unat n) (items q))\<rparr>"

definition heldAs :: "bytes \<Rightarrow> bytes \<Rightarrow> entry \<Rightarrow> bool" where
  "heldAs consumer i e \<longleftrightarrow> eid e = i \<and> eowner e = consumer"

fun removeFirst :: "('a \<Rightarrow> bool) \<Rightarrow> 'a list \<Rightarrow> 'a list" where
  "removeFirst P [] = []"
| "removeFirst P (x # xs) = (if P x then xs else x # removeFirst P xs)"

fun updateFirst :: "('a \<Rightarrow> bool) \<Rightarrow> ('a \<Rightarrow> 'a) \<Rightarrow> 'a list \<Rightarrow> 'a list" where
  "updateFirst P f [] = []"
| "updateFirst P f (x # xs) = (if P x then f x # xs else x # updateFirst P f xs)"

definition aqAck :: "aqueue \<Rightarrow> bytes \<Rightarrow> bytes \<Rightarrow> error option \<times> aqueue" where
  "aqAck q consumer i =
     (if items q = [] then (Some QueueIsEmpty, q)
      else if \<exists>e\<in>set (items q). heldAs consumer i e then
        (None, q\<lparr>items := removeFirst (heldAs consumer i) (items q), amount := amount q - 1\<rparr>)
      else (Some (CouldNotFindItem i), q))"

definition releaseEntry :: "entry \<Rightarrow> entry" where
  "releaseEntry e = e\<lparr>eowner := NO_CONSUMER, efetched := efetched e + 1\<rparr>"

text \<open>
  \<open>Unlock\<close> looks at the first entry with the identifier only. \<open>None\<close> is the nil interface call at the
  fetch limit of a queue whose \<open>deadLetter\<close> points to a nil interface value.
\<close>

definition aqDeadLetter ::
    "queueRef \<Rightarrow> aqueue option \<Rightarrow> bytes \<Rightarrow> bytes \<Rightarrow> aqueue option option" where
  "aqDeadLetter ref dl i v =
     (case ref of
        NilPtr \<Rightarrow> Some dl
      | PtrNil \<Rightarrow> None
      | PtrQueue _ \<Rightarrow> map_option (\<lambda>d. Some (aqEnqueue d i v)) dl)"

definition aqNack ::
    "aqueue \<Rightarrow> aqueue option \<Rightarrow> bytes \<Rightarrow> bytes \<Rightarrow> (bool \<times> aqueue \<times> aqueue option) option" where
  "aqNack q dl consumer i =
     (case find (\<lambda>e. eid e = i) (items q) of
        None \<Rightarrow> Some (False, q, dl)
      | Some e \<Rightarrow>
          if eowner e \<noteq> consumer then Some (False, q, dl)
          else if alimit q \<le> efetched e + 1 then
            do { dl' \<leftarrow> aqDeadLetter (adl q) dl (eid e) (evalue e);
                 Some (True, q\<lparr>items := removeFirst (\<lambda>e. eid e = i) (items q), amount := amount q - 1\<rparr>,
                       dl') }
          else Some (True, q\<lparr>items := updateFirst (\<lambda>e. eid e = i) releaseEntry (items q)\<rparr>, dl))"

text \<open>
  \<open>dropFirst P n xs\<close>: the list without its first \<open>n\<close> elements that satisfy \<open>P\<close>.
\<close>

fun dropFirst :: "('a \<Rightarrow> bool) \<Rightarrow> nat \<Rightarrow> 'a list \<Rightarrow> 'a list" where
  "dropFirst P n [] = []"
| "dropFirst P 0 (x # xs) = x # xs"
| "dropFirst P (Suc n) (x # xs) =
     (if P x then dropFirst P n xs else x # dropFirst P (Suc n) xs)"

definition ackable :: "bytes \<Rightarrow> bytes list \<Rightarrow> entry \<Rightarrow> bool" where
  "ackable consumer ids e \<longleftrightarrow> eowner e = consumer \<and> eid e \<in> set ids"

text \<open>
  The batch acknowledgement when the queue holds at least as many acknowledgeable entries as there
  are identifiers. The message count does not change: the code has no decrement on this path.
\<close>

definition aqBatchAck :: "aqueue \<Rightarrow> bytes \<Rightarrow> bytes list \<Rightarrow> aqueue" where
  "aqBatchAck q consumer ids =
     q\<lparr>items := dropFirst (ackable consumer ids) (length ids) (items q)\<rparr>"

definition aqUnlockAll :: "aqueue \<Rightarrow> bytes \<Rightarrow> aqueue" where
  "aqUnlockAll q consumer =
     q\<lparr>items := map (\<lambda>e. if eowner e = consumer then e\<lparr>eowner := NO_CONSUMER\<rparr> else e) (items q)\<rparr>"

lemmas aq_defs =
  aqFull_def aqEnqueue_def aqBatchEnqueue_def aqDequeue_def handedOut_def aqAck_def aqNack_def
  aqBatchAck_def aqUnlockAll_def newAq_def newEntry_def

section \<open>Facts about the abstract operations\<close>

lemma length_grab: "length (snd (grab P f n xs)) = length xs"
  by (induction P f n xs rule: grab.induct) auto

lemma length_fst_grab: "length (fst (grab P f n xs)) \<le> n"
  by (induction P f n xs rule: grab.induct) auto

lemma fst_grab_filter: "fst (grab P f n xs) = take n (filter P xs)"
  by (induction P f n xs rule: grab.induct) auto

text \<open>Each entry after a fetch is an entry before it, either untouched or locked.\<close>

lemma snd_grab_nth:
  "i < length xs \<Longrightarrow>
   snd (grab P f n xs) ! i = xs ! i \<or> (P (xs ! i) \<and> snd (grab P f n xs) ! i = f (xs ! i))"
proof (induction P f n xs arbitrary: i rule: grab.induct)
  case (3 P f n x xs)
  then show ?case by (cases i) auto
qed auto

lemma map_snd_grab:
  "(\<And>x. g (f x) = g x) \<Longrightarrow> map g (snd (grab P f n xs)) = map g xs"
  by (induction P f n xs rule: grab.induct) auto

lemma grab_member:
  "x \<in> set (fst (grab P f n xs)) \<Longrightarrow> f x \<in> set (snd (grab P f n xs))"
  by (induction P f n xs rule: grab.induct) (auto split: if_splits)

lemma length_removeFirst:
  "\<exists>x\<in>set xs. P x \<Longrightarrow> length xs = Suc (length (removeFirst P xs))"
  by (induction xs) auto

lemma removeFirst_split:
  "\<forall>y\<in>set ys. \<not> P y \<Longrightarrow> P x \<Longrightarrow> removeFirst P (ys @ x # zs) = ys @ zs"
  by (induction ys) auto

lemma removeFirst_none:
  "\<forall>x\<in>set xs. \<not> P x \<Longrightarrow> removeFirst P xs = xs"
  by (induction xs) auto

lemma updateFirst_split:
  "\<forall>y\<in>set ys. \<not> P y \<Longrightarrow> P x \<Longrightarrow> updateFirst P f (ys @ x # zs) = ys @ f x # zs"
  by (induction ys) auto

lemma length_updateFirst [simp]: "length (updateFirst P f xs) = length xs"
  by (induction xs) auto

lemma find_split:
  "\<forall>y\<in>set ys. \<not> P y \<Longrightarrow> P x \<Longrightarrow> find P (ys @ x # zs) = Some x"
  by (induction ys) auto

lemma find_Some_split:
  "find P xs = Some x \<Longrightarrow> \<exists>ys zs. xs = ys @ x # zs \<and> P x \<and> (\<forall>y\<in>set ys. \<not> P y)"
proof (induction xs)
  case (Cons a xs)
  show ?case
  proof (cases "P a")
    case True
    with Cons.prems show ?thesis by (intro exI[of _ "[]"] exI[of _ xs]) auto
  next
    case False
    with Cons.prems have "find P xs = Some x" by simp
    from Cons.IH[OF this] obtain ys zs where
      "xs = ys @ x # zs" "P x" "\<forall>y\<in>set ys. \<not> P y" by blast
    with False show ?thesis by (intro exI[of _ "a # ys"] exI[of _ zs]) auto
  qed
qed simp

lemma removeFirst_mset:
  "find P xs = Some x \<Longrightarrow> mset xs = add_mset x (mset (removeFirst P xs))"
  by (induction xs) (auto split: if_splits)

lemma dropFirst_0 [simp]: "dropFirst P 0 xs = xs"
  by (cases xs) auto

lemma length_dropFirst:
  "length (dropFirst P n xs) + min n (length (filter P xs)) = length xs"
  by (induction P n xs rule: dropFirst.induct) auto

end
