(* ===== verification/LinkedListRefine.thy ===== *)
theory LinkedListRefine
  imports QueueSpec
begin

text \<open>
  The linked list implements the abstract queue. The representation invariant says how \<open>Head\<close>,
  \<open>Tail\<close>, the \<open>Next\<close> pointers, the node pool and the counter fit together; the simulation relation
  \<open>models\<close> adds the abstract state that the nodes on the list stand for. Each method is shown to
  return (no nil dereference, no endless loop) and to simulate its abstract counterpart.
\<close>

section \<open>Pointer chains\<close>

primrec chain :: "(addr \<Rightarrow> ListNode) \<Rightarrow> ptr \<Rightarrow> addr list \<Rightarrow> ptr \<Rightarrow> bool" where
  "chain h p [] q \<longleftrightarrow> p = q"
| "chain h p (a # as) q \<longleftrightarrow> p = Some a \<and> chain h (Next (h a)) as q"

lemma chain_append [simp]:
  "chain h p (xs @ ys) q \<longleftrightarrow> (\<exists>r. chain h p xs r \<and> chain h r ys q)"
  by (induction xs arbitrary: p) auto

lemma chain_cong:
  "(\<And>a. a \<in> set xs \<Longrightarrow> Next (h' a) = Next (h a)) \<Longrightarrow> chain h' p xs q \<longleftrightarrow> chain h p xs q"
  by (induction xs arbitrary: p) auto

lemma chain_upd [simp]:
  "a \<notin> set xs \<Longrightarrow> chain (h(a := n)) p xs q \<longleftrightarrow> chain h p xs q"
  by (rule chain_cong) auto

lemma chain_same_next [simp]:
  "Next n = Next (h a) \<Longrightarrow> chain (h(a := n)) p xs q \<longleftrightarrow> chain h p xs q"
  by (rule chain_cong) auto

lemma chain_redirect:
  "chain h p (ys @ [a]) q \<Longrightarrow> a \<notin> set ys \<Longrightarrow> Next n = r \<Longrightarrow> chain (h(a := n)) p (ys @ [a]) r"
  by (auto simp: fun_upd_same)

lemma chain_None_Nil: "chain h None xs q \<Longrightarrow> xs = []"
  by (cases xs) auto

lemma chain_unique: "chain h p xs None \<Longrightarrow> chain h p ys None \<Longrightarrow> xs = ys"
proof (induction xs arbitrary: p ys)
  case Nil
  then show ?case by (auto dest: chain_None_Nil)
next
  case (Cons a xs)
  then show ?case by (cases ys) auto
qed

section \<open>The representation invariant\<close>

definition entryOf :: "ListNode \<Rightarrow> entry" where
  "entryOf n = \<lparr>eid = ID n, evalue = Val n, eowner = ConsumerID n, etime = nodeTime n,
                efetched = fetched n\<rparr>"

lemma entryOf_sel [simp]:
  "eid (entryOf n) = ID n" "evalue (entryOf n) = Val n" "eowner (entryOf n) = ConsumerID n"
  "etime (entryOf n) = nodeTime n" "efetched (entryOf n) = fetched n"
  by (simp_all add: entryOf_def)

lemma entryOf_Next [simp]: "entryOf (n\<lparr>Next := p\<rparr>) = entryOf n"
  by (simp add: entryOf_def)

text \<open>
  \<open>shape ll xs U\<close>: \<open>xs\<close> are the addresses on the list in order, and \<open>U\<close> contains them and the
  addresses that are neither on the list nor in the pool (nodes taken out but not yet released).
\<close>

definition shape :: "LinkedList \<Rightarrow> addr list \<Rightarrow> addr set \<Rightarrow> bool" where
  "shape ll xs U \<longleftrightarrow>
     chain (mem ll) (Head ll) xs None \<and> distinct xs \<and> (xs \<noteq> [] \<longrightarrow> Tail ll = Some (last xs)) \<and>
     set xs \<subseteq> U \<and> pool_inv (objPool ll) (nmem ll) U"

definition absOf :: "LinkedList \<Rightarrow> addr list \<Rightarrow> aqueue" where
  "absOf ll xs =
     \<lparr>items = map (\<lambda>a. entryOf (mem ll a)) xs, amount = ccount (Amount ll), acap = cap ll,
      attl = nodeTTL ll, alimit = fetchLimit ll, adl = deadLetter ll\<rparr>"

definition models :: "LinkedList \<Rightarrow> aqueue \<Rightarrow> bool" where
  "models ll q \<longleftrightarrow>
     (\<exists>xs U. shape ll xs U \<and> q = absOf ll xs \<and> int (length xs) \<le> ccount (Amount ll))"

lemma absOf_sel [simp]:
  "items (absOf ll xs) = map (\<lambda>a. entryOf (mem ll a)) xs"
  "amount (absOf ll xs) = ccount (Amount ll)" "acap (absOf ll xs) = cap ll"
  "attl (absOf ll xs) = nodeTTL ll" "alimit (absOf ll xs) = fetchLimit ll"
  "adl (absOf ll xs) = deadLetter ll"
  by (simp_all add: absOf_def)

lemma modelsI:
  "shape ll xs U \<Longrightarrow> q = absOf ll xs \<Longrightarrow> int (length xs) \<le> ccount (Amount ll) \<Longrightarrow> models ll q"
  by (auto simp: models_def)

lemma models_unique: "models ll q \<Longrightarrow> models ll q' \<Longrightarrow> q = q'"
  by (auto simp: models_def shape_def dest: chain_unique)

lemma shape_Nil_iff: "shape ll xs U \<Longrightarrow> xs = [] \<longleftrightarrow> Head ll = None"
  by (cases xs) (auto simp: shape_def)

lemma models_Nil_iff: "models ll q \<Longrightarrow> items q = [] \<longleftrightarrow> Head ll = None"
  by (auto simp: models_def dest: shape_Nil_iff)

lemma models_amount: "models ll q \<Longrightarrow> int (length (items q)) \<le> amount q"
  by (auto simp: models_def)

section \<open>Reading and writing nodes\<close>

lemma modNode_sel [heap_simps, simp]:
  "Head (modNode a f ll) = Head ll" "Tail (modNode a f ll) = Tail ll"
  "Amount (modNode a f ll) = Amount ll" "cap (modNode a f ll) = cap ll"
  "nodeTTL (modNode a f ll) = nodeTTL ll" "objPool (modNode a f ll) = objPool ll"
  "deadLetter (modNode a f ll) = deadLetter ll" "fetchLimit (modNode a f ll) = fetchLimit ll"
  "mem (modNode a f ll) = (mem ll)(a := f (mem ll a))"
  "top (nmem (modNode a f ll)) = top (nmem ll)"
  by (simp_all add: modNode_def)

lemma decAmount_sel [heap_simps, simp]:
  "Head (decAmount ll) = Head ll" "Tail (decAmount ll) = Tail ll"
  "ccount (Amount (decAmount ll)) = ccount (Amount ll) - 1" "cap (decAmount ll) = cap ll"
  "nodeTTL (decAmount ll) = nodeTTL ll" "objPool (decAmount ll) = objPool ll"
  "deadLetter (decAmount ll) = deadLetter ll" "fetchLimit (decAmount ll) = fetchLimit ll"
  "nmem (decAmount ll) = nmem ll"
  by (simp_all add: decAmount_def Decrement_def)

lemma pool_inv_modNode [heap_simps, simp]:
  "pool_inv op (nmem ll) U \<Longrightarrow> a \<in> U \<Longrightarrow> pool_inv op (nmem (modNode a f ll)) U"
  by (simp add: modNode_def pool_inv_write)

lemma absOf_decAmount [simp]:
  "absOf (decAmount ll) xs = (absOf ll xs)\<lparr>amount := ccount (Amount ll) - 1\<rparr>"
  by (simp add: absOf_def)

text \<open>What a fetched node leaves unchanged of the queue it was fetched for.\<close>

lemma getNode_shape:
  assumes "shape ll xs U"
  obtains a ll' where "getNode ll = (Some a, ll')" "a \<notin> U" "mem ll' a = zeroNode"
    "\<forall>b. b \<noteq> a \<longrightarrow> mem ll' b = mem ll b" "shape ll' xs (insert a U)"
    "absOf ll' xs = absOf ll xs" "Head ll' = Head ll" "Tail ll' = Tail ll" "Amount ll' = Amount ll"
    "cap ll' = cap ll"
proof -
  obtain p op m where g: "GetObject (objPool ll) (nmem ll) = (p, op, m)"
    by (cases "GetObject (objPool ll) (nmem ll)") auto
  from assms have inv: "pool_inv (objPool ll) (nmem ll) U" and sub: "set xs \<subseteq> U"
    by (auto simp: shape_def)
  obtain a where a: "p = Some a" "a \<notin> U" "nodes m a = zeroNode"
    "\<forall>b. b \<noteq> a \<longrightarrow> nodes m b = mem ll b" "pool_inv op m (insert a U)"
    using GetObject_fresh[OF inv g] by metis
  have eq: "nodes m b = mem ll b" if "b \<in> set xs" for b
    using a(2,4) sub that by auto
  then have ch: "chain (nodes m) (Head ll) xs None \<longleftrightarrow> chain (mem ll) (Head ll) xs None"
    by (intro chain_cong) auto
  show ?thesis
  proof (rule that[of a "ll\<lparr>objPool := op, nmem := m\<rparr>"])
    show "getNode ll = (Some a, ll\<lparr>objPool := op, nmem := m\<rparr>)"
      using g a(1) by (simp add: getNode_def)
    show "shape (ll\<lparr>objPool := op, nmem := m\<rparr>) xs (insert a U)"
      using assms a(5) ch by (auto simp: shape_def)
    show "absOf (ll\<lparr>objPool := op, nmem := m\<rparr>) xs = absOf ll xs"
      using eq by (simp add: absOf_def)
  qed (use a in auto)
qed

text \<open>Releasing a node that is not on the list.\<close>

lemma releaseNode_shape:
  assumes "shape ll xs U" "a \<in> U" "a \<notin> set xs"
  obtains ll' where "releaseNode (Some a) ll = Some ll'" "shape ll' xs (U - {a})"
    "absOf ll' xs = absOf ll xs" "Amount ll' = Amount ll"
    "Head ll' = Head ll" "Tail ll' = Tail ll"
proof -
  from assms have inv: "pool_inv (objPool ll) (nmem ll) U" by (simp add: shape_def)
  obtain op m where r: "ReleaseObject (objPool ll) (nmem ll) (Some a) = Some (op, m)"
    "pool_inv op m (U - {a})" "nodes m = (mem ll)(a := zeroNode)"
    using ReleaseObject_inv[OF inv assms(2)] by metis
  have ab: "absOf (ll\<lparr>objPool := op, nmem := m\<rparr>) xs = absOf ll xs"
    using assms(3) r(3) by (simp add: absOf_def)
  show ?thesis
    by (rule that[of "ll\<lparr>objPool := op, nmem := m\<rparr>"])
      (use assms r ab in \<open>auto simp: releaseNode_def shape_def\<close>)
qed

text \<open>A write to a node that keeps its \<open>Next\<close> pointer keeps the shape.\<close>

lemma modNode_shape:
  "shape ll xs U \<Longrightarrow> a \<in> U \<Longrightarrow> Next (f (mem ll a)) = Next (mem ll a) \<Longrightarrow> shape (modNode a f ll) xs U"
  by (auto simp: shape_def)

lemma modNode_shape_outside:
  "shape ll xs U \<Longrightarrow> a \<in> U \<Longrightarrow> a \<notin> set xs \<Longrightarrow> shape (modNode a f ll) xs U"
  by (auto simp: shape_def)

lemma absOf_modNode_outside [simp]:
  "a \<notin> set xs \<Longrightarrow> absOf (modNode a f ll) xs = absOf ll xs"
  by (auto simp: absOf_def)

lemma absOf_modNode_entry:
  "entryOf (f (mem ll a)) = entryOf (mem ll a) \<Longrightarrow> absOf (modNode a f ll) xs = absOf ll xs"
  by (auto simp: absOf_def)

section \<open>Creation and insertion\<close>

lemma NewQueue_models: "models (NewQueue sz limit ttl dl) (newAq sz limit ttl dl)"
  by (rule modelsI[of _ "[]" "{}"])
    (simp_all add: NewQueue_def newAq_def shape_def absOf_def pool_inv_new)

text \<open>
  A node fetched from the pool and filled with a message: it is off the list, ends a chain, and
  stands for a new entry. \<open>filled\<close> names the write that \<open>Enqueue\<close> and \<open>BatchEnqueue\<close> make.
\<close>

abbreviation filled :: "bytes \<Rightarrow> bytes \<Rightarrow> addr \<Rightarrow> LinkedList \<Rightarrow> LinkedList" where
  "filled i v a \<equiv>
     modNode a (\<lambda>n. n\<lparr>ID := i, Val := v, ConsumerID := NO_CONSUMER, nodeTime := 0\<rparr>)"

lemma getNode_filled:
  assumes "shape ll xs U"
  obtains a ll' where "getNode ll = (Some a, ll')" "a \<notin> U" "shape (filled i v a ll') xs (insert a U)"
    "absOf (filled i v a ll') xs = absOf ll xs" "Next (mem (filled i v a ll') a) = None"
    "entryOf (mem (filled i v a ll') a) = newEntry i v"
    "\<forall>b. b \<noteq> a \<longrightarrow> mem (filled i v a ll') b = mem ll b"
    "Head ll' = Head ll" "Tail ll' = Tail ll" "Amount ll' = Amount ll" "cap ll' = cap ll"
proof -
  obtain a ll' where g: "getNode ll = (Some a, ll')" "a \<notin> U" "mem ll' a = zeroNode"
    "\<forall>b. b \<noteq> a \<longrightarrow> mem ll' b = mem ll b" and sh': "shape ll' xs (insert a U)"
    and ab: "absOf ll' xs = absOf ll xs"
    and same: "Head ll' = Head ll" "Tail ll' = Tail ll" "Amount ll' = Amount ll" "cap ll' = cap ll"
    using getNode_shape[OF assms] by metis
  from assms g(2) have an: "a \<notin> set xs" by (auto simp: shape_def)
  show ?thesis
    by (rule that[OF g(1,2)])
      (use g sh' ab an same in \<open>auto intro!: modNode_shape_outside simp: entryOf_def newEntry_def\<close>)
qed

text \<open>
  A detached segment is linked behind the list, or becomes the list when that is empty: the last
  steps of \<open>Enqueue\<close> and of \<open>BatchEnqueue\<close>.
\<close>

abbreviation attach :: "addr \<Rightarrow> addr \<Rightarrow> Counter \<Rightarrow> LinkedList \<Rightarrow> LinkedList option" where
  "attach first end c ll \<equiv>
     (if Head ll = None then
        Some ((modNode end (\<lambda>n. n\<lparr>Next := Head ll\<rparr>) ll)
          \<lparr>Head := Some first, Tail := Some end, Amount := c\<rparr>)
      else do { t \<leftarrow> Tail ll;
        Some ((modNode t (\<lambda>n. n\<lparr>Next := Some first\<rparr>) ll)\<lparr>Tail := Some end, Amount := c\<rparr>) })"

lemma attach_empty:
  assumes "shape ll [] U" "set (seg @ [e]) \<subseteq> U" "distinct (seg @ [e])"
    "chain (mem ll) (Some f) (seg @ [e]) None"
  shows "shape ((modNode e (\<lambda>n. n\<lparr>Next := None\<rparr>) ll)\<lparr>Head := Some f, Tail := Some e, Amount := c\<rparr>)
           (seg @ [e]) U"
  using assms by (auto simp: shape_def)

lemma attach_last:
  assumes "shape ll (ys @ [y]) U" "set (seg @ [e]) \<subseteq> U" "distinct ((ys @ [y]) @ seg @ [e])"
    "chain (mem ll) (Some f) (seg @ [e]) None"
  shows "shape ((modNode y (\<lambda>n. n\<lparr>Next := Some f\<rparr>) ll)\<lparr>Tail := Some e, Amount := c\<rparr>)
           ((ys @ [y]) @ seg @ [e]) U"
  using assms by (auto simp: shape_def)

lemma attach_models:
  assumes sh: "shape ll xs U" and sub: "set (seg @ [e]) \<subseteq> U" and dist: "distinct (xs @ seg @ [e])"
    and ch: "chain (mem ll) (Some f) (seg @ [e]) None"
    and len: "int (length xs) + int (length (seg @ [e])) \<le> ccount c"
  shows "\<exists>ll'. attach f e c ll = Some ll' \<and>
           models ll' ((absOf ll xs)\<lparr>items := items (absOf ll xs) @ items (absOf ll (seg @ [e])),
                                     amount := ccount c\<rparr>)"
proof (cases xs rule: rev_cases)
  case Nil
  with sh have "Head ll = None" by (simp add: shape_def)
  moreover have "shape ((modNode e (\<lambda>n. n\<lparr>Next := None\<rparr>) ll)
      \<lparr>Head := Some f, Tail := Some e, Amount := c\<rparr>) (seg @ [e]) U"
    using assms Nil by (intro attach_empty) auto
  ultimately show ?thesis
    using Nil len dist by (auto intro!: modelsI simp: absOf_def)
next
  case (snoc ys y)
  with sh have "Head ll \<noteq> None" "Tail ll = Some y" using shape_Nil_iff[OF sh]
    by (auto simp: shape_def)
  moreover have "shape ((modNode y (\<lambda>n. n\<lparr>Next := Some f\<rparr>) ll)
      \<lparr>Tail := Some e, Amount := c\<rparr>) (xs @ seg @ [e]) U"
    unfolding snoc using assms snoc by (intro attach_last) auto
  ultimately show ?thesis
    using snoc len dist by (auto intro!: modelsI simp: absOf_def)
qed

lemma Enqueue_models:
  assumes "models ll q"
  shows "\<exists>ll'. Enqueue ll i v = Some ll' \<and> models ll' (aqEnqueue q i v)"
proof -
  from assms obtain xs U where sh: "shape ll xs U" and q: "q = absOf ll xs"
    and len: "int (length xs) \<le> ccount (Amount ll)" by (auto simp: models_def)
  obtain a ll1 where g: "getNode ll = (Some a, ll1)" "a \<notin> U"
    and sh2: "shape (filled i v a ll1) xs (insert a U)"
    and ab2: "absOf (filled i v a ll1) xs = absOf ll xs"
    and n2: "Next (mem (filled i v a ll1) a) = None" "entryOf (mem (filled i v a ll1) a) = newEntry i v"
    and same: "Head ll1 = Head ll" "Tail ll1 = Tail ll" "Amount ll1 = Amount ll" "cap ll1 = cap ll"
    using getNode_filled[OF sh] by metis
  let ?ll = "filled i v a ll1"
  from sh g(2) have an: "a \<notin> set xs" "distinct xs" by (auto simp: shape_def)
  have E: "Enqueue ll i v = (if uint (cap ll) \<le> ccount (Amount ll) then Some ?ll
      else attach a a (Increment (Amount ll)) ?ll)"
    by (simp add: Enqueue_def g(1) Let_def Value_def same)
  show ?thesis
  proof (cases "aqFull q")
    case True
    then show ?thesis using E ab2 len q same
      by (auto simp: aqEnqueue_def aqFull_def intro!: modelsI[OF sh2])
  next
    case False
    have "\<exists>ll'. attach a a (Increment (Amount ll)) ?ll = Some ll' \<and>
        models ll' ((absOf ?ll xs)\<lparr>items := items (absOf ?ll xs) @ items (absOf ?ll ([] @ [a])),
                                   amount := ccount (Increment (Amount ll))\<rparr>)"
      by (rule attach_models[OF sh2]) (use an n2 len in \<open>auto simp: Increment_def\<close>)
    moreover have "(absOf ?ll xs)\<lparr>items := items (absOf ?ll xs) @ items (absOf ?ll ([] @ [a])),
        amount := ccount (Increment (Amount ll))\<rparr> = aqEnqueue q i v"
      using False unfolding ab2 q by (simp add: aqEnqueue_def n2(2) Increment_def del: modNode_sel(9))
    ultimately show ?thesis using False E q by (simp add: aqFull_def)
  qed
qed

text \<open>
  The loop of \<open>BatchEnqueue\<close> extends a detached segment \<open>seg @ [e]\<close> by one node per message.
\<close>

lemma BatchEnqueue_loop_shape:
  assumes "shape ll xs U" "set (seg @ [e]) \<subseteq> U" "distinct (xs @ seg @ [e])"
    "chain (mem ll) (Some f) (seg @ [e]) None"
  shows "\<exists>ll' seg' e' U'. BatchEnqueue_loop ll e ms = Some (ll', e') \<and> shape ll' xs U' \<and>
    set (seg' @ [e']) \<subseteq> U' \<and> distinct (xs @ seg' @ [e']) \<and>
    chain (mem ll') (Some f) (seg' @ [e']) None \<and> absOf ll' xs = absOf ll xs \<and>
    items (absOf ll' (seg' @ [e'])) =
      items (absOf ll (seg @ [e])) @ map (\<lambda>m. newEntry (mbId m) (mbData m)) ms \<and>
    length seg' = length seg + length ms \<and>
    Head ll' = Head ll \<and> Tail ll' = Tail ll \<and> Amount ll' = Amount ll"
  using assms
proof (induction ms arbitrary: ll seg e U)
  case Nil
  then show ?case
    by (intro exI[of _ ll] exI[of _ seg] exI[of _ e] exI[of _ U]) auto
next
  case (Cons m ms)
  let ?i = "mbId m" let ?v = "mbData m"
  obtain a ll1 where g: "getNode ll = (Some a, ll1)" "a \<notin> U"
    and sh2: "shape (filled ?i ?v a ll1) xs (insert a U)"
    and ab2: "absOf (filled ?i ?v a ll1) xs = absOf ll xs"
    and n2: "Next (mem (filled ?i ?v a ll1) a) = None"
      "entryOf (mem (filled ?i ?v a ll1) a) = newEntry ?i ?v"
    and m2: "\<forall>b. b \<noteq> a \<longrightarrow> mem (filled ?i ?v a ll1) b = mem ll b"
    and same: "Head ll1 = Head ll" "Tail ll1 = Tail ll" "Amount ll1 = Amount ll"
    using getNode_filled[OF Cons.prems(1)] by metis
  define ll3 where "ll3 = modNode e (\<lambda>n. n\<lparr>Next := Some a\<rparr>) (filled ?i ?v a ll1)"
  from Cons.prems g(2) have neq: "a \<notin> set xs" "a \<notin> set (seg @ [e])" "e \<notin> set xs" "e \<in> U" "a \<noteq> e"
    by (auto simp: shape_def)
  have m3: "mem ll3 b = (if b = e then (mem ll e)\<lparr>Next := Some a\<rparr>
      else if b = a then mem (filled ?i ?v a ll1) a else mem ll b)" for b
    using m2 neq(5) unfolding ll3_def by simp
  have ch3: "chain (mem ll3) (Some f) seg (Some e)"
    using Cons.prems(3,4) neq m3 by (subst chain_cong[of _ _ "mem ll"]) auto
  have "\<exists>ll' seg' e' U'. BatchEnqueue_loop ll3 a ms = Some (ll', e') \<and> shape ll' xs U' \<and>
    set (seg' @ [e']) \<subseteq> U' \<and> distinct (xs @ seg' @ [e']) \<and>
    chain (mem ll') (Some f) (seg' @ [e']) None \<and> absOf ll' xs = absOf ll3 xs \<and>
    items (absOf ll' (seg' @ [e'])) =
      items (absOf ll3 ((seg @ [e]) @ [a])) @ map (\<lambda>m. newEntry (mbId m) (mbData m)) ms \<and>
    length seg' = length (seg @ [e]) + length ms \<and>
    Head ll' = Head ll3 \<and> Tail ll' = Tail ll3 \<and> Amount ll' = Amount ll3"
  proof (rule Cons.IH)
    show "shape ll3 xs (insert a U)" unfolding ll3_def
      by (rule modNode_shape_outside[OF sh2]) (use neq in auto)
    show "chain (mem ll3) (Some f) ((seg @ [e]) @ [a]) None"
      using ch3 m3 n2(1) neq(5) by simp
  qed (use Cons.prems neq in auto)
  moreover have "absOf ll3 xs = absOf ll xs"
    using ab2 neq unfolding ll3_def by simp
  moreover have "items (absOf ll3 ((seg @ [e]) @ [a])) = items (absOf ll (seg @ [e])) @ [newEntry ?i ?v]"
    using m3 n2(2) neq by (auto simp del: modNode_sel)
  moreover have "BatchEnqueue_loop ll e (m # ms) = BatchEnqueue_loop ll3 a ms"
    by (simp add: g(1) ll3_def Let_def)
  moreover have "Head ll3 = Head ll" "Tail ll3 = Tail ll" "Amount ll3 = Amount ll"
    by (simp_all add: ll3_def same)
  ultimately show ?case by (auto simp del: absOf_sel)
qed

lemma BatchEnqueue_models:
  assumes "models ll q"
  shows "\<exists>ll'. BatchEnqueue ll ms = Some ll' \<and> models ll' (aqBatchEnqueue q ms)"
proof (cases "ms = [] \<or> aqFull q")
  case True
  with assms show ?thesis
    by (auto simp: BatchEnqueue_def aqBatchEnqueue_def aqFull_def models_def Value_def
        split: list.splits)
next
  case False
  then obtain m ms' where ms: "ms = m # ms'" and full: "\<not> aqFull q" by (cases ms) auto
  from assms obtain xs U where sh: "shape ll xs U" and q: "q = absOf ll xs"
    and len: "int (length xs) \<le> ccount (Amount ll)" by (auto simp: models_def)
  let ?i = "mbId m" let ?v = "mbData m"
  obtain a ll1 where g: "getNode ll = (Some a, ll1)" "a \<notin> U"
    and sh2: "shape (filled ?i ?v a ll1) xs (insert a U)"
    and ab2: "absOf (filled ?i ?v a ll1) xs = absOf ll xs"
    and n2: "Next (mem (filled ?i ?v a ll1) a) = None"
      "entryOf (mem (filled ?i ?v a ll1) a) = newEntry ?i ?v"
    and same: "Head ll1 = Head ll" "Tail ll1 = Tail ll" "Amount ll1 = Amount ll"
    using getNode_filled[OF sh] by metis
  let ?ll2 = "filled ?i ?v a ll1"
  from sh g(2) have an: "a \<notin> set xs" "distinct xs" by (auto simp: shape_def)
  obtain ll3 seg e U' where l: "BatchEnqueue_loop ?ll2 a ms' = Some (ll3, e)"
    and sh3: "shape ll3 xs U'" "set (seg @ [e]) \<subseteq> U'" "distinct (xs @ seg @ [e])"
      "chain (mem ll3) (Some a) (seg @ [e]) None"
    and ab3: "absOf ll3 xs = absOf ?ll2 xs"
      "items (absOf ll3 (seg @ [e])) =
         items (absOf ?ll2 ([] @ [a])) @ map (\<lambda>m. newEntry (mbId m) (mbData m)) ms'"
    and len3: "length seg = length ms'" and same3: "Amount ll3 = Amount ?ll2"
    using BatchEnqueue_loop_shape[OF sh2, of "[]" a a ms'] an n2(1) by auto
  have E: "BatchEnqueue ll ms = attach a e (IncrementBy (Amount ll3) (int (length ms))) ll3"
    using full by (simp add: BatchEnqueue_def ms g(1) l q aqFull_def Value_def Let_def)
  have "\<exists>ll'. attach a e (IncrementBy (Amount ll3) (int (length ms))) ll3 = Some ll' \<and>
      models ll' ((absOf ll3 xs)\<lparr>items := items (absOf ll3 xs) @ items (absOf ll3 (seg @ [e])),
         amount := ccount (IncrementBy (Amount ll3) (int (length ms)))\<rparr>)"
    by (rule attach_models[OF sh3])
      (use len len3 same same3 ms in \<open>auto simp: IncrementBy_def\<close>)
  moreover have "(absOf ll3 xs)\<lparr>items := items (absOf ll3 xs) @ items (absOf ll3 (seg @ [e])),
         amount := ccount (IncrementBy (Amount ll3) (int (length ms)))\<rparr> = aqBatchEnqueue q ms"
    using full unfolding ab3 ab2 q
    by (simp add: aqBatchEnqueue_def ms n2(2) IncrementBy_def same3 same del: modNode_sel(9))
  ultimately show ?thesis unfolding E by simp
qed

end
