(* ===== verification/LinkedListFetch.thy ===== *)
theory LinkedListFetch
  imports LinkedListRefine
begin

text \<open>
  The methods of the linked list that walk the list and rewrite the payload of its nodes:
  \<open>Dequeue\<close> and \<open>UnlockAllFromConsumer\<close>.
\<close>

section \<open>Payload updates\<close>

text \<open>
  A walk that changes the payload of nodes on the list replaces the node memory by one with the
  same \<open>Next\<close> pointers and the same nodes off the list.
\<close>

definition withNodes :: "(addr \<Rightarrow> ListNode) \<Rightarrow> LinkedList \<Rightarrow> LinkedList" where
  "withNodes h ll = ll\<lparr>nmem := (nmem ll)\<lparr>nodes := h\<rparr>\<rparr>"

lemma withNodes_sel [simp]:
  "Head (withNodes h ll) = Head ll" "Tail (withNodes h ll) = Tail ll"
  "Amount (withNodes h ll) = Amount ll" "cap (withNodes h ll) = cap ll"
  "nodeTTL (withNodes h ll) = nodeTTL ll" "objPool (withNodes h ll) = objPool ll"
  "deadLetter (withNodes h ll) = deadLetter ll" "fetchLimit (withNodes h ll) = fetchLimit ll"
  "mem (withNodes h ll) = h" "top (nmem (withNodes h ll)) = top (nmem ll)"
  by (simp_all add: withNodes_def)

lemma withNodes_modNode [simp]: "withNodes h (modNode a f ll) = withNodes h ll"
  by (simp add: withNodes_def modNode_def)

lemma withNodes_mem [simp]: "withNodes (mem ll) ll = ll"
  by (simp add: withNodes_def)

text \<open>\<open>onlyPayload h h' xs\<close>: the memories agree on all \<open>Next\<close> pointers and on the nodes outside \<open>xs\<close>.\<close>

definition onlyPayload :: "(addr \<Rightarrow> ListNode) \<Rightarrow> (addr \<Rightarrow> ListNode) \<Rightarrow> addr set \<Rightarrow> bool" where
  "onlyPayload h h' X \<longleftrightarrow> (\<forall>a. Next (h' a) = Next (h a)) \<and> (\<forall>a. a \<notin> X \<longrightarrow> h' a = h a)"

lemma payload_refl [simp]: "onlyPayload h h X"
  by (simp add: onlyPayload_def)

lemma payload_mono: "onlyPayload h h' X \<Longrightarrow> X \<subseteq> Y \<Longrightarrow> onlyPayload h h' Y"
  by (auto simp: onlyPayload_def)

lemma payload_upd:
  "onlyPayload (h(a := n)) h' X \<Longrightarrow> Next n = Next (h a) \<Longrightarrow> onlyPayload h h' (insert a X)"
  by (auto simp: onlyPayload_def fun_upd_def split: if_splits)

lemma payload_shape:
  assumes "shape ll xs U" "onlyPayload (mem ll) h (set xs)"
  shows "shape (withNodes h ll) xs U"
proof -
  from assms have "chain h (Head ll) xs None"
    by (subst chain_cong[of _ _ "mem ll"]) (auto simp: shape_def onlyPayload_def)
  moreover have "\<forall>a\<in>set (pool (objPool ll)). a \<notin> set xs"
    using assms(1) by (auto simp: shape_def pool_inv_def)
  with assms have "pool_inv (objPool ll) (nmem (withNodes h ll)) U"
    by (auto simp: shape_def onlyPayload_def pool_inv_def withNodes_def)
  ultimately show ?thesis using assms(1) by (simp add: shape_def)
qed

lemma payload_models:
  assumes "shape ll xs U" "onlyPayload (mem ll) h (set xs)" "int (length xs) \<le> ccount (Amount ll)"
  shows "models (withNodes h ll) ((absOf ll xs)\<lparr>items := map (\<lambda>a. entryOf (h a)) xs\<rparr>)"
  by (rule modelsI[OF payload_shape[OF assms(1,2)]]) (use assms(3) in \<open>auto simp: absOf_def\<close>)

section \<open>Fetching\<close>

lemmas Dequeue_loop_simps [simp] =
  Dequeue_loop.simps[where current = None, unfolded option.case]
  Dequeue_loop.simps[where current = "Some a" for a, unfolded option.case]

lemmas UnlockAllFromConsumer_loop_simps [simp] =
  UnlockAllFromConsumer_loop.simps[where current = None, unfolded option.case]
  UnlockAllFromConsumer_loop.simps[where current = "Some a" for a, unfolded option.case]

lemma Dequeue_loop_grab:
  assumes "chain (mem ll) p xs None" "distinct xs"
  shows "\<exists>h. Dequeue_loop n consumer now ll data ids p =
      Some (data @ map evalue (fst (grab (entryFree (nodeTTL ll) consumer now)
               (lockEntry consumer now) (unat n - length data) (map (\<lambda>a. entryOf (mem ll a)) xs))),
            ids @ map eid (fst (grab (entryFree (nodeTTL ll) consumer now)
               (lockEntry consumer now) (unat n - length data) (map (\<lambda>a. entryOf (mem ll a)) xs))),
            withNodes h ll) \<and>
      onlyPayload (mem ll) h (set xs) \<and>
      map (\<lambda>a. entryOf (h a)) xs = snd (grab (entryFree (nodeTTL ll) consumer now)
        (lockEntry consumer now) (unat n - length data) (map (\<lambda>a. entryOf (mem ll a)) xs))"
  using assms
proof (induction xs arbitrary: ll p data ids)
  case Nil
  then show ?case
    by (intro exI[of _ "mem ll"]) simp
next
  case (Cons a xs)
  let ?w = "\<lambda>n. n\<lparr>ConsumerID := consumer, nodeTime := now\<rparr>"
  show ?case
  proof (cases "length data < unat n")
    case False
    then show ?thesis using Cons.prems
      by (intro exI[of _ "mem ll"]) simp
  next
    case True
    then obtain k where k: "unat n - length data = Suc k" by (metis Suc_diff_Suc)
    show ?thesis
    proof (cases "entryFree (nodeTTL ll) consumer now (entryOf (mem ll a))")
      case free: True
      let ?ll = "modNode a ?w ll"
      have k1: "unat n - length (data @ [Val (mem ll a)]) = k" using k by simp
      have same: "map (\<lambda>b. entryOf (mem ?ll b)) xs = map (\<lambda>b. entryOf (mem ll b)) xs"
        using Cons.prems by auto
      have ch: "chain (mem ?ll) (Next (mem ?ll a)) xs None" "distinct xs" using Cons.prems by auto
      have d: "Dequeue_loop n consumer now ll data ids p =
          Dequeue_loop n consumer now ?ll (data @ [Val (mem ll a)]) (ids @ [ID (mem ll a)])
            (Next (mem ?ll a))"
        using True free Cons.prems
        by (simp add: entryFree_def)
      obtain h where h: "Dequeue_loop n consumer now ?ll (data @ [Val (mem ll a)])
            (ids @ [ID (mem ll a)]) (Next (mem ?ll a)) =
        Some ((data @ [Val (mem ll a)]) @ map evalue (fst (grab (entryFree (nodeTTL ll) consumer now)
               (lockEntry consumer now) k (map (\<lambda>a. entryOf (mem ll a)) xs))),
            (ids @ [ID (mem ll a)]) @ map eid (fst (grab (entryFree (nodeTTL ll) consumer now)
               (lockEntry consumer now) k (map (\<lambda>a. entryOf (mem ll a)) xs))),
            withNodes h ll)"
        and pl: "onlyPayload (mem ?ll) h (set xs)"
        and r: "map (\<lambda>a. entryOf (h a)) xs = snd (grab (entryFree (nodeTTL ll) consumer now)
               (lockEntry consumer now) k (map (\<lambda>a. entryOf (mem ll a)) xs))"
        using Cons.IH[OF ch, of "data @ [Val (mem ll a)]" "ids @ [ID (mem ll a)]"]
        unfolding same k1 withNodes_modNode modNode_sel(5) by blast
      have "h a = ?w (mem ll a)" using pl Cons.prems(2) by (auto simp: onlyPayload_def)
      then have "entryOf (h a) = lockEntry consumer now (entryOf (mem ll a))"
        by (simp add: entryOf_def lockEntry_def)
      moreover have "onlyPayload (mem ll) h (set (a # xs))"
        using payload_upd[of "mem ll" a "?w (mem ll a)" h "set xs"] pl by simp
      ultimately show ?thesis
        using d h k free r by (intro exI[of _ h]) auto
    next
      case nfree: False
      have ch: "chain (mem ll) (Next (mem ll a)) xs None" "distinct xs" using Cons.prems by auto
      have d: "Dequeue_loop n consumer now ll data ids p =
          Dequeue_loop n consumer now ll data ids (Next (mem ll a))"
        using True nfree Cons.prems
        by (simp add: entryFree_def)
      show ?thesis
        using Cons.IH[OF ch, of data ids] nfree k d Cons.prems(2)
        by (auto simp: onlyPayload_def)
    qed
  qed
qed

lemma Dequeue_models:
  assumes "models ll q"
  shows "\<exists>ll'. Dequeue ll n consumer now =
      Some (map evalue (handedOut q n consumer now), map eid (handedOut q n consumer now), ll') \<and>
      models ll' (aqDequeue q n consumer now)"
proof -
  from assms obtain xs U where sh: "shape ll xs U" and q: "q = absOf ll xs"
    and len: "int (length xs) \<le> ccount (Amount ll)" by (auto simp: models_def)
  from sh have ch: "chain (mem ll) (Head ll) xs None" "distinct xs" by (auto simp: shape_def)
  show ?thesis
  proof (cases "Head ll = None")
    case True
    with ch have "xs = []" by (auto dest: chain_None_Nil)
    with assms True q show ?thesis
      by (auto simp: Dequeue_def handedOut_def aqDequeue_def absOf_def)
  next
    case False
    then have d: "Dequeue ll n consumer now = Dequeue_loop n consumer now ll [] [] (Head ll)"
      by (auto simp: Dequeue_def)
    obtain h where h: "Dequeue_loop n consumer now ll [] [] (Head ll) =
        Some (map evalue (handedOut q n consumer now), map eid (handedOut q n consumer now),
          withNodes h ll)"
      "onlyPayload (mem ll) h (set xs)"
      "map (\<lambda>a. entryOf (h a)) xs = items (aqDequeue q n consumer now)"
      using Dequeue_loop_grab[OF ch, of n consumer now "[]" "[]"] q
      by (auto simp: handedOut_def aqDequeue_def)
    from payload_models[OF sh h(2) len] have "models (withNodes h ll) (aqDequeue q n consumer now)"
      unfolding h(3) q by (simp add: aqDequeue_def)
    with h(1) d show ?thesis by auto
  qed
qed

lemma UnlockAll_loop_map:
  assumes "chain (mem ll) p xs None" "distinct xs"
  shows "\<exists>h. UnlockAllFromConsumer_loop consumer ll p = Some (withNodes h ll) \<and>
      onlyPayload (mem ll) h (set xs) \<and>
      map (\<lambda>a. entryOf (h a)) xs =
        map (\<lambda>e. if eowner e = consumer then e\<lparr>eowner := NO_CONSUMER\<rparr> else e)
          (map (\<lambda>a. entryOf (mem ll a)) xs)"
  using assms
proof (induction xs arbitrary: ll p)
  case Nil
  then show ?case
    by (intro exI[of _ "mem ll"]) simp
next
  case (Cons a xs)
  let ?w = "\<lambda>n. n\<lparr>ConsumerID := NO_CONSUMER\<rparr>"
  show ?case
  proof (cases "ConsumerID (mem ll a) = consumer")
    case True
    let ?ll = "modNode a ?w ll"
    have ch: "chain (mem ?ll) (Next (mem ?ll a)) xs None" "distinct xs" using Cons.prems by auto
    have same: "map (\<lambda>b. entryOf (mem ?ll b)) xs = map (\<lambda>b. entryOf (mem ll b)) xs"
      using Cons.prems by auto
    obtain h where h: "UnlockAllFromConsumer_loop consumer ?ll (Next (mem ?ll a)) = Some (withNodes h ll)"
      and pl: "onlyPayload (mem ?ll) h (set xs)"
      and r: "map (\<lambda>a. entryOf (h a)) xs =
        map (\<lambda>e. if eowner e = consumer then e\<lparr>eowner := NO_CONSUMER\<rparr> else e)
          (map (\<lambda>a. entryOf (mem ll a)) xs)"
      using Cons.IH[OF ch] unfolding same withNodes_modNode by blast
    have "h a = ?w (mem ll a)" using pl Cons.prems(2) by (auto simp: onlyPayload_def)
    then have "entryOf (h a) = (entryOf (mem ll a))\<lparr>eowner := NO_CONSUMER\<rparr>"
      by (simp add: entryOf_def)
    moreover have "onlyPayload (mem ll) h (set (a # xs))"
      using payload_upd[of "mem ll" a "?w (mem ll a)" h "set xs"] pl by simp
    ultimately show ?thesis using h r True Cons.prems
      by (intro exI[of _ h]) simp
  next
    case False
    have ch: "chain (mem ll) (Next (mem ll a)) xs None" "distinct xs" using Cons.prems by auto
    have d: "UnlockAllFromConsumer_loop consumer ll p =
        UnlockAllFromConsumer_loop consumer ll (Next (mem ll a))"
      using False Cons.prems by simp
    show ?thesis using Cons.IH[OF ch] d False Cons.prems(2) by (auto simp: onlyPayload_def)
  qed
qed

lemma UnlockAllFromConsumer_models:
  assumes "models ll q"
  shows "\<exists>ll'. UnlockAllFromConsumer ll consumer = Some ll' \<and> models ll' (aqUnlockAll q consumer)"
proof -
  from assms obtain xs U where sh: "shape ll xs U" and q: "q = absOf ll xs"
    and len: "int (length xs) \<le> ccount (Amount ll)" by (auto simp: models_def)
  from sh have ch: "chain (mem ll) (Head ll) xs None" "distinct xs" by (auto simp: shape_def)
  obtain h where h: "UnlockAllFromConsumer_loop consumer ll (Head ll) = Some (withNodes h ll)"
    "onlyPayload (mem ll) h (set xs)" "map (\<lambda>a. entryOf (h a)) xs = items (aqUnlockAll q consumer)"
    using UnlockAll_loop_map[OF ch, of consumer] q by (auto simp: aqUnlockAll_def)
  from payload_models[OF sh h(2) len] have "models (withNodes h ll) (aqUnlockAll q consumer)"
    unfolding h(3) q by (simp add: aqUnlockAll_def)
  with h(1) show ?thesis by (auto simp: UnlockAllFromConsumer_def)
qed

end
