(* ===== verification/LinkedListRemove.thy ===== *)
theory LinkedListRemove
  imports LinkedListRefine
begin

text \<open>
  The methods of the linked list that take nodes out: \<open>UnlockAndEmpty\<close> (an acknowledgement),
  \<open>Unlock\<close> (a negative acknowledgement, with the dead letter queue) and \<open>UnlockAndEmptyBatch\<close> when
  every identifier is found.
\<close>

section \<open>Unlinking a node\<close>

lemma unlink_head:
  "shape ll (a # zs) U \<Longrightarrow> zs \<noteq> [] \<Longrightarrow> shape (ll\<lparr>Head := Next (mem ll a)\<rparr>) zs U"
  by (auto simp: shape_def)

lemma unlink_only:
  "shape ll [a] U \<Longrightarrow> shape (ll\<lparr>Head := None, Tail := t\<rparr>) [] U"
  by (auto simp: shape_def)

lemma unlink_only_stale:
  "shape ll [a] U \<Longrightarrow> shape (ll\<lparr>Head := None\<rparr>) [] U"
  by (auto simp: shape_def)

lemma unlink_last:
  "shape ll ((ys @ [p]) @ [a]) U \<Longrightarrow>
   shape (modNode p (\<lambda>n. n\<lparr>Next := None\<rparr>) (ll\<lparr>Tail := Some p\<rparr>)) (ys @ [p]) U"
  by (auto simp: shape_def)

lemma unlink_middle:
  "shape ll ((ys @ [p]) @ a # zs) U \<Longrightarrow> zs \<noteq> [] \<Longrightarrow>
   shape (modNode p (\<lambda>n. n\<lparr>Next := Next (mem ll a)\<rparr>) ll) ((ys @ [p]) @ zs) U"
  by (auto simp: shape_def)

lemmas unlink_shapes = unlink_head unlink_only unlink_last unlink_middle

lemma absOf_frame [simp]:
  "absOf (ll\<lparr>Head := p\<rparr>) xs = absOf ll xs" "absOf (ll\<lparr>Tail := p\<rparr>) xs = absOf ll xs"
  by (simp_all add: absOf_def)

lemma absOf_Next [simp]:
  "absOf (modNode a (\<lambda>n. n\<lparr>Next := p\<rparr>) ll) xs = absOf ll xs"
  by (rule absOf_modNode_entry) simp

text \<open>Where the last node of the list is, and where the first one is.\<close>

lemma shape_Tail_iff:
  "shape ll (ys @ a # zs) U \<Longrightarrow> Tail ll = Some a \<longleftrightarrow> zs = []"
  by (cases zs rule: rev_cases) (auto simp: shape_def)

lemma shape_Head_iff:
  "shape ll (ys @ a # zs) U \<Longrightarrow> Head ll = Some a \<longleftrightarrow> ys = []"
  by (cases ys) (auto simp: shape_def)

lemma shape_mem: "shape ll (ys @ a # zs) U \<Longrightarrow> a \<in> U \<and> a \<notin> set (ys @ zs)"
  by (auto simp: shape_def)

lemma shape_Next:
  "shape ll ((ys @ [p]) @ zs) U \<Longrightarrow> Next (mem ll p) = (case zs of [] \<Rightarrow> None | z # _ \<Rightarrow> Some z)"
  by (cases zs) (auto simp: shape_def)

lemma shape_Head:
  "shape ll zs U \<Longrightarrow> Head ll = (case zs of [] \<Rightarrow> None | z # _ \<Rightarrow> Some z)"
  by (cases zs) (auto simp: shape_def)

text \<open>The end of every removal: the node goes back to the pool and the count goes down.\<close>

lemma release_models:
  assumes "shape ll xs U" "a \<in> U" "a \<notin> set xs" "int (length xs) + 1 \<le> ccount (Amount ll)"
  shows "\<exists>ll'. releaseNode (Some a) ll = Some ll' \<and>
           models (decAmount ll') ((absOf ll xs)\<lparr>amount := amount (absOf ll xs) - 1\<rparr>)"
proof -
  obtain ll' where r: "releaseNode (Some a) ll = Some ll'" and s: "shape ll' xs (U - {a})"
    and ab: "absOf ll' xs = absOf ll xs" and am: "Amount ll' = Amount ll"
    using releaseNode_shape[OF assms(1-3)] by metis
  have "models (decAmount ll') ((absOf ll xs)\<lparr>amount := amount (absOf ll xs) - 1\<rparr>)"
  proof (rule modelsI)
    show "shape (decAmount ll') xs (U - {a})" using s by (simp add: shape_def)
  qed (use ab am assms(4) in \<open>simp_all\<close>)
  with r show ?thesis by blast
qed

section \<open>Acknowledgement\<close>

lemmas unlockAndEmpty_loop_simps [simp] =
  unlockAndEmpty_loop.simps[where current = None, unfolded option.case]
  unlockAndEmpty_loop.simps[where current = "Some a" for a, unfolded option.case]

lemma unlockAndEmpty_hit:
  assumes "shape ll ((ys @ [p]) @ a # zs) U"
    and "heldAs c i (entryOf (mem ll a))"
    and "int (length ((ys @ [p]) @ a # zs)) \<le> ccount (Amount ll)"
  shows "\<exists>ll'. unlockAndEmpty_loop ll c i (Some p) (Some a) = Some (None, ll') \<and>
      models ll' ((absOf ll ((ys @ [p]) @ zs))\<lparr>amount := ccount (Amount ll) - 1\<rparr>)"
proof (cases "zs = []")
  case True
  let ?ll = "modNode p (\<lambda>n. n\<lparr>Next := None\<rparr>) (ll\<lparr>Tail := Some p\<rparr>)"
  have "shape ?ll ((ys @ [p]) @ zs) U" using unlink_last[of ll ys p a U] assms(1) True by simp
  from release_models[OF this, of a] shape_mem[OF assms(1)] assms(3)
  obtain ll' where "releaseNode (Some a) ?ll = Some ll'"
    "models (decAmount ll') ((absOf ll ((ys @ [p]) @ zs))\<lparr>amount := ccount (Amount ll) - 1\<rparr>)"
    by auto
  with assms(2) shape_Tail_iff[OF assms(1)] True show ?thesis
    by (auto simp: heldAs_def Let_def)
next
  case False
  let ?ll = "modNode p (\<lambda>n. n\<lparr>Next := Next (mem ll a)\<rparr>) ll"
  have "shape ?ll ((ys @ [p]) @ zs) U" by (rule unlink_middle[OF assms(1) False])
  from release_models[OF this, of a] shape_mem[OF assms(1)] assms(3)
  obtain ll' where "releaseNode (Some a) ?ll = Some ll'"
    "models (decAmount ll') ((absOf ll ((ys @ [p]) @ zs))\<lparr>amount := ccount (Amount ll) - 1\<rparr>)"
    by auto
  with assms(2) shape_Tail_iff[OF assms(1)] False show ?thesis
    by (auto simp: heldAs_def Let_def)
qed

lemma unlockAndEmpty_loop_models:
  assumes "shape ll ((ys @ [p]) @ zs) U"
    and "int (length ((ys @ [p]) @ zs)) \<le> ccount (Amount ll)"
    and "\<forall>b\<in>set (ys @ [p]). \<not> heldAs c i (entryOf (mem ll b))"
  shows "\<exists>ll'. unlockAndEmpty_loop ll c i (Some p) (Next (mem ll p)) =
        Some (fst (aqAck (absOf ll ((ys @ [p]) @ zs)) c i), ll') \<and>
      models ll' (snd (aqAck (absOf ll ((ys @ [p]) @ zs)) c i))"
  using assms
proof (induction zs arbitrary: ys p)
  case Nil
  then have "aqAck (absOf ll ((ys @ [p]) @ [])) c i =
      (Some (CouldNotFindItem i), absOf ll ((ys @ [p]) @ []))"
    by (auto simp: aqAck_def)
  with Nil shape_Next[OF Nil.prems(1)] modelsI[OF Nil.prems(1)] show ?case by simp
next
  case (Cons a zs)
  have nx: "Next (mem ll p) = Some a" using shape_Next[OF Cons.prems(1)] by simp
  show ?case
  proof (cases "heldAs c i (entryOf (mem ll a))")
    case True
    have "removeFirst (heldAs c i) (items (absOf ll ((ys @ [p]) @ a # zs))) =
        items (absOf ll ((ys @ [p]) @ zs))"
      using removeFirst_split[of "items (absOf ll (ys @ [p]))" "heldAs c i" "entryOf (mem ll a)"
          "items (absOf ll zs)"] Cons.prems(3) True by simp
    then have "aqAck (absOf ll ((ys @ [p]) @ a # zs)) c i =
        (None, (absOf ll ((ys @ [p]) @ zs))\<lparr>amount := ccount (Amount ll) - 1\<rparr>)"
      using True by (simp add: absOf_def aqAck_def)
    with unlockAndEmpty_hit[OF Cons.prems(1) True Cons.prems(2)] show ?thesis
      unfolding nx by (simp del: unlockAndEmpty_loop_simps)
  next
    case False
    then have st: "unlockAndEmpty_loop ll c i (Some p) (Next (mem ll p)) =
        unlockAndEmpty_loop ll c i (Some a) (Next (mem ll a))"
      using nx by (auto simp: heldAs_def)
    have "shape ll (((ys @ [p]) @ [a]) @ zs) U" using Cons.prems(1) by simp
    from Cons.IH[OF this] Cons.prems(2,3) False show ?thesis unfolding st by simp
  qed
qed

lemma unlockAndEmpty_head_models:
  assumes sh: "shape ll (a # zs) U" and len: "int (length (a # zs)) \<le> ccount (Amount ll)"
    and held: "heldAs c i (entryOf (mem ll a))"
  shows "\<exists>ll'. unlockAndEmpty ll c i = Some (None, ll') \<and>
      models ll' ((absOf ll zs)\<lparr>amount := ccount (Amount ll) - 1\<rparr>)"
proof (cases "zs = []")
  case True
  then have "shape (ll\<lparr>Head := None, Tail := None\<rparr>) zs U" using sh by (auto intro: unlink_only)
  from release_models[OF this, of a] shape_mem[of ll "[]" a zs U] sh len
  obtain ll' where r: "releaseNode (Some a) (ll\<lparr>Head := None, Tail := None\<rparr>) = Some ll'"
    and m: "models (decAmount ll') ((absOf ll zs)\<lparr>amount := ccount (Amount ll) - 1\<rparr>)"
    by auto
  obtain ll1 where "releaseNode (Some a) ll = Some ll1"
    "decAmount (ll1\<lparr>Head := None, Tail := None\<rparr>) = decAmount ll'"
    using r by (auto simp: releaseNode_def bind_Some_iff decAmount_def split: prod.splits)
  moreover have "Tail ll = Some a" "Head ll = Some a"
    using shape_Tail_iff[of ll "[]" a zs U] shape_Head[OF sh] sh True by auto
  ultimately show ?thesis using held m by (simp add: unlockAndEmpty_def heldAs_def)
next
  case False
  from release_models[OF unlink_head[OF sh False], of a] shape_mem[of ll "[]" a zs U] sh len
  obtain ll' where "releaseNode (Some a) (ll\<lparr>Head := Next (mem ll a)\<rparr>) = Some ll'"
    "models (decAmount ll') ((absOf ll zs)\<lparr>amount := ccount (Amount ll) - 1\<rparr>)"
    by auto
  moreover have "Tail ll \<noteq> Some a" "Head ll = Some a"
    using shape_Tail_iff[of ll "[]" a zs U] shape_Head[OF sh] sh False by auto
  ultimately show ?thesis using held by (simp add: unlockAndEmpty_def heldAs_def)
qed

lemma UnlockAndEmpty_models:
  assumes "models ll q"
  shows "\<exists>ll'. UnlockAndEmpty ll c i = Some (fst (aqAck q c i), ll') \<and> models ll' (snd (aqAck q c i))"
proof -
  from assms obtain xs U where sh: "shape ll xs U" and q: "q = absOf ll xs"
    and len: "int (length xs) \<le> ccount (Amount ll)" by (auto simp: models_def)
  show ?thesis
  proof (cases xs)
    case Nil
    with assms sh q show ?thesis
      by (auto simp: UnlockAndEmpty_def aqAck_def dest: shape_Nil_iff)
  next
    case (Cons a zs)
    have hd: "Head ll = Some a" using shape_Head[OF sh] Cons by simp
    show ?thesis
    proof (cases "heldAs c i (entryOf (mem ll a))")
      case True
      obtain ll' where "unlockAndEmpty ll c i = Some (None, ll')"
        and m: "models ll' ((absOf ll zs)\<lparr>amount := ccount (Amount ll) - 1\<rparr>)"
        using unlockAndEmpty_head_models[of ll a zs U c i] sh len Cons True by auto
      then have "UnlockAndEmpty ll c i = Some (None, ll')" using hd by (simp add: UnlockAndEmpty_def)
      moreover have "aqAck q c i = (None, (absOf ll zs)\<lparr>amount := ccount (Amount ll) - 1\<rparr>)"
        using True q Cons by (simp add: aqAck_def absOf_def)
      ultimately show ?thesis using m by auto
    next
      case False
      have "shape ll (([] @ [a]) @ zs) U" using sh Cons by simp
      from unlockAndEmpty_loop_models[OF this, of c i] len Cons False
      have "\<exists>ll'. unlockAndEmpty_loop ll c i (Some a) (Next (mem ll a)) =
          Some (fst (aqAck q c i), ll') \<and> models ll' (snd (aqAck q c i))"
        using q by simp
      moreover have "UnlockAndEmpty ll c i = unlockAndEmpty_loop ll c i (Some a) (Next (mem ll a))"
        using hd False by (auto simp: UnlockAndEmpty_def unlockAndEmpty_def heldAs_def)
      ultimately show ?thesis by simp
    qed
  qed
qed

section \<open>Negative acknowledgement\<close>

lemmas Unlock_loop_simps [simp] =
  Unlock_loop.simps[where current = None, unfolded option.case]
  Unlock_loop.simps[where current = "Some a" for a, unfolded option.case]

text \<open>The pointer to the node before the current one, as the loop of \<open>Unlock\<close> keeps it.\<close>

definition before :: "addr list \<Rightarrow> ptr" where
  "before ys = (if ys = [] then None else Some (last ys))"

lemma before_simps [simp]: "before [] = None" "before (ys @ [y]) = Some y"
  by (simp_all add: before_def)

lemma expireNode_shape:
  assumes sh: "shape ll (ys @ a # zs) U"
  shows "\<exists>ll'. expireNode ll (before ys) a = Some ll' \<and> shape ll' (ys @ zs) U \<and>
           absOf ll' (ys @ zs) = absOf ll (ys @ zs) \<and> Amount ll' = Amount ll"
proof (cases ys rule: rev_cases)
  case Nil
  with sh shape_Tail_iff[OF sh] shape_Head_iff[OF sh] show ?thesis
    by (cases "zs = []") (auto simp: expireNode_def intro: unlink_only unlink_head)
next
  case (snoc ys' p)
  have nh: "Head ll \<noteq> Some a" using shape_Head_iff[OF sh] snoc by simp
  show ?thesis
  proof (cases "zs = []")
    case True
    then have "shape (modNode p (\<lambda>n. n\<lparr>Next := None\<rparr>) (ll\<lparr>Tail := Some p\<rparr>)) (ys @ zs) U"
      using sh snoc by (auto intro: unlink_last)
    moreover have "Tail ll = Some a" using shape_Tail_iff[OF sh] True by simp
    ultimately show ?thesis using nh snoc by (auto simp: expireNode_def)
  next
    case False
    then have "shape (modNode p (\<lambda>n. n\<lparr>Next := Next (mem ll a)\<rparr>) ll) (ys @ zs) U"
      using sh snoc unlink_middle[of ll ys' p a zs U] by simp
    moreover have "Tail ll \<noteq> Some a" using shape_Tail_iff[OF sh] False by simp
    ultimately show ?thesis using nh snoc by (auto simp: expireNode_def)
  qed
qed

text \<open>Sending to the dead letter queue simulates an insertion there, or panics.\<close>

lemma sendDeadLetter_models:
  assumes "rel_option models dl qdl"
  shows "rel_option (rel_option models) (sendDeadLetter ll dl a)
           (aqDeadLetter (deadLetter ll) qdl (ID (mem ll a)) (Val (mem ll a)))"
proof (cases "deadLetter ll")
  case (PtrQueue x)
  show ?thesis
  proof (cases dl)
    case None
    with assms PtrQueue show ?thesis by (simp add: sendDeadLetter_def aqDeadLetter_def)
  next
    case (Some d)
    with assms obtain qd where "qdl = Some qd" "models d qd" by (auto simp: rel_option_Some_left)
    with Enqueue_models[of d qd "ID (mem ll a)" "Val (mem ll a)"] Some PtrQueue show ?thesis
      by (auto simp: sendDeadLetter_def aqDeadLetter_def)
  qed
qed (use assms in \<open>auto simp: sendDeadLetter_def aqDeadLetter_def\<close>)

lemma unlockNode_expire:
  assumes sh: "shape ll (ys @ a # zs) U" and len: "int (length (ys @ a # zs)) \<le> ccount (Amount ll)"
    and dl: "rel_option models dl qdl" and lim: "fetchLimit ll \<le> fetched (mem ll a) + 1"
  shows "rel_option (rel_prod models (rel_option models)) (unlockNode ll dl (before ys) a)
     (do { d' \<leftarrow> aqDeadLetter (deadLetter ll) qdl (ID (mem ll a)) (Val (mem ll a));
           Some ((absOf ll (ys @ zs))\<lparr>amount := ccount (Amount ll) - 1\<rparr>, d') })"
proof -
  let ?ll = "modNode a (\<lambda>n. n\<lparr>ConsumerID := NO_CONSUMER, fetched := fetched n + 1\<rparr>) ll"
  from shape_mem[OF sh] have a: "a \<in> U" "a \<notin> set (ys @ zs)" by auto
  have sh1: "shape ?ll (ys @ a # zs) U" by (rule modNode_shape[OF sh]) (use a in auto)
  obtain ll2 where e2: "expireNode ?ll (before ys) a = Some ll2" and sh2: "shape ll2 (ys @ zs) U"
    and ab2: "absOf ll2 (ys @ zs) = absOf ?ll (ys @ zs)" and am2: "Amount ll2 = Amount ?ll"
    using expireNode_shape[OF sh1] by blast
  have ab: "absOf ?ll (ys @ zs) = absOf ll (ys @ zs)" using a by simp
  obtain ll3 where r3: "releaseNode (Some a) ll2 = Some ll3"
    and m3: "models (decAmount ll3) ((absOf ll (ys @ zs))\<lparr>amount := ccount (Amount ll) - 1\<rparr>)"
    using release_models[OF sh2 a] len unfolding ab2 ab am2 by auto
  have u: "unlockNode ll dl (before ys) a =
      do { dl1 \<leftarrow> sendDeadLetter ?ll dl a; Some (decAmount ll3, dl1) }"
    using lim by (simp add: unlockNode_def handleThresholdExpire_def e2 r3 Let_def)
  have "rel_option (rel_option models) (sendDeadLetter ?ll dl a)
      (aqDeadLetter (deadLetter ll) qdl (ID (mem ll a)) (Val (mem ll a)))"
    using sendDeadLetter_models[OF dl, of ?ll a] by simp
  then show ?thesis unfolding u by (rule rel_option_bind) (use m3 in simp)
qed

lemma unlockNode_keep:
  assumes sh: "shape ll (ys @ a # zs) U" and len: "int (length (ys @ a # zs)) \<le> ccount (Amount ll)"
    and lim: "\<not> fetchLimit ll \<le> fetched (mem ll a) + 1"
  shows "\<exists>ll'. unlockNode ll dl prev a = Some (ll', dl) \<and>
     models ll' ((absOf ll (ys @ a # zs))\<lparr>items := items (absOf ll ys) @
        releaseEntry (entryOf (mem ll a)) # items (absOf ll zs)\<rparr>)"
proof -
  let ?ll = "modNode a (\<lambda>n. n\<lparr>ConsumerID := NO_CONSUMER, fetched := fetched n + 1\<rparr>) ll"
  from shape_mem[OF sh] have a: "a \<in> U" "a \<notin> set (ys @ zs)" by auto
  have "models ?ll ((absOf ll (ys @ a # zs))\<lparr>items := items (absOf ll ys) @
        releaseEntry (entryOf (mem ll a)) # items (absOf ll zs)\<rparr>)"
  proof (rule modelsI)
    show "shape ?ll (ys @ a # zs) U" by (rule modNode_shape[OF sh]) (use a in auto)
  qed (use a len in \<open>auto simp: absOf_def releaseEntry_def entryOf_def\<close>)
  then show ?thesis using lim by (auto simp: unlockNode_def Let_def)
qed

text \<open>\<open>Unlock\<close> simulates \<open>aqNack\<close>, the branch that panics included.\<close>

lemma Unlock_hit:
  assumes sh: "shape ll (ys @ a # zs) U" and len: "int (length (ys @ a # zs)) \<le> ccount (Amount ll)"
    and dl: "rel_option models dl qdl" and no: "\<forall>b\<in>set ys. ID (mem ll b) \<noteq> ID (mem ll a)"
  shows "rel_option (rel_prod (=) (rel_prod models (rel_option models)))
     (do { (ll', dl') \<leftarrow> unlockNode ll dl (before ys) a; Some (True, ll', dl') })
     (aqNack (absOf ll (ys @ a # zs)) qdl (ConsumerID (mem ll a)) (ID (mem ll a)))"
proof -
  let ?P = "\<lambda>e. eid e = ID (mem ll a)" let ?e = "entryOf (mem ll a)"
  have its: "items (absOf ll (ys @ a # zs)) = items (absOf ll ys) @ ?e # items (absOf ll zs)"
    by simp
  have no': "\<forall>y\<in>set (items (absOf ll ys)). \<not> ?P y" "?P ?e" using no by auto
  have f: "find ?P (items (absOf ll (ys @ a # zs))) = Some ?e"
    unfolding its by (rule find_split[OF no'])
  show ?thesis
  proof (cases "fetchLimit ll \<le> fetched (mem ll a) + 1")
    case True
    have rm: "removeFirst ?P (items (absOf ll (ys @ a # zs))) = items (absOf ll (ys @ zs))"
      unfolding its removeFirst_split[OF no'] by simp
    have ab: "(absOf ll (ys @ a # zs))\<lparr>items := items (absOf ll (ys @ zs)), amount := k\<rparr> =
        (absOf ll (ys @ zs))\<lparr>amount := k\<rparr>" for k by (simp add: absOf_def)
    from f True rm have s: "aqNack (absOf ll (ys @ a # zs)) qdl (ConsumerID (mem ll a)) (ID (mem ll a)) =
        do { r \<leftarrow> (do { d' \<leftarrow> aqDeadLetter (deadLetter ll) qdl (ID (mem ll a)) (Val (mem ll a));
             Some ((absOf ll (ys @ zs))\<lparr>amount := ccount (Amount ll) - 1\<rparr>, d') });
             case r of (q', d') \<Rightarrow> Some (True, q', d') }"
      by (simp add: aqNack_def ab del: absOf_sel(1))
    show ?thesis unfolding s
      by (rule rel_option_bind[OF unlockNode_expire[OF sh len dl True]]) auto
  next
    case False
    from unlockNode_keep[OF sh len False] obtain ll' where
      "unlockNode ll dl (before ys) a = Some (ll', dl)"
      "models ll' ((absOf ll (ys @ a # zs))\<lparr>items := items (absOf ll ys) @
        releaseEntry ?e # items (absOf ll zs)\<rparr>)" by blast
    moreover have "updateFirst ?P releaseEntry (items (absOf ll (ys @ a # zs))) =
        items (absOf ll ys) @ releaseEntry ?e # items (absOf ll zs)"
      unfolding its by (rule updateFirst_split[OF no'])
    ultimately show ?thesis using f False dl
      by (simp add: aqNack_def del: absOf_sel(1))
  qed
qed

lemma Unlock_loop_models:
  assumes sh: "shape ll (ys @ zs) U" and len: "int (length (ys @ zs)) \<le> ccount (Amount ll)"
    and dl: "rel_option models dl qdl" and no: "\<forall>b\<in>set ys. ID (mem ll b) \<noteq> i"
  shows "rel_option (rel_prod (=) (rel_prod models (rel_option models)))
     (Unlock_loop ll dl c i (before ys) (case zs of [] \<Rightarrow> None | z # _ \<Rightarrow> Some z))
     (aqNack (absOf ll (ys @ zs)) qdl c i)"
  using assms
proof (induction zs arbitrary: ys)
  case Nil
  then have "find (\<lambda>e. eid e = i) (items (absOf ll (ys @ []))) = None"
    by (auto simp: find_None_iff)
  with Nil modelsI[OF Nil.prems(1)] show ?case by (simp add: aqNack_def)
next
  case (Cons a zs)
  show ?case
  proof (cases "ID (mem ll a) = i")
    case True
    show ?thesis
    proof (cases "ConsumerID (mem ll a) = c")
      case held: True
      with Unlock_hit[OF Cons.prems(1-3)] Cons.prems(4) True show ?thesis by simp
    next
      case False
      have "find (\<lambda>e. eid e = i) (items (absOf ll (ys @ a # zs))) = Some (entryOf (mem ll a))"
        using find_split[of "items (absOf ll ys)" "\<lambda>e. eid e = i" "entryOf (mem ll a)"
            "items (absOf ll zs)"] Cons.prems(4) True by simp
      with False True Cons.prems(3) modelsI[OF Cons.prems(1) refl Cons.prems(2)] show ?thesis
        by (simp add: aqNack_def)
    qed
  next
    case False
    have "shape ll ((ys @ [a]) @ zs) U" using Cons.prems(1) by simp
    from Cons.IH[OF this _ Cons.prems(3)] Cons.prems(2,4) False
    have "rel_option (rel_prod (=) (rel_prod models (rel_option models)))
       (Unlock_loop ll dl c i (Some a) (case zs of [] \<Rightarrow> None | z # _ \<Rightarrow> Some z))
       (aqNack (absOf ll (ys @ a # zs)) qdl c i)" by auto
    moreover have "Next (mem ll a) = (case zs of [] \<Rightarrow> None | z # _ \<Rightarrow> Some z)"
      using shape_Next[of ll ys a zs U] Cons.prems(1) by simp
    ultimately show ?thesis using False by simp
  qed
qed

lemma Unlock_models:
  assumes "models ll q" "rel_option models dl qdl"
  shows "rel_option (rel_prod (=) (rel_prod models (rel_option models)))
           (Unlock ll dl c i) (aqNack q qdl c i)"
proof -
  from assms(1) obtain xs U where sh: "shape ll xs U" and q: "q = absOf ll xs"
    and len: "int (length xs) \<le> ccount (Amount ll)" by (auto simp: models_def)
  from Unlock_loop_models[of ll "[]" xs U dl qdl i c] sh len assms(2) shape_Head[OF sh] q
  show ?thesis by (simp add: Unlock_def)
qed

end
