(* ===== verification/LinkedListBatchAck.thy ===== *)
theory LinkedListBatchAck
  imports LinkedListRemove
begin

text \<open>
  \<open>UnlockAndEmptyBatch\<close>: its unlinking loop takes out the first matching nodes, as many as there are
  identifiers. When that many are found the method succeeds and simulates \<open>aqBatchAck\<close>; when none is
  found it fails and leaves the queue as it was.
\<close>

section \<open>The unlinking loop\<close>

lemmas UnlockAndEmptyBatch_loop_simps =
  UnlockAndEmptyBatch_loop.simps[where current = None, unfolded option.case]
  UnlockAndEmptyBatch_loop.simps[where current = "Some a" for a, unfolded option.case(2)]

lemma byteSliceExists_iff [simp]: "byteSliceExists ids i \<longleftrightarrow> i \<in> set ids"
  by (auto simp: byteSliceExists_def list_ex_iff)

lemma ackable_entryOf:
  "ackable c ids (entryOf n) \<longleftrightarrow> ConsumerID n = c \<and> ID n \<in> set ids"
  by (simp add: ackable_def)

abbreviation ptrTo :: "addr list \<Rightarrow> ptr" where
  "ptrTo zs \<equiv> (case zs of [] \<Rightarrow> None | z # _ \<Rightarrow> Some z)"

text \<open>What the loop leaves: the list without the nodes it took out, the same payload elsewhere.\<close>

definition taken ::
    "LinkedList \<Rightarrow> LinkedList \<Rightarrow> addr list \<Rightarrow> addr set \<Rightarrow> bool" where
  "taken ll ll' xs U \<longleftrightarrow> shape ll' xs U \<and> Amount ll' = Amount ll \<and> absOf ll' xs = absOf ll xs"

lemma taken_trans:
  assumes "taken ll1 ll2 xs U" "absOf ll1 xs = absOf ll xs" "Amount ll1 = Amount ll"
  shows "taken ll ll2 xs U"
  using assms by (simp add: taken_def)

lemma batch_loop_last:
  assumes sh: "shape ll (ys @ [a]) U" and m: "length ns < length ids"
    and P: "ConsumerID (mem ll a) = c" "ID (mem ll a) \<in> set ids"
  shows "\<exists>ll'. UnlockAndEmptyBatch_loop c ids ll ns (before ys) (Some a) = Some (ll', ns @ [a], Some a) \<and>
    taken ll ll' ys U"
proof (cases ys rule: rev_cases)
  case Nil
  with sh have "Tail ll = Some a" "Head ll = Some a"
    using shape_Tail_iff[of ll ys a "[]" U] shape_Head_iff[of ll ys a "[]" U] by auto
  with Nil m P sh show ?thesis
    by (subst UnlockAndEmptyBatch_loop_simps) (auto simp: taken_def intro: unlink_only)
next
  case (snoc ys' p)
  with sh have "Tail ll = Some a" "Head ll \<noteq> Some a"
    using shape_Tail_iff[of ll ys a "[]" U] shape_Head_iff[of ll ys a "[]" U] by auto
  with snoc m P unlink_last[of ll ys' p a U] sh show ?thesis
    by (subst UnlockAndEmptyBatch_loop_simps) (auto simp: taken_def)
qed

text \<open>One step at a matching node that is not the last one: the node is unlinked.\<close>

lemma batch_loop_step:
  assumes sh: "shape ll (ys @ a # zs) U" and z: "zs \<noteq> []" and m: "length ns < length ids"
    and P: "ConsumerID (mem ll a) = c" "ID (mem ll a) \<in> set ids"
  shows "\<exists>ll'. UnlockAndEmptyBatch_loop c ids ll ns (before ys) (Some a) =
      UnlockAndEmptyBatch_loop c ids ll' (ns @ [a]) (before ys) (ptrTo zs) \<and>
    shape ll' (ys @ zs) U \<and> Amount ll' = Amount ll \<and> (\<forall>xs. absOf ll' xs = absOf ll xs)"
proof (cases ys rule: rev_cases)
  case Nil
  with sh have "Head ll = Some a" "Tail ll \<noteq> Some a" "Next (mem ll a) = ptrTo zs"
    using shape_Tail_iff[OF sh] shape_Head_iff[OF sh] z shape_Next[of ll "[]" a zs U] by auto
  moreover have "shape (ll\<lparr>Head := Next (mem ll a)\<rparr>) (ys @ zs) U"
    using sh Nil z by (auto intro: unlink_head)
  ultimately show ?thesis using Nil m P
    by (intro exI[of _ "ll\<lparr>Head := Next (mem ll a)\<rparr>"], subst UnlockAndEmptyBatch_loop_simps(2)) simp
next
  case (snoc ys' p)
  let ?ll = "modNode p (\<lambda>n. n\<lparr>Next := Next (mem ll a)\<rparr>) ll"
  have "Tail ll \<noteq> Some a" using shape_Tail_iff[OF sh] z by simp
  moreover have "p \<noteq> a" using shape_mem[OF sh] snoc by auto
  moreover have "Next (mem ll a) = ptrTo zs" using shape_Next[of ll ys a zs U] sh by simp
  moreover have "shape ?ll (ys @ zs) U"
    using unlink_middle[of ll ys' p a zs U] sh snoc z by simp
  ultimately show ?thesis using snoc m P
    by (intro exI[of _ ?ll], subst UnlockAndEmptyBatch_loop_simps(2)) simp
qed

lemma batch_loop_taken:
  assumes "shape ll (ys @ zs) U" "length ns \<le> length ids"
    and "\<And>b. b \<in> set zs \<Longrightarrow> P b \<longleftrightarrow> ackable c ids (entryOf (mem ll b))"
  shows "\<exists>ll' cur. UnlockAndEmptyBatch_loop c ids ll ns (before ys) (ptrTo zs) =
      Some (ll', ns @ take (length ids - length ns) (filter P zs), cur) \<and>
    taken ll ll' (ys @ dropFirst P (length ids - length ns) zs) U"
  using assms
proof (induction zs arbitrary: ll ys ns)
  case Nil
  then show ?case by (simp add: taken_def UnlockAndEmptyBatch_loop_simps(1))
next
  case (Cons a zs)
  have Pa: "P a \<longleftrightarrow> ConsumerID (mem ll a) = c \<and> ID (mem ll a) \<in> set ids"
    using Cons.prems(3)[of a] by (simp add: ackable_entryOf)
  show ?case
  proof (cases "length ns < length ids")
    case False
    with Cons.prems show ?thesis by (simp add: taken_def UnlockAndEmptyBatch_loop_simps(2))
  next
    case m: True
    then obtain k where k: "length ids - length ns = Suc k" by (metis Suc_diff_Suc)
    then have k1: "length ids - length (ns @ [a]) = k" by simp
    show ?thesis
    proof (cases "P a")
      case True
      show ?thesis
      proof (cases "zs = []")
        case last: True
        from batch_loop_last[of ll ys a U ns ids c] Cons.prems(1) last m True Pa k
        show ?thesis by auto
      next
        case False
        obtain ll1 where st: "UnlockAndEmptyBatch_loop c ids ll ns (before ys) (Some a) =
            UnlockAndEmptyBatch_loop c ids ll1 (ns @ [a]) (before ys) (ptrTo zs)"
          and sh1: "shape ll1 (ys @ zs) U" and am1: "Amount ll1 = Amount ll"
          and ab1: "\<forall>xs. absOf ll1 xs = absOf ll xs"
          using batch_loop_step[OF Cons.prems(1) False m] Pa True by blast
        have e1: "entryOf (mem ll1 b) = entryOf (mem ll b)" for b
          using arg_cong[OF ab1[rule_format, of "[b]"], of items] by simp
        have "P b \<longleftrightarrow> ackable c ids (entryOf (mem ll1 b))" if "b \<in> set zs" for b
          using Cons.prems(3)[of b] that e1 by simp
        from Cons.IH[OF sh1 _ this, of "ns @ [a]"] m
        obtain ll' cur where
          "UnlockAndEmptyBatch_loop c ids ll1 (ns @ [a]) (before ys) (ptrTo zs) =
            Some (ll', (ns @ [a]) @ take k (filter P zs), cur)"
          "taken ll1 ll' (ys @ dropFirst P k zs) U" unfolding k1 by auto
        with st True k am1 ab1 taken_trans[of ll1 ll' _ U ll] show ?thesis
          by auto
      qed
    next
      case False
      have "Next (mem ll a) = ptrTo zs" using shape_Next[of ll ys a zs U] Cons.prems(1) by simp
      with False Pa m have st: "UnlockAndEmptyBatch_loop c ids ll ns (before ys) (Some a) =
          UnlockAndEmptyBatch_loop c ids ll ns (before (ys @ [a])) (ptrTo zs)"
        by (subst UnlockAndEmptyBatch_loop_simps(2)) auto
      have "shape ll ((ys @ [a]) @ zs) U" using Cons.prems(1) by simp
      from Cons.IH[OF this Cons.prems(2)] Cons.prems(3) st False k show ?thesis
        by auto
    qed
  qed
qed

section \<open>The whole method\<close>

lemma dropFirst_map: "dropFirst Q n (map f xs) = map f (dropFirst (\<lambda>x. Q (f x)) n xs)"
  by (induction "\<lambda>x. Q (f x)" n xs rule: dropFirst.induct) auto

lemma dropFirst_none: "filter P xs = [] \<Longrightarrow> dropFirst P n xs = xs"
  by (induction P n xs rule: dropFirst.induct) (auto split: if_splits)

text \<open>The head of the list is taken out before the loop, when it matches.\<close>

lemma batch_head_loop:
  assumes sh: "shape ll (h # zs) U" and n: "0 < length ids"
    and "P = (\<lambda>b. ackable c ids (entryOf (mem ll b)))"
    and "(ll1, ns1) = (if P h then (ll\<lparr>Head := Next (mem ll h)\<rparr>, [h]) else (ll, []))"
  shows "\<exists>ll' cur. UnlockAndEmptyBatch_loop c ids ll1 ns1 None (Head ll1) =
      Some (ll', take (length ids) (filter P (h # zs)), cur) \<and>
    taken ll ll' (dropFirst P (length ids) (h # zs)) U"
proof (cases "P h")
  case True
  with assms(4) have l: "ll1 = ll\<lparr>Head := Next (mem ll h)\<rparr>" "ns1 = [h]" by auto
  have nx: "Next (mem ll h) = ptrTo zs" using shape_Next[of ll "[]" h zs U] sh by simp
  have sh1: "shape ll1 ([] @ zs) U"
    using sh nx unlink_head[OF sh] unfolding l
    by (cases "zs = []") (auto intro: unlink_only_stale)
  obtain k where k: "length ids = Suc k" using n by (cases "length ids") auto
  have "length ns1 \<le> length ids" using l k by simp
  from batch_loop_taken[OF sh1 this, of P c] k l nx True taken_trans[of ll1 _ _ U ll] show ?thesis
    by (auto simp: assms(3))
next
  case False
  with assms(4) have l: "ll1 = ll" "ns1 = []" by auto
  have "shape ll ([] @ h # zs) U" "Head ll = Some h" using sh shape_Head[OF sh] by auto
  with batch_loop_taken[of ll "[]" "h # zs" U "[]" ids P c] l show ?thesis
    by (simp add: assms(3))
qed

lemma UnlockAndEmptyBatch_cases:
  assumes m: "models ll q" and ne: "items q \<noteq> []" and n: "1 < length ids"
    and enough: "int (length ids) \<le> amount q"
  shows "length ids \<le> length (filter (ackable c ids) (items q)) \<Longrightarrow>
      \<exists>ll'. UnlockAndEmptyBatch ll c ids = Some (None, ll') \<and> models ll' (aqBatchAck q c ids)"
    and "filter (ackable c ids) (items q) = [] \<Longrightarrow>
      \<exists>ll'. UnlockAndEmptyBatch ll c ids = Some (Some CouldNotAckAll, ll') \<and> models ll' q"
proof -
  from m obtain xs U where sh: "shape ll xs U" and q: "q = absOf ll xs"
    and len: "int (length xs) \<le> ccount (Amount ll)" by (auto simp: models_def)
  from ne q obtain h zs where xs: "xs = h # zs" by (cases xs) auto
  define P where "P = (\<lambda>b. ackable c ids (entryOf (mem ll b)))"
  obtain ll1 ns1 where l1: "(ll1, ns1) = (if P h then (ll\<lparr>Head := Next (mem ll h)\<rparr>, [h]) else (ll, []))"
    by (metis surj_pair)
  obtain ll' cur where loop: "UnlockAndEmptyBatch_loop c ids ll1 ns1 None (Head ll1) =
      Some (ll', take (length ids) (filter P xs), cur)"
    and t: "taken ll ll' (dropFirst P (length ids) xs) U"
    using batch_head_loop[OF sh[unfolded xs] _ P_def l1] n xs by fastforce
  have hd: "Head ll = Some h" using shape_Head[OF sh] xs by simp
  have if_P: "(if ConsumerID (mem ll h) = c \<and> ID (mem ll h) \<in> set ids
      then (ll\<lparr>Head := Next (mem ll h)\<rparr>, [h]) else (ll, [])) = (ll1, ns1)"
    using l1 by (simp add: P_def ackable_entryOf)
  have U1: "UnlockAndEmptyBatch ll c ids = Some (None, ll')" if "length ids \<le> length (filter P xs)"
    using that n enough q loop if_P
    by (auto simp: UnlockAndEmptyBatch_def hd Value_def)
  have U0: "UnlockAndEmptyBatch ll c ids = Some (Some CouldNotAckAll, ll')" if "filter P xs = []"
    using that n enough q loop if_P
    by (simp add: UnlockAndEmptyBatch_def hd Value_def)
  have fl: "filter (ackable c ids) (items q) = map (\<lambda>a. entryOf (mem ll a)) (filter P xs)"
    by (simp add: q filter_map P_def o_def)
  have ml: "models ll' (absOf ll (dropFirst P (length ids) xs))"
    using t len length_dropFirst[of P "length ids" xs]
    by (intro modelsI[of ll' "dropFirst P (length ids) xs" U]) (auto simp: taken_def)
  show "\<exists>ll'. UnlockAndEmptyBatch ll c ids = Some (None, ll') \<and> models ll' (aqBatchAck q c ids)"
    if "length ids \<le> length (filter (ackable c ids) (items q))"
  proof -
    have "absOf ll (dropFirst P (length ids) xs) = aqBatchAck q c ids"
      by (simp add: aqBatchAck_def q absOf_def dropFirst_map P_def)
    with U1 ml that fl show ?thesis by auto
  qed
  show "\<exists>ll'. UnlockAndEmptyBatch ll c ids = Some (Some CouldNotAckAll, ll') \<and> models ll' q"
    if "filter (ackable c ids) (items q) = []"
    using U0 ml that fl q by (auto simp: dropFirst_none)
qed

end
