(* ===== verification/LinkedListBatchNack.thy ===== *)
theory LinkedListBatchNack
  imports LinkedListFetch LinkedListBatchAck
begin

text \<open>
  \<open>BatchUnlock\<close> when every identifier is found and no node reaches the fetch limit: exactly the
  collected nodes are unlocked and their fetch counts raised. The collecting loop never advances its
  \<open>prev\<close> pointer, so nodes that do reach the limit are unlinked from the wrong place; the executable
  function \<open>contents\<close> lets concrete runs of that case be evaluated.
\<close>

section \<open>Reading the list\<close>

partial_function (option) walk :: "(addr \<Rightarrow> ListNode) \<Rightarrow> ptr \<Rightarrow> addr list option" where
  "walk h p =
     (case p of
        None \<Rightarrow> Some []
      | Some a \<Rightarrow> do { as \<leftarrow> walk h (Next (h a)); Some (a # as) })"

declare walk.simps [code]

definition contents :: "LinkedList \<Rightarrow> entry list option" where
  "contents ll = map_option (map (\<lambda>a. entryOf (mem ll a))) (walk (mem ll) (Head ll))"

lemma walk_chain: "chain h p xs None \<Longrightarrow> walk h p = Some xs"
  by (induction xs arbitrary: p) (simp_all add: walk.simps)

lemma models_contents: "models ll q \<Longrightarrow> contents ll = Some (items q)"
  by (auto simp: models_def contents_def shape_def dest!: walk_chain)

section \<open>Collecting the nodes\<close>

lemma BatchUnlock_collect_chain:
  assumes "chain (mem ll) p zs None" "length ns \<le> length ids"
    and "P = (\<lambda>b. ID (mem ll b) \<in> set ids)"
  shows "BatchUnlock_collect ll ids ns prev p =
    Some (ns @ map (\<lambda>a. \<lparr>pprev = prev, pcurrent = a\<rparr>) (take (length ids - length ns) (filter P zs)))"
  using assms(1,2)
proof (induction zs arbitrary: p ns)
  case Nil
  then show ?case by (simp add: BatchUnlock_collect.simps)
next
  case (Cons a zs)
  show ?case
  proof (cases "length ns < length ids")
    case True
    then obtain k where k: "length ids - length ns = Suc k" by (metis Suc_diff_Suc)
    let ?ns = "if P a then ns @ [\<lparr>pprev = prev, pcurrent = a\<rparr>] else ns"
    have "BatchUnlock_collect ll ids ns prev p = BatchUnlock_collect ll ids ?ns prev (Next (mem ll a))"
      using Cons.prems True by (simp add: BatchUnlock_collect.simps[of ll ids ns prev "Some a"] assms(3))
    also have "\<dots> = Some (?ns @ map (\<lambda>a. \<lparr>pprev = prev, pcurrent = a\<rparr>)
        (take (length ids - length ?ns) (filter P zs)))"
      by (rule Cons.IH) (use Cons.prems True in auto)
    finally show ?thesis using k by (auto simp: diff_Suc split: nat.splits)
  next
    case False
    with Cons.prems show ?thesis by (simp add: BatchUnlock_collect.simps[of ll ids ns prev "Some a"])
  qed
qed

section \<open>Unlocking the collected nodes\<close>

definition releaseNodeAt :: "ListNode \<Rightarrow> ListNode" where
  "releaseNodeAt n = n\<lparr>ConsumerID := NO_CONSUMER, fetched := fetched n + 1\<rparr>"

lemma releaseNodeAt_sel [simp]:
  "Next (releaseNodeAt n) = Next n" "entryOf (releaseNodeAt n) = releaseEntry (entryOf n)"
  by (simp_all add: releaseNodeAt_def releaseEntry_def entryOf_def)

lemma BatchUnlock_apply_keep:
  assumes "distinct (map pcurrent ps)"
    and "\<forall>p\<in>set ps. \<not> fetchLimit ll \<le> fetched (mem ll (pcurrent p)) + 1"
  shows "BatchUnlock_apply ll dl ps =
    Some (withNodes (\<lambda>a. if a \<in> pcurrent ` set ps then releaseNodeAt (mem ll a) else mem ll a) ll, dl)"
  using assms
proof (induction ps arbitrary: ll)
  case Nil
  then show ?case by simp
next
  case (Cons p ps)
  let ?a = "pcurrent p"
  let ?ll = "modNode ?a releaseNodeAt ll"
  have u: "unlockNode ll dl (pprev p) ?a = Some (?ll, dl)"
    using Cons.prems(2) by (simp add: unlockNode_def Let_def releaseNodeAt_def)
  have "BatchUnlock_apply ?ll dl ps =
    Some (withNodes (\<lambda>a. if a \<in> pcurrent ` set ps then releaseNodeAt (mem ?ll a) else mem ?ll a) ?ll, dl)"
    by (rule Cons.IH) (use Cons.prems in \<open>auto simp: image_iff\<close>)
  moreover have "(\<lambda>a. if a \<in> pcurrent ` set ps then releaseNodeAt (mem ?ll a) else mem ?ll a) =
      (\<lambda>a. if a \<in> pcurrent ` set (p # ps) then releaseNodeAt (mem ll a) else mem ll a)"
    using Cons.prems(1) by (auto simp: fun_eq_iff)
  ultimately show ?case using u by simp
qed

lemma grab_addresses:
  assumes "distinct xs"
  shows "map (\<lambda>a. if a \<in> set (take n (filter (\<lambda>b. Q (G b)) xs)) then f (G a) else G a) xs =
    snd (grab Q f n (map G xs))"
  using assms
proof (induction xs arbitrary: n)
  case (Cons a xs)
  have na: "a \<notin> set (take k (filter (\<lambda>b. Q (G b)) xs))" for k
    using Cons.prems by (auto dest: in_set_takeD)
  show ?case
  proof (cases n)
    case 0
    then show ?thesis by simp
  next
    case (Suc k)
    have "map (\<lambda>x. if x = a \<or> x \<in> set (take k (filter (\<lambda>b. Q (G b)) xs)) then f (G x) else G x) xs =
        map (\<lambda>x. if x \<in> set (take k (filter (\<lambda>b. Q (G b)) xs)) then f (G x) else G x) xs"
      using Cons.prems by auto
    with Suc Cons na show ?thesis by auto
  qed
qed simp

definition aqBatchNack :: "aqueue \<Rightarrow> bytes list \<Rightarrow> aqueue" where
  "aqBatchNack q ids =
     q\<lparr>items := snd (grab (\<lambda>e. eid e \<in> set ids) releaseEntry (length ids) (items q))\<rparr>"

lemma BatchUnlock_models:
  assumes m: "models ll q"
    and enough: "int (length ids) \<le> amount q"
    and found: "length ids \<le> length (filter (\<lambda>e. eid e \<in> set ids) (items q))" and ne: "ids \<noteq> []"
    and below: "\<forall>e\<in>set (items q). eid e \<in> set ids \<longrightarrow> \<not> alimit q \<le> efetched e + 1"
  shows "\<exists>ll'. BatchUnlock ll dl c ids = Some (None, ll', dl) \<and> models ll' (aqBatchNack q ids)"
proof -
  from m obtain xs U where sh: "shape ll xs U" and q: "q = absOf ll xs"
    and len: "int (length xs) \<le> ccount (Amount ll)" by (auto simp: models_def)
  from found ne q obtain h zs where xs: "xs = h # zs" by (cases xs) auto
  define P where "P = (\<lambda>b. ID (mem ll b) \<in> set ids)"
  define S where "S = take (length ids) (filter P xs)"
  from sh xs have hd: "Head ll = Some h" and ch: "chain (mem ll) (Next (mem ll h)) zs None"
    and dist: "distinct xs" by (auto simp: shape_def)
  have lenS: "length S = length ids"
    using found q by (simp add: S_def P_def filter_map o_def)
  define hp where "hp = (if P h then [\<lparr>pprev = None, pcurrent = h\<rparr>] else [])"
  define ps where "ps = hp @ map (\<lambda>a. \<lparr>pprev = Head ll, pcurrent = a\<rparr>)
      (take (length ids - length hp) (filter P zs))"
  have col: "BatchUnlock_collect ll ids hp (Head ll) (Next (mem ll h)) = Some ps"
    unfolding ps_def by (rule BatchUnlock_collect_chain[OF ch _ P_def]) (use ne in \<open>auto simp: hp_def Suc_le_eq\<close>)
  have cur: "map pcurrent ps = S"
    using ne by (auto simp: ps_def S_def hp_def xs o_def take_Cons' neq_Nil_conv)
  have dS: "distinct S" "set S \<subseteq> set xs" "\<forall>a\<in>set S. ID (mem ll a) \<in> set ids"
    using dist by (auto simp: S_def P_def dest: in_set_takeD intro: distinct_take)
  define g where "g = (\<lambda>a. if a \<in> set S then releaseNodeAt (mem ll a) else mem ll a)"
  have "BatchUnlock_apply ll dl ps = Some (withNodes g ll, dl)"
    using BatchUnlock_apply_keep[of ps ll dl] dS below q unfolding cur[symmetric] g_def by fastforce
  then have "BatchUnlock ll dl c ids = Some (None, withNodes g ll, dl)"
    using col enough q lenS ne arg_cong[OF cur, of length]
    by (auto simp: BatchUnlock_def hd hp_def P_def Value_def)
  moreover have "models (withNodes g ll) (q\<lparr>items := map (\<lambda>a. entryOf (g a)) xs\<rparr>)"
    unfolding q by (rule payload_models[OF sh _ len]) (use dS in \<open>auto simp: onlyPayload_def g_def\<close>)
  moreover have "map (\<lambda>a. entryOf (g a)) xs = items (aqBatchNack q ids)"
    using grab_addresses[OF dist, of "length ids" "\<lambda>e. eid e \<in> set ids" "\<lambda>a. entryOf (mem ll a)" releaseEntry]
    by (simp add: aqBatchNack_def q g_def S_def P_def if_distrib cong: if_cong)
  ultimately show ?thesis by (auto simp: aqBatchNack_def)
qed

text \<open>When too few messages have the identifiers, the queue stays as it is.\<close>

lemma BatchUnlock_refused:
  assumes m: "models ll q" and enough: "int (length ids) \<le> amount q" and ne: "items q \<noteq> []"
    and few: "ids = [] \<or> length (filter (\<lambda>e. eid e \<in> set ids) (items q)) < length ids"
  shows "BatchUnlock ll dl c ids =
    Some (Some (CouldNotNackAll (filter (\<lambda>e. eid e \<in> set ids) (items q) = []) (ids \<noteq> [])), ll, dl)"
proof -
  from m obtain xs U where sh: "shape ll xs U" and q: "q = absOf ll xs" by (auto simp: models_def)
  from ne q obtain h zs where xs: "xs = h # zs" by (cases xs) auto
  define P where "P = (\<lambda>b. ID (mem ll b) \<in> set ids)"
  from sh xs have hd: "Head ll = Some h" and ch: "chain (mem ll) (Next (mem ll h)) zs None" by (auto simp: shape_def)
  define hp where "hp = (if P h then [\<lparr>pprev = None, pcurrent = h\<rparr>] else [])"
  define ps where "ps = hp @ map (\<lambda>a. \<lparr>pprev = Head ll, pcurrent = a\<rparr>) (take (length ids - length hp) (filter P zs))"
  have col: "BatchUnlock_collect ll ids hp (Head ll) (Next (mem ll h)) = Some ps"
    unfolding ps_def by (rule BatchUnlock_collect_chain[OF ch _ P_def]) (auto simp: hp_def P_def Suc_le_eq)
  have f: "length (filter (\<lambda>e. eid e \<in> set ids) (items q)) = length (filter P xs)"
    by (simp add: q P_def filter_map o_def)
  with few have len: "length ps = length (filter P xs)"
    by (auto simp: ps_def hp_def xs P_def min_def split: if_splits)
  have "(filter (\<lambda>e. eid e \<in> set ids) (items q) = []) = (length ps = 0)" using f len by (metis length_0_conv)
  moreover have "length ps \<noteq> length ids \<longleftrightarrow> ids \<noteq> []" using few f len by (auto simp: P_def)
  ultimately show ?thesis
    using col enough q few f len by (auto simp: BatchUnlock_def hd hp_def P_def Value_def)
qed

end
