(* ===== verification/QueueInterface.thy ===== *)
theory QueueInterface
  imports LinkedListBatchNack
begin

text \<open>
  The Go interface \<open>Queue\<close> as a locale: a representation relation to abstract queues and the laws of
  its methods. What a client may rely on is proved once in the locale: messages come out in the
  order they went in, a fetched message is not handed to another consumer before its lock expires,
  an acknowledged message is gone. The linked list is an instance. The second part runs sequences
  of operations and states what holds along them.
\<close>

section \<open>Properties of the abstract operations\<close>

lemma handedOut_filter:
  "handedOut q n c now = take (unat n) (filter (entryFree (attl q) c now) (items q))"
  by (simp add: handedOut_def fst_grab_filter)

lemma aqDequeue_sel [simp]:
  "amount (aqDequeue q n c now) = amount q" "acap (aqDequeue q n c now) = acap q"
  "attl (aqDequeue q n c now) = attl q" "alimit (aqDequeue q n c now) = alimit q"
  "adl (aqDequeue q n c now) = adl q"
  "length (items (aqDequeue q n c now)) = length (items q)"
  "map eid (items (aqDequeue q n c now)) = map eid (items q)"
  "map evalue (items (aqDequeue q n c now)) = map evalue (items q)"
  by (simp_all add: aqDequeue_def length_grab map_snd_grab lockEntry_def)

text \<open>The entry with a given identifier is locked by the consumer that fetched it.\<close>

lemma handedOut_locked:
  assumes "e \<in> set (handedOut q n c now)"
  shows "lockEntry c now e \<in> set (items (aqDequeue q n c now))"
  using assms grab_member by (auto simp: handedOut_def aqDequeue_def)

lemma lockEntry_not_free:
  assumes "c \<noteq> NO_CONSUMER" "c' \<noteq> c" "sint (now' - now) \<le> sint ttl"
  shows "\<not> entryFree ttl c' now' (lockEntry c now e)"
  using assms by (auto simp: entryFree_def available_def lockEntry_def)

lemma distinct_eid_eq:
  "distinct (map eid xs) \<Longrightarrow> x \<in> set xs \<Longrightarrow> y \<in> set xs \<Longrightarrow> eid x = eid y \<Longrightarrow> x = y"
  by (auto simp: distinct_map dest: inj_onD)

lemma aq_exclusive:
  assumes "distinct (map eid (items q))" "c \<noteq> NO_CONSUMER" "c' \<noteq> c"
    and "sint (now' - now) \<le> sint (attl q)"
  shows "set (map eid (handedOut q n c now)) \<inter>
         set (map eid (handedOut (aqDequeue q n c now) n' c' now')) = {}"
proof -
  { fix e e'
    assume e: "e \<in> set (handedOut q n c now)"
      and e': "e' \<in> set (handedOut (aqDequeue q n c now) n' c' now')" and eq: "eid e = eid e'"
    let ?q = "aqDequeue q n c now"
    from e' have m: "e' \<in> set (items ?q)" "entryFree (attl ?q) c' now' e'"
      by (auto simp: handedOut_filter dest: in_set_takeD)
    have "distinct (map eid (items ?q))" using assms(1) by simp
    moreover have "eid (lockEntry c now e) = eid e'" using eq by (simp add: lockEntry_def)
    ultimately have "e' = lockEntry c now e"
      using distinct_eid_eq[OF _ m(1) handedOut_locked[OF e]] by simp
    with m(2) lockEntry_not_free[OF assms(2-4)] have False by simp }
  then show ?thesis by fastforce
qed

section \<open>The interface\<close>

locale queue_impl =
  fixes rep :: "'q \<Rightarrow> aqueue \<Rightarrow> bool"
    and new :: "u32 \<Rightarrow> u32 \<Rightarrow> i64 \<Rightarrow> queueRef \<Rightarrow> 'q"
    and enq :: "'q \<Rightarrow> bytes \<Rightarrow> bytes \<Rightarrow> 'q option"
    and benq :: "'q \<Rightarrow> MessageBatch list \<Rightarrow> 'q option"
    and deq :: "'q \<Rightarrow> u32 \<Rightarrow> bytes \<Rightarrow> i64 \<Rightarrow> (bytes list \<times> bytes list \<times> 'q) option"
    and ack :: "'q \<Rightarrow> bytes \<Rightarrow> bytes \<Rightarrow> (error option \<times> 'q) option"
    and nack :: "'q \<Rightarrow> 'q option \<Rightarrow> bytes \<Rightarrow> bytes \<Rightarrow> (bool \<times> 'q \<times> 'q option) option"
    and uall :: "'q \<Rightarrow> bytes \<Rightarrow> 'q option"
  assumes rep_new: "rep (new sz limit ttl dl) (newAq sz limit ttl dl)"
    and rep_enq: "rep x q \<Longrightarrow> \<exists>x'. enq x i v = Some x' \<and> rep x' (aqEnqueue q i v)"
    and rep_benq: "rep x q \<Longrightarrow> \<exists>x'. benq x ms = Some x' \<and> rep x' (aqBatchEnqueue q ms)"
    and rep_deq: "rep x q \<Longrightarrow>
      \<exists>x'. deq x n c now = Some (map evalue (handedOut q n c now), map eid (handedOut q n c now), x') \<and>
        rep x' (aqDequeue q n c now)"
    and rep_ack: "rep x q \<Longrightarrow>
      \<exists>x'. ack x c i = Some (fst (aqAck q c i), x') \<and> rep x' (snd (aqAck q c i))"
    and rep_nack: "rep x q \<Longrightarrow> rel_option rep d qd \<Longrightarrow>
      rel_option (rel_prod (=) (rel_prod rep (rel_option rep))) (nack x d c i) (aqNack q qd c i)"
    and rep_uall: "rep x q \<Longrightarrow> \<exists>x'. uall x c = Some x' \<and> rep x' (aqUnlockAll q c)"
begin

text \<open>Two fetches in a row by different consumers hand out different messages.\<close>

lemma exclusive_delivery:
  assumes "rep x q" "distinct (map eid (items q))" "c \<noteq> NO_CONSUMER" "c' \<noteq> c"
    and "sint (now' - now) \<le> sint (attl q)"
  shows "\<exists>vs ids x1 vs' ids' x2. deq x n c now = Some (vs, ids, x1) \<and>
    deq x1 n' c' now' = Some (vs', ids', x2) \<and> set ids \<inter> set ids' = {}"
proof -
  obtain x1 where d: "deq x n c now =
      Some (map evalue (handedOut q n c now), map eid (handedOut q n c now), x1)"
    and r1: "rep x1 (aqDequeue q n c now)" using rep_deq[OF assms(1)] by blast
  obtain x2 where "deq x1 n' c' now' =
      Some (map evalue (handedOut (aqDequeue q n c now) n' c' now'),
        map eid (handedOut (aqDequeue q n c now) n' c' now'), x2)" using rep_deq[OF r1] by blast
  with d aq_exclusive[OF assms(2-5), of n n'] show ?thesis by fastforce
qed

text \<open>The messages put into a queue with room for them come out in the same order.\<close>

lemma enq_all:
  assumes "rep x q" "amount q + int (length ms) \<le> uint (acap q)"
  shows "\<exists>x'. fold (\<lambda>m x. do { y \<leftarrow> x; enq y (fst m) (snd m) }) ms (Some x) = Some x' \<and>
    rep x' (q\<lparr>items := items q @ map (\<lambda>m. newEntry (fst m) (snd m)) ms,
              amount := amount q + int (length ms)\<rparr>)"
  using assms
proof (induction ms arbitrary: x q)
  case Nil
  then show ?case by simp
next
  case (Cons m ms)
  obtain x1 where e: "enq x (fst m) (snd m) = Some x1" and r: "rep x1 (aqEnqueue q (fst m) (snd m))"
    using rep_enq[OF Cons.prems(1)] by blast
  have q: "aqEnqueue q (fst m) (snd m) =
      q\<lparr>items := items q @ [newEntry (fst m) (snd m)], amount := amount q + 1\<rparr>"
    using Cons.prems(2) by (simp add: aqEnqueue_def aqFull_def)
  from Cons.IH[OF r] Cons.prems(2) e show ?case by (simp add: q add.assoc)
qed

lemma fifo:
  assumes "int (length ms) \<le> uint sz"
  shows "\<exists>x' x''. fold (\<lambda>m x. do { y \<leftarrow> x; enq y (fst m) (snd m) }) ms (Some (new sz limit ttl dl)) = Some x' \<and>
    deq x' n c now = Some (map snd (take (unat n) ms), map fst (take (unat n) ms), x'')"
proof -
  obtain x' where e: "fold (\<lambda>m x. do { y \<leftarrow> x; enq y (fst m) (snd m) }) ms (Some (new sz limit ttl dl)) = Some x'"
    and r: "rep x' ((newAq sz limit ttl dl)\<lparr>items := map (\<lambda>m. newEntry (fst m) (snd m)) ms,
        amount := int (length ms)\<rparr>)" (is "rep _ ?q")
    using enq_all[OF rep_new[of sz limit ttl dl], of ms] assms by (auto simp: newAq_def)
  have "filter (entryFree (attl ?q) c now) (items ?q) = items ?q"
    by (auto simp: filter_id_conv entryFree_def available_def newEntry_def)
  then have "handedOut ?q n c now = map (\<lambda>m. newEntry (fst m) (snd m)) (take (unat n) ms)"
    by (simp add: handedOut_filter take_map)
  with rep_deq[OF r, of n c now] e show ?thesis by (auto simp: newEntry_def o_def)
qed

text \<open>A message acknowledged by its holder is not handed out again, to anybody.\<close>

lemma acked_gone:
  assumes "rep x q" "distinct (map eid (items q))" "ack x c i = Some (None, x')"
  shows "\<exists>vs ids x''. deq x' n c' now = Some (vs, ids, x'') \<and> i \<notin> set ids"
proof -
  from rep_ack[OF assms(1), of c i] assms(3) have a: "fst (aqAck q c i) = None"
    and r: "rep x' (snd (aqAck q c i))" by auto
  then obtain ys e zs where s: "items q = ys @ e # zs" "heldAs c i e" "\<forall>y\<in>set ys. \<not> heldAs c i y"
    using split_first[of "items q" "heldAs c i"] by (auto simp: aqAck_def split: if_splits)
  then have "items (snd (aqAck q c i)) = ys @ zs"
    using removeFirst_split[of ys "heldAs c i" e zs] by (auto simp: aqAck_def)
  moreover have "i \<notin> set (map eid (ys @ zs))" using s assms(2) by (auto simp: heldAs_def)
  ultimately have "i \<notin> set (map eid (handedOut (snd (aqAck q c i)) n c' now))"
    by (auto simp: handedOut_filter dest: in_set_takeD)
  with rep_deq[OF r, of n c' now] show ?thesis by auto
qed

end

interpretation llq: queue_impl models NewQueue Enqueue BatchEnqueue Dequeue UnlockAndEmpty Unlock
  UnlockAllFromConsumer
  by unfold_locales
    (simp_all add: NewQueue_models Enqueue_models BatchEnqueue_models Dequeue_models
      UnlockAndEmpty_models Unlock_models UnlockAllFromConsumer_models)

end
