(* ===== verification/QueueRuns.thy ===== *)
theory QueueRuns
  imports QueueInterface
begin

text \<open>
  Sequences of operations on a queue and its dead letter queue, on the linked list and on the
  abstract queue, and the properties that hold along them.
\<close>

section \<open>Runs\<close>

text \<open>The operations of the Go interface \<open>Queue\<close>, and what a caller sees of each of them.\<close>

datatype qop =
    OpEnqueue bytes bytes
  | OpBatchEnqueue "MessageBatch list"
  | OpDequeue u32 bytes i64
  | OpAck bytes bytes
  | OpBatchAck bytes "bytes list"
  | OpNack bytes bytes
  | OpBatchNack bytes "bytes list"
  | OpUnlockAll bytes
  | OpIsEmpty
  | OpIsFull
  | OpCapacity
  | OpSize

datatype qobs = SeesNothing | SeesMessages "bytes list" "bytes list" | SeesError "error option" | SeesBool bool | SeesNumber u32

type_synonym llState = "LinkedList \<times> LinkedList option"
type_synonym aqState = "aqueue \<times> aqueue option"

fun llStep :: "llState \<Rightarrow> qop \<Rightarrow> (qobs \<times> llState) option" where
  "llStep (ll, d) (OpEnqueue i v) = map_option (\<lambda>ll'. (SeesNothing, ll', d)) (Enqueue ll i v)"
| "llStep (ll, d) (OpBatchEnqueue ms) = map_option (\<lambda>ll'. (SeesNothing, ll', d)) (BatchEnqueue ll ms)"
| "llStep (ll, d) (OpDequeue n c now) = map_option (\<lambda>(vs, ids, ll'). (SeesMessages vs ids, ll', d)) (Dequeue ll n c now)"
| "llStep (ll, d) (OpAck c i) = map_option (\<lambda>(e, ll'). (SeesError e, ll', d)) (UnlockAndEmpty ll c i)"
| "llStep (ll, d) (OpBatchAck c ids) = map_option (\<lambda>(e, ll'). (SeesError e, ll', d)) (UnlockAndEmptyBatch ll c ids)"
| "llStep (ll, d) (OpNack c i) = map_option (\<lambda>(ok, s). (SeesBool ok, s)) (Unlock ll d c i)"
| "llStep (ll, d) (OpBatchNack c ids) = map_option (\<lambda>(e, s). (SeesError e, s)) (BatchUnlock ll d c ids)"
| "llStep (ll, d) (OpUnlockAll c) = map_option (\<lambda>ll'. (SeesNothing, ll', d)) (UnlockAllFromConsumer ll c)"
| "llStep (ll, d) OpIsEmpty = Some (SeesBool (IsEmpty ll), ll, d)"
| "llStep (ll, d) OpIsFull = Some (SeesBool (IsFull ll), ll, d)"
| "llStep (ll, d) OpCapacity = Some (SeesNumber (Capacity ll), ll, d)"
| "llStep (ll, d) OpSize = Some (SeesNumber (Size ll), ll, d)"

fun llRun :: "llState \<Rightarrow> qop list \<Rightarrow> (qobs list \<times> llState) option" where
  "llRun s [] = Some ([], s)"
| "llRun s (x # xs) = do { (ob, s1) \<leftarrow> llStep s x; (obs, s2) \<leftarrow> llRun s1 xs; Some (ob # obs, s2) }"

text \<open>
  The abstract step has no value where the code panics, for a batch acknowledgement that finds some of its
  messages but not all of them, and for a negative batch acknowledgement that names a message at the fetch
  limit.
\<close>

definition aqBatchAckStep :: "aqueue \<Rightarrow> bytes \<Rightarrow> bytes list \<Rightarrow> (error option \<times> aqueue) option" where
  "aqBatchAckStep q c ids =
     (if items q = [] then Some (Some QueueIsEmpty, q)
      else if length ids = 1 then Some (aqAck q c (ids ! 0))
      else if amount q < int (length ids) then Some (Some CouldNotAckQueueTooShort, q)
      else if filter (ackable c ids) (items q) = [] then Some (Some CouldNotAckAll, q)
      else if length ids \<le> length (filter (ackable c ids) (items q)) then Some (None, aqBatchAck q c ids)
      else None)"

definition aqBatchNackStep :: "aqueue \<Rightarrow> bytes list \<Rightarrow> (error option \<times> aqueue) option" where
  "aqBatchNackStep q ids =
     (if items q = [] then Some (Some QueueIsEmpty, q)
      else if amount q < int (length ids) then Some (Some CouldNotAckQueueTooShort, q)
      else if ids = [] \<or> length (filter (\<lambda>e. eid e \<in> set ids) (items q)) < length ids then
        Some (Some (CouldNotNackAll (filter (\<lambda>e. eid e \<in> set ids) (items q) = []) (ids \<noteq> [])), q)
      else if \<forall>e\<in>set (items q). eid e \<in> set ids \<longrightarrow> \<not> alimit q \<le> efetched e + 1 then Some (None, aqBatchNack q ids)
      else None)"

fun aqStep :: "aqState \<Rightarrow> qop \<Rightarrow> (qobs \<times> aqState) option" where
  "aqStep (q, d) (OpEnqueue i v) = Some (SeesNothing, aqEnqueue q i v, d)"
| "aqStep (q, d) (OpBatchEnqueue ms) = Some (SeesNothing, aqBatchEnqueue q ms, d)"
| "aqStep (q, d) (OpDequeue n c now) =
     Some (SeesMessages (map evalue (handedOut q n c now)) (map eid (handedOut q n c now)), aqDequeue q n c now, d)"
| "aqStep (q, d) (OpAck c i) = Some (SeesError (fst (aqAck q c i)), snd (aqAck q c i), d)"
| "aqStep (q, d) (OpBatchAck c ids) = map_option (\<lambda>(e, q'). (SeesError e, q', d)) (aqBatchAckStep q c ids)"
| "aqStep (q, d) (OpNack c i) = map_option (\<lambda>(ok, s). (SeesBool ok, s)) (aqNack q d c i)"
| "aqStep (q, d) (OpBatchNack c ids) = map_option (\<lambda>(e, q'). (SeesError e, q', d)) (aqBatchNackStep q ids)"
| "aqStep (q, d) (OpUnlockAll c) = Some (SeesNothing, aqUnlockAll q c, d)"
| "aqStep (q, d) OpIsEmpty = Some (SeesBool (items q = []), q, d)"
| "aqStep (q, d) OpIsFull = Some (SeesBool (aqFull q), q, d)"
| "aqStep (q, d) OpCapacity = Some (SeesNumber (acap q), q, d)"
| "aqStep (q, d) OpSize = Some (SeesNumber (word_of_int (amount q)), q, d)"

fun aqRun :: "aqState \<Rightarrow> qop list \<Rightarrow> (qobs list \<times> aqState) option" where
  "aqRun s [] = Some ([], s)"
| "aqRun s (x # xs) = do { (ob, s1) \<leftarrow> aqStep s x; (obs, s2) \<leftarrow> aqRun s1 xs; Some (ob # obs, s2) }"

abbreviation simrel :: "llState \<Rightarrow> aqState \<Rightarrow> bool" where
  "simrel \<equiv> rel_prod models (rel_option models)"

section \<open>The linked list simulates runs of the abstract queue\<close>

lemma models_count: "models ll q \<Longrightarrow> ccount (Amount ll) = amount q" "models ll q \<Longrightarrow> cap ll = acap q"
  by (auto simp: models_def)

lemma UnlockAndEmptyBatch_no_ids:
  assumes "models ll q" "items q \<noteq> []"
  shows "UnlockAndEmptyBatch ll c [] = Some (Some CouldNotAckAll, ll)"
proof -
  have "0 \<le> ccount (Amount ll)" using assms by (auto simp: models_def)
  moreover obtain h where "Head ll = Some h" using models_Nil_iff[OF assms(1)] assms(2) by auto
  ultimately show ?thesis
    by (simp add: UnlockAndEmptyBatch_def Value_def UnlockAndEmptyBatch_loop_simps byteSliceExists_def)
qed

lemma UnlockAndEmptyBatch_step:
  assumes m: "models ll q" and a: "aqBatchAckStep q c ids = Some (e, q')"
  shows "\<exists>ll'. UnlockAndEmptyBatch ll c ids = Some (e, ll') \<and> models ll' q'"
proof -
  consider "items q = []" | "items q \<noteq> []" "ids = []" | "items q \<noteq> []" "length ids = 1"
    | "items q \<noteq> []" "1 < length ids" by (metis length_0_conv less_one linorder_neqE_nat)
  then show ?thesis
  proof cases
    case 1
    with m a models_Nil_iff[OF m] show ?thesis by (auto simp: UnlockAndEmptyBatch_def aqBatchAckStep_def)
  next
    case 2
    have "0 \<le> amount q" using m by (auto simp: models_def)
    with 2 m a UnlockAndEmptyBatch_no_ids[OF m, of c] show ?thesis by (simp add: aqBatchAckStep_def ackable_def)
  next
    case 3
    then have "Head ll \<noteq> None" using models_Nil_iff[OF m] by auto
    with 3 have "UnlockAndEmptyBatch ll c ids = UnlockAndEmpty ll c (ids ! 0)"
      by (auto simp: UnlockAndEmptyBatch_def UnlockAndEmpty_def)
    with UnlockAndEmpty_models[OF m, of c "ids ! 0"] a 3 show ?thesis by (auto simp: aqBatchAckStep_def)
  next
    case 4
    then have ids: "length ids \<noteq> 1" by auto
    show ?thesis
    proof (cases "amount q < int (length ids)")
      case True
      with 4 ids a m models_Nil_iff[OF m] models_count[OF m] show ?thesis
        by (auto simp: UnlockAndEmptyBatch_def Value_def aqBatchAckStep_def)
    next
      case False
      with UnlockAndEmptyBatch_cases[OF m 4, of c] a 4 ids show ?thesis
        by (auto simp: aqBatchAckStep_def split: if_splits)
    qed
  qed
qed

lemma BatchUnlock_step:
  assumes m: "models ll q" and a: "aqBatchNackStep q ids = Some (e, q')"
  shows "\<exists>ll'. BatchUnlock ll d c ids = Some (e, ll', d) \<and> models ll' q'"
proof -
  consider "items q = []" | "items q \<noteq> []" "amount q < int (length ids)"
    | "items q \<noteq> []" "int (length ids) \<le> amount q" by linarith
  then show ?thesis
  proof cases
    case 1
    with m a models_Nil_iff[OF m] show ?thesis by (auto simp: BatchUnlock_def aqBatchNackStep_def)
  next
    case 2
    then obtain h where "Head ll = Some h" using models_Nil_iff[OF m] by auto
    with 2 m a models_count[OF m] show ?thesis by (auto simp: BatchUnlock_def aqBatchNackStep_def Value_def)
  next
    case 3
    with BatchUnlock_refused[OF m 3(2,1), of d c] BatchUnlock_models[OF m 3(2), of d c] a m show ?thesis
      by (auto simp: aqBatchNackStep_def not_less split: if_splits)
  qed
qed

lemma llStep_simulates:
  assumes "simrel s t" "aqStep t x = Some (ob, t')"
  shows "\<exists>s'. llStep s x = Some (ob, s') \<and> simrel s' t'"
proof -
  obtain ll d q qd where st: "s = (ll, d)" "t = (q, qd)" and m: "models ll q"
    and md: "rel_option models d qd" using assms(1) by (cases s; cases t) auto
  show ?thesis
  proof (cases x)
    case (OpEnqueue i v)
    with Enqueue_models[OF m, of i v] assms(2) md st show ?thesis by auto
  next
    case (OpBatchEnqueue ms)
    with BatchEnqueue_models[OF m, of ms] assms(2) md st show ?thesis by auto
  next
    case (OpDequeue n c now)
    with Dequeue_models[OF m, of n c now] assms(2) md st show ?thesis by auto
  next
    case (OpAck c i)
    with UnlockAndEmpty_models[OF m, of c i] assms(2) md st show ?thesis by auto
  next
    case (OpBatchAck c ids)
    with assms(2) st obtain e q' where a: "aqBatchAckStep q c ids = Some (e, q')" "ob = SeesError e" "t' = (q', qd)" by auto
    with UnlockAndEmptyBatch_step[OF m a(1)] OpBatchAck md st show ?thesis by auto
  next
    case (OpNack c i)
    with assms(2) st obtain ok where "aqNack q qd c i = Some (ok, t')" "ob = SeesBool ok" by auto
    with Unlock_models[OF m md, of c i] OpNack st show ?thesis
      by (auto simp: option_rel_Some2 rel_prod_sel)
  next
    case (OpBatchNack c ids)
    with assms(2) st obtain e q' where a: "aqBatchNackStep q ids = Some (e, q')" "ob = SeesError e" "t' = (q', qd)" by auto
    with BatchUnlock_step[OF m a(1), of d c] OpBatchNack md st show ?thesis by auto
  next
    case (OpUnlockAll c)
    with UnlockAllFromConsumer_models[OF m, of c] assms(2) md st show ?thesis by auto
  qed (use assms(2) m md st models_Nil_iff[OF m] models_count[OF m] in
      \<open>auto simp: IsEmpty_def IsFull_def aqFull_def Capacity_def Size_def Value_def\<close>)
qed

lemma llRun_simulates:
  "simrel s t \<Longrightarrow> aqRun t xs = Some (obs, t') \<Longrightarrow> \<exists>s'. llRun s xs = Some (obs, s') \<and> simrel s' t'"
proof (induction xs arbitrary: s t obs)
  case (Cons x xs)
  from Cons.prems(2) obtain ob t1 obs1 where
    t1: "aqStep t x = Some (ob, t1)" "aqRun t1 xs = Some (obs1, t')" "obs = ob # obs1"
    by (auto simp: bind_Some_iff)
  from llStep_simulates[OF Cons.prems(1) t1(1)] Cons.IH[OF _ t1(2)] t1(3) show ?case by fastforce
qed simp

section \<open>A lock holds until its time to live is over\<close>

text \<open>
  \<open>foreign e ttl x\<close>: operation \<open>x\<close> is made by a consumer other than the holder of \<open>e\<close>; if it is a fetch,
  then before the lock of \<open>e\<close> expires; and if it is a negative batch acknowledgement, which does not look at
  the consumer, then it does not name \<open>e\<close>.
\<close>

fun foreign :: "entry \<Rightarrow> i64 \<Rightarrow> qop \<Rightarrow> bool" where
  "foreign e ttl (OpDequeue n c now) \<longleftrightarrow> c \<noteq> eowner e \<and> sint (now - etime e) \<le> sint ttl"
| "foreign e ttl (OpAck c i) \<longleftrightarrow> c \<noteq> eowner e"
| "foreign e ttl (OpBatchAck c ids) \<longleftrightarrow> c \<noteq> eowner e"
| "foreign e ttl (OpNack c i) \<longleftrightarrow> c \<noteq> eowner e"
| "foreign e ttl (OpBatchNack c ids) \<longleftrightarrow> c \<noteq> eowner e \<and> eid e \<notin> set ids"
| "foreign e ttl (OpUnlockAll c) \<longleftrightarrow> c \<noteq> eowner e"
| "foreign e ttl _ \<longleftrightarrow> True"

lemma grab_keeps: "x \<in> set xs \<Longrightarrow> \<not> P x \<Longrightarrow> x \<in> set (snd (grab P f n xs))"
  by (induction P f n xs rule: grab.induct) auto

lemma removeFirst_keeps: "x \<in> set xs \<Longrightarrow> \<not> P x \<Longrightarrow> x \<in> set (removeFirst P xs)"
  by (induction xs) auto

lemma removeFirst_keeps_other:
  "x \<in> set xs \<Longrightarrow> find P xs = Some y \<Longrightarrow> x \<noteq> y \<Longrightarrow> x \<in> set (removeFirst P xs)"
  by (induction xs) (auto split: if_splits)

lemma updateFirst_keeps_other:
  "x \<in> set xs \<Longrightarrow> find P xs = Some y \<Longrightarrow> x \<noteq> y \<Longrightarrow> x \<in> set (updateFirst P f xs)"
  by (induction xs) (auto split: if_splits)

lemma dropFirst_keeps: "x \<in> set xs \<Longrightarrow> \<not> P x \<Longrightarrow> x \<in> set (dropFirst P n xs)"
  by (induction P n xs rule: dropFirst.induct) auto

lemma aqAck_keeps:
  "e \<in> set (items q) \<Longrightarrow> eowner e \<noteq> c \<Longrightarrow> e \<in> set (items (snd (aqAck q c i)))"
  by (auto simp: aqAck_def heldAs_def intro!: removeFirst_keeps)

lemma aqBatchAck_keeps:
  "e \<in> set (items q) \<Longrightarrow> eowner e \<noteq> c \<Longrightarrow> e \<in> set (items (aqBatchAck q c ids))"
  by (auto simp: aqBatchAck_def ackable_def intro!: dropFirst_keeps)

lemma aqBatchAckStep_keeps:
  "aqBatchAckStep q c ids = Some (er, q') \<Longrightarrow> e \<in> set (items q) \<Longrightarrow> eowner e \<noteq> c \<Longrightarrow> e \<in> set (items q') \<and> attl q' = attl q"
  using aqAck_keeps[of e q c "ids ! 0"] aqBatchAck_keeps[of e q c ids]
  by (auto simp: aqBatchAckStep_def aqAck_def aqBatchAck_def split: if_splits)

lemma aqBatchNackStep_keeps:
  "aqBatchNackStep q ids = Some (er, q') \<Longrightarrow> e \<in> set (items q) \<Longrightarrow> eid e \<notin> set ids \<Longrightarrow> e \<in> set (items q') \<and> attl q' = attl q"
  by (auto simp: aqBatchNackStep_def aqBatchNack_def split: if_splits intro: grab_keeps)

lemma ack_ttl [simp]:
  "attl (snd (aqAck q c i)) = attl q" "attl (aqBatchAck q c ids) = attl q"
  by (simp_all add: aqAck_def aqBatchAck_def)

lemma aqNack_keeps:
  assumes "e \<in> set (items q)" "eowner e \<noteq> c" "aqNack q d c i = Some (b, q', d')"
  shows "e \<in> set (items q')"
proof -
  have "e' \<noteq> e" if "eowner e' = c" for e' using assms(2) that by auto
  with assms show ?thesis
    by (auto simp: aqNack_def bind_Some_iff split: option.splits if_splits
        intro!: removeFirst_keeps_other updateFirst_keeps_other)
qed

lemma aqStep_keeps_lock:
  assumes "aqStep (q, d) x = Some (ob, q', d')" "e \<in> set (items q)" "eowner e \<noteq> NO_CONSUMER"
    and "foreign e (attl q) x"
  shows "e \<in> set (items q') \<and> attl q' = attl q"
proof (cases x)
  case (OpDequeue n c now)
  with assms have "\<not> entryFree (attl q) c now e" by (auto simp: entryFree_def available_def)
  with assms OpDequeue show ?thesis by (auto simp: aqDequeue_def intro: grab_keeps)
next
  case (OpNack c i)
  with assms(1) obtain b where n: "aqNack q d c i = Some (b, q', d')"
    by (auto simp: bind_Some_iff)
  have ne: "eowner e \<noteq> c" using assms(4) unfolding OpNack foreign.simps by metis
  have "attl q' = attl q" using n
    by (auto simp: aqNack_def bind_Some_iff split: option.splits if_splits)
  with aqNack_keeps[OF assms(2) ne n] show ?thesis by simp
next
  case (OpUnlockAll c)
  with assms have "e = (if eowner e = c then e\<lparr>eowner := NO_CONSUMER\<rparr> else e)" by auto
  with assms OpUnlockAll show ?thesis by (auto simp: aqUnlockAll_def)
next
  case (OpAck c i)
  with assms aqAck_keeps[of e q c i] show ?thesis by auto
next
  case (OpBatchAck c ids)
  with assms aqBatchAckStep_keeps[of q c ids _ q' e] show ?thesis by auto
next
  case (OpBatchNack c ids)
  with assms aqBatchNackStep_keeps[of q ids _ q' e] show ?thesis by auto
qed (use assms in \<open>auto simp: aqEnqueue_def aqBatchEnqueue_def split: if_splits\<close>)

lemma aqRun_keeps_lock:
  assumes "aqRun (q, d) xs = Some (obs, q', d')" "e \<in> set (items q)" "eowner e \<noteq> NO_CONSUMER"
    and "\<forall>x\<in>set xs. foreign e (attl q) x"
  shows "e \<in> set (items q')"
  using assms
proof (induction xs arbitrary: q d obs)
  case (Cons x xs)
  then obtain ob obs1 q1 d1 where s: "aqStep (q, d) x = Some (ob, q1, d1)" "aqRun (q1, d1) xs = Some (obs1, q', d')"
    by (auto simp: bind_Some_iff)
  from aqStep_keeps_lock[OF s(1)] Cons.prems have "e \<in> set (items q1)" "attl q1 = attl q" by auto
  with Cons.IH[OF s(2)] Cons.prems show ?case by auto
qed simp

section \<open>The message count\<close>

text \<open>
  Without batch insertions the count never passes the capacity; without batch acknowledgements the
  count is the number of messages.
\<close>

fun isBatch :: "qop \<Rightarrow> bool" where
  "isBatch (OpBatchEnqueue ms) = True"
| "isBatch (OpBatchAck c ids) = True"
| "isBatch (OpBatchNack c ids) = True"
| "isBatch _ = False"

definition exact :: "aqueue \<Rightarrow> bool" where
  "exact q \<longleftrightarrow> amount q = int (length (items q)) \<and> amount q \<le> uint (acap q)"

lemma exact_new: "exact (newAq sz limit ttl dl)"
  by (simp add: exact_def newAq_def)

lemma find_length_removeFirst:
  "find P xs = Some y \<Longrightarrow> Suc (length (removeFirst P xs)) = length xs"
  by (induction xs) (auto split: if_splits)

lemma aqStep_exact:
  assumes "aqStep (q, d) x = Some (ob, q', d')" "exact q" "\<not> isBatch x"
  shows "exact q' \<and> acap q' = acap q"
proof (cases x)
  case (OpAck c i)
  with assms length_removeFirst[of "items q" "heldAs c i"] show ?thesis
    by (auto simp: aqAck_def exact_def split: if_splits)
next
  case (OpNack c i)
  with assms find_length_removeFirst[of "\<lambda>e. eid e = i" "items q"] show ?thesis
    by (fastforce simp: aqNack_def exact_def bind_Some_iff split: option.splits if_splits)
qed (use assms in \<open>auto simp: exact_def aqEnqueue_def aqFull_def aqUnlockAll_def\<close>)

lemma aqRun_exact:
  "aqRun (q, d) xs = Some (obs, q', d') \<Longrightarrow> exact q \<Longrightarrow> \<forall>x\<in>set xs. \<not> isBatch x \<Longrightarrow>
   exact q' \<and> acap q' = acap q"
proof (induction xs arbitrary: q d obs)
  case (Cons x xs)
  then obtain ob obs1 q1 d1 where s: "aqStep (q, d) x = Some (ob, q1, d1)" "aqRun (q1, d1) xs = Some (obs1, q', d')"
    by (auto simp: bind_Some_iff)
  with aqStep_exact[OF s(1)] Cons.IH[OF s(2)] Cons.prems show ?case by auto
qed simp

end
