(* ===== verification/QueueProperties.thy ===== *)
theory QueueProperties
  imports QueueRuns
begin

text \<open>
  The properties of a single queue, over the linked list of \<open>pkg/core/LinkedList.go\<close>: refinement of the
  abstract queue along runs, exclusive delivery, order, acknowledgement, message count, dead letters,
  and the behaviour of the batch operations.
\<close>

section \<open>A concrete queue\<close>

text \<open>A queue with a dead letter queue, capacity 5, fetch limit 2 and three messages.\<close>

definition demoOps :: "qop list" where
  "demoOps = [OpEnqueue [1] [11], OpEnqueue [2] [12], OpEnqueue [3] [13]]"

definition demoLL :: LinkedList where
  "demoLL = (case llRun (NewQueue 5 2 100 (PtrQueue 1), Some (NewQueue 5 2 100 NilPtr)) demoOps of
               Some (_, ll, d) \<Rightarrow> ll | None \<Rightarrow> NewQueue 5 2 100 NilPtr)"

definition demoQ :: aqueue where
  "demoQ = \<lparr>items = [newEntry [1] [11], newEntry [2] [12], newEntry [3] [13]], amount = 3, acap = 5,
            attl = 100, alimit = 2, adl = PtrQueue 1\<rparr>"

lemma demo_start:
  "simrel (NewQueue 5 2 100 (PtrQueue 1), Some (NewQueue 5 2 100 NilPtr))
     (newAq 5 2 100 (PtrQueue 1), Some (newAq 5 2 100 NilPtr))"
  by (simp add: NewQueue_models)

lemma demo_run:
  "aqRun (newAq 5 2 100 (PtrQueue 1), Some (newAq 5 2 100 NilPtr)) demoOps =
     Some ([SeesNothing, SeesNothing, SeesNothing], demoQ, Some (newAq 5 2 100 NilPtr))"
  by code_simp

lemma demo_models: "models demoLL demoQ"
  using llRun_simulates[OF demo_start demo_run] by (auto simp: demoLL_def)

section \<open>Runs\<close>

text \<open>
  C2: Refinement. Whatever sequence of operations the abstract queue accepts, on a new queue with a dead letter
  queue, the linked list executes it without a panic or an endless loop, and returns the same in every
  operation: the messages of a fetch, the error of an acknowledgement, the flag of a negative one, and the
  answers about emptiness, fullness, capacity and size. Afterwards both lists hold exactly the entries of the
  abstract queues, in order, and the count is the abstract one. Not accepted are a batch acknowledgement that
  finds only some of its messages, and a negative batch acknowledgement of a message at the fetch limit.
\<close>

theorem queue_run_refines:
  assumes "aqRun (newAq sz limit ttl (PtrQueue d), Some (newAq sz limit ttl NilPtr)) ops = Some (obs, q', Some dq')"
  shows "\<exists>ll' dl'. llRun (NewQueue sz limit ttl (PtrQueue d), Some (NewQueue sz limit ttl NilPtr)) ops =
      Some (obs, ll', Some dl') \<and> contents ll' = Some (items q') \<and> contents dl' = Some (items dq') \<and>
      Value (Amount ll') = amount q'"
proof -
  have start: "simrel (NewQueue sz limit ttl (PtrQueue d), Some (NewQueue sz limit ttl NilPtr))
      (newAq sz limit ttl (PtrQueue d), Some (newAq sz limit ttl NilPtr))" by (simp add: NewQueue_models)
  from llRun_simulates[OF start assms] obtain ll' dl' where
    "llRun (NewQueue sz limit ttl (PtrQueue d), Some (NewQueue sz limit ttl NilPtr)) ops = Some (obs, ll', Some dl')"
    and m: "models ll' q'" "models dl' dq'" by (auto simp: option.rel_sel)
  moreover have "Value (Amount ll') = amount q'" using models_count(1)[OF m(1)] by (simp add: Value_def)
  ultimately show ?thesis using models_contents by blast
qed

text \<open>Witness for C2: fetch, two negative acknowledgements up to the limit, an acknowledgement, the size.\<close>

theorem queue_run_refines_witness:
  "\<exists>ll' dl'. llRun (NewQueue 5 2 100 (PtrQueue 1), Some (NewQueue 5 2 100 NilPtr))
      (demoOps @ [OpDequeue 2 [7] 50, OpNack [7] [1], OpDequeue 1 [8] 60, OpNack [8] [1], OpAck [7] [2], OpSize]) =
      Some ([SeesNothing, SeesNothing, SeesNothing, SeesMessages [[11], [12]] [[1], [2]], SeesBool True,
             SeesMessages [[11]] [[1]], SeesBool True, SeesError None, SeesNumber 1], ll', Some dl') \<and>
      contents ll' = Some [newEntry [3] [13]] \<and>
      contents dl' = Some [newEntry [1] [11]] \<and> Value (Amount ll') = 1"
proof -
  have "aqRun (newAq 5 2 100 (PtrQueue 1), Some (newAq 5 2 100 NilPtr))
      (demoOps @ [OpDequeue 2 [7] 50, OpNack [7] [1], OpDequeue 1 [8] 60, OpNack [8] [1], OpAck [7] [2], OpSize]) =
    Some ([SeesNothing, SeesNothing, SeesNothing, SeesMessages [[11], [12]] [[1], [2]], SeesBool True,
           SeesMessages [[11]] [[1]], SeesBool True, SeesError None, SeesNumber 1],
      (newAq 5 2 100 (PtrQueue 1))\<lparr>items := [newEntry [3] [13]], amount := 1\<rparr>,
      Some ((newAq 5 2 100 NilPtr)\<lparr>items := [newEntry [1] [11]], amount := 1\<rparr>))" by code_simp
  from queue_run_refines[OF this] show ?thesis by simp
qed

text \<open>
  C3: Exclusive delivery. In a queue with distinct identifiers, two fetches by different consumers, one
  directly after the other and within the time to live of a lock, both return, and no message is in both.
\<close>

theorem exclusive_delivery_ll:
  assumes "models ll q" "distinct (map eid (items q))" "c \<noteq> NO_CONSUMER" "c' \<noteq> c"
    and "sint (now' - now) \<le> sint (nodeTTL ll)"
  shows "\<exists>vs ids ll1 vs' ids' ll2. Dequeue ll n c now = Some (vs, ids, ll1) \<and>
    Dequeue ll1 n' c' now' = Some (vs', ids', ll2) \<and> set ids \<inter> set ids' = {}"
proof -
  have "nodeTTL ll = attl q" using assms(1) by (auto simp: models_def)
  with llq.exclusive_delivery[OF assms(1-4)] assms(5) show ?thesis by simp
qed

theorem exclusive_delivery_ll_witness:
  "\<exists>vs ids ll1 vs' ids' ll2. Dequeue demoLL 2 [7] 50 = Some (vs, ids, ll1) \<and>
    Dequeue ll1 5 [8] 100 = Some (vs', ids', ll2) \<and> set ids \<inter> set ids' = {}"
proof -
  have "distinct (map eid (items demoQ))" by (simp add: demoQ_def newEntry_def)
  moreover have "sint (100 - 50 :: i64) \<le> sint (nodeTTL demoLL)" by code_simp
  ultimately show ?thesis
    using exclusive_delivery_ll[OF demo_models, of "[7]" "[8]" 100 50 2 5] by (simp add: NO_CONSUMER_def)
qed

text \<open>
  C5: A locked message stays. A message that a consumer holds is still in the list, unchanged, after any run
  of insertions and of fetches, acknowledgements and negative acknowledgements by other consumers, as long as
  their fetches come before the lock expires and no negative batch acknowledgement names the message: that
  one would unlock it, whoever holds it. A batch acknowledgement in the run finds all its messages or none, and
  a negative batch acknowledgement names none at the fetch limit; the abstract queue has no step for the others.
\<close>

theorem locked_message_stays:
  assumes "models ll q" "rel_option models dl d" "aqRun (q, d) ops = Some (obs, q', d')"
    and "e \<in> set (items q)" "eowner e \<noteq> NO_CONSUMER" "\<forall>x\<in>set ops. foreign e (attl q) x"
  shows "\<exists>ll' dl' es. llRun (ll, dl) ops = Some (obs, ll', dl') \<and> contents ll' = Some es \<and> e \<in> set es"
proof -
  from llRun_simulates[OF _ assms(3), of "(ll, dl)"] assms(1,2) obtain ll' dl' where
    "llRun (ll, dl) ops = Some (obs, ll', dl')" "models ll' q'" by auto
  with aqRun_keeps_lock[OF assms(3-6)] models_contents show ?thesis by blast
qed

text \<open>A state of the queue in which consumer 7 holds the first message since time 50.\<close>

definition demoLocked :: aqueue where
  "demoLocked = aqDequeue demoQ 1 [7] 50"

lemma demoLocked_models: "\<exists>ll. models ll demoLocked"
  using Dequeue_models[OF demo_models, of 1 "[7]" 50] by (auto simp: demoLocked_def)

theorem locked_message_stays_witness:
  "\<exists>ll. models ll demoLocked \<and> (\<exists>obs ll' dl' es.
     llRun (ll, None) [OpAck [8] [1], OpNack [8] [1], OpDequeue 3 [8] 120, OpBatchNack [8] [[3]], OpAck [8] [2]] =
       Some (obs, ll', dl') \<and>
     contents ll' = Some es \<and> (newEntry [1] [11])\<lparr>eowner := [7], etime := 50\<rparr> \<in> set es)"
proof -
  let ?e = "(newEntry [1] [11])\<lparr>eowner := [7], etime := 50\<rparr>"
  let ?ops = "[OpAck [8] [1], OpNack [8] [1], OpDequeue 3 [8] 120, OpBatchNack [8] [[3]], OpAck [8] [2]]"
  obtain ll where ll: "models ll demoLocked" using demoLocked_models by blast
  have run: "aqRun (demoLocked, None) ?ops \<noteq> None" by code_simp
  then obtain obs q' d' where r: "aqRun (demoLocked, None) ?ops = Some (obs, q', d')" by auto
  have "?e \<in> set (items demoLocked)" by code_simp
  moreover have "\<forall>x\<in>set ?ops. foreign ?e (attl demoLocked) x" by code_simp
  ultimately have "\<exists>ll' dl' es. llRun (ll, None) ?ops = Some (obs, ll', dl') \<and> contents ll' = Some es \<and> ?e \<in> set es"
    by (intro locked_message_stays[OF ll _ r]) (simp_all add: NO_CONSUMER_def)
  with ll show ?thesis by blast
qed

section \<open>Order, acknowledgement and count\<close>

text \<open>
  C6: First in, first out. After messages are put into a new queue that has room for them, a fetch of
  \<open>n\<close> returns the first \<open>n\<close> of them, with their identifiers, in the order of insertion.
\<close>

theorem fetch_in_order:
  assumes "int (length ms) \<le> uint sz"
  shows "\<exists>ll ll'. fold (\<lambda>m x. do { y \<leftarrow> x; Enqueue y (fst m) (snd m) }) ms (Some (NewQueue sz limit ttl dl)) = Some ll \<and>
    Dequeue ll n c now = Some (map snd (take (unat n) ms), map fst (take (unat n) ms), ll')"
  using llq.fifo[OF assms] .

theorem fetch_in_order_witness:
  "\<exists>ll ll'. fold (\<lambda>m x. do { y \<leftarrow> x; Enqueue y (fst m) (snd m) }) [([1], [11]), ([2], [12]), ([3], [13])]
      (Some (NewQueue 3 1 100 NilPtr)) = Some ll \<and>
    Dequeue ll 2 [7] 50 = Some ([[11], [12]], [[1], [2]], ll')"
  using fetch_in_order[of "[([1], [11]), ([2], [12]), ([3], [13])]" 3 1 100 NilPtr 2 "[7]" 50] by simp

text \<open>
  C7: An acknowledged message is gone. In a queue with distinct identifiers, the fetch that follows a
  successful acknowledgement, by any consumer at any time, does not return its identifier.
\<close>

theorem acknowledged_gone:
  assumes "models ll q" "distinct (map eid (items q))" "UnlockAndEmpty ll c i = Some (None, ll')"
  shows "\<exists>vs ids ll''. Dequeue ll' n c' now = Some (vs, ids, ll'') \<and> i \<notin> set ids"
  using llq.acked_gone[OF assms] .

theorem acknowledged_gone_witness:
  "\<exists>ll ll' vs ids ll''. models ll demoLocked \<and> UnlockAndEmpty ll [7] [1] = Some (None, ll') \<and>
     Dequeue ll' 5 [8] 500 = Some (vs, ids, ll'') \<and> [1] \<notin> set ids"
proof -
  obtain ll where ll: "models ll demoLocked" using demoLocked_models by blast
  have d: "distinct (map eid (items demoLocked))" by (simp add: demoLocked_def demoQ_def newEntry_def)
  have "fst (aqAck demoLocked [7] [1]) = None" by code_simp
  with UnlockAndEmpty_models[OF ll, of "[7]" "[1]"] obtain ll' where "UnlockAndEmpty ll [7] [1] = Some (None, ll')"
    by auto
  with acknowledged_gone[OF ll d this, of 5 "[8]" 500] ll show ?thesis by blast
qed

text \<open>
  The count. Along any run without batch operations the count of the list is the number of its
  messages and never passes the capacity.
\<close>

theorem count_exact:
  assumes "aqRun (newAq sz limit ttl dl, d) ops = Some (obs, q', d')" "rel_option models ld d"
    and "\<forall>x\<in>set ops. \<not> isBatch x"
  shows "\<exists>ll' ld' es. llRun (NewQueue sz limit ttl dl, ld) ops = Some (obs, ll', ld') \<and> contents ll' = Some es \<and>
    Value (Amount ll') = int (length es) \<and> int (length es) \<le> uint sz"
proof -
  from llRun_simulates[OF _ assms(1), of "(NewQueue sz limit ttl dl, ld)"] NewQueue_models assms(2)
  obtain ll' ld' where r: "llRun (NewQueue sz limit ttl dl, ld) ops = Some (obs, ll', ld')" "models ll' q'" by auto
  have "exact q' \<and> acap q' = sz"
    using aqRun_exact[OF assms(1) exact_new assms(3)] by (simp add: newAq_def)
  moreover have "Value (Amount ll') = amount q'" using r(2) by (auto simp: models_def Value_def)
  ultimately show ?thesis using r(1) models_contents[OF r(2)] by (auto simp: exact_def)
qed

theorem count_exact_witness:
  "\<exists>obs ll' ld' es. llRun (NewQueue 2 3 100 NilPtr, None)
      [OpEnqueue [1] [11], OpEnqueue [2] [12], OpEnqueue [3] [13], OpDequeue 1 [7] 50, OpAck [7] [1]] =
      Some (obs, ll', ld') \<and> contents ll' = Some es \<and> Value (Amount ll') = int (length es) \<and> int (length es) \<le> uint (2 :: u32)"
proof -
  let ?ops = "[OpEnqueue [1] [11], OpEnqueue [2] [12], OpEnqueue [3] [13], OpDequeue 1 [7] 50, OpAck [7] [1]]"
  have "aqRun (newAq 2 3 100 NilPtr, None) ?ops \<noteq> None" by simp
  then obtain obs q' d' where r: "aqRun (newAq 2 3 100 NilPtr, None) ?ops = Some (obs, q', d')" by auto
  show ?thesis by (rule exI[of _ obs], rule count_exact[OF r]) simp_all
qed

section \<open>Negative acknowledgement\<close>

text \<open>
  C9: Negative acknowledgement of the message a consumer holds, when its identifier is the first of its
  kind in the list. Below the fetch limit the message stays at its place, unlocked, with its fetch
  count raised. At the limit it leaves the queue, the count goes down, and it is put at the end of
  the dead letter queue, unless that is full.
\<close>

theorem nack_moves_to_dead_letter:
  assumes "models ll q" "models dl d" "adl q = PtrQueue k"
    and "items q = es @ e # fs" "\<forall>x\<in>set es. eid x \<noteq> eid e" "eowner e = c"
  shows "if alimit q \<le> efetched e + 1
    then \<exists>ll' dl'. Unlock ll (Some dl) c (eid e) = Some (True, ll', Some dl') \<and>
      contents ll' = Some (es @ fs) \<and> Value (Amount ll') = amount q - 1 \<and>
      contents dl' = Some (if aqFull d then items d else items d @ [newEntry (eid e) (evalue e)])
    else \<exists>ll' dl'. Unlock ll (Some dl) c (eid e) = Some (True, ll', Some dl') \<and>
      contents ll' = Some (es @ e\<lparr>eowner := NO_CONSUMER, efetched := efetched e + 1\<rparr> # fs) \<and>
      Value (Amount ll') = amount q \<and> contents dl' = Some (items d)"
proof -
  have no: "\<forall>x\<in>set es. \<not> eid x = eid e" using assms(5) by simp
  note find = find_split[OF no refl, of fs] updateFirst_split[OF no refl, of _ fs] removeFirst_split[OF no refl, of fs]
  have sim: "rel_option (rel_prod (=) (rel_prod models (rel_option models)))
      (Unlock ll (Some dl) c (eid e)) (aqNack q (Some d) c (eid e))"
    using Unlock_models[OF assms(1), of "Some dl" "Some d"] assms(2) by simp
  have amt: "Value (Amount x) = amount y" if "models x y" for x y
    using that by (auto simp: models_def Value_def)
  show ?thesis
  proof (cases "alimit q \<le> efetched e + 1")
    case True
    have "aqNack q (Some d) c (eid e) = Some (True, q\<lparr>items := es @ fs, amount := amount q - 1\<rparr>,
        Some (aqEnqueue d (eid e) (evalue e)))"
      using True assms(3,4,6) find by (simp add: aqNack_def aqDeadLetter_def)
    with sim obtain ll' dl' where u: "Unlock ll (Some dl) c (eid e) = Some (True, ll', Some dl')"
      "models ll' (q\<lparr>items := es @ fs, amount := amount q - 1\<rparr>)"
      "models dl' (aqEnqueue d (eid e) (evalue e))" by (auto simp: rel_option_Some_right)
    from True u(1) models_contents[OF u(2)] models_contents[OF u(3)] amt[OF u(2)] show ?thesis
      by (simp add: aqEnqueue_def)
  next
    case False
    have "aqNack q (Some d) c (eid e) = Some (True, q\<lparr>items := es @ releaseEntry e # fs\<rparr>, Some d)"
      using False assms(3,4,6) find by (simp add: aqNack_def)
    with sim obtain ll' dl' where u: "Unlock ll (Some dl) c (eid e) = Some (True, ll', Some dl')"
      "models ll' (q\<lparr>items := es @ releaseEntry e # fs\<rparr>)" "models dl' d" by (auto simp: rel_option_Some_right)
    from False u(1) models_contents[OF u(2)] models_contents[OF u(3)] amt[OF u(2)] show ?thesis
      by (simp add: releaseEntry_def)
  qed
qed

text \<open>
  Witness for C9: consumer 7 has fetched the first message, given it back and fetched it again; with
  fetch limit 2 the next negative acknowledgement moves it.
\<close>

definition demoTwice :: aqueue where
  "demoTwice = demoQ\<lparr>items := (newEntry [1] [11])\<lparr>eowner := [7], etime := 60, efetched := 1\<rparr> #
                               [newEntry [2] [12], newEntry [3] [13]]\<rparr>"

lemma demoTwice_models: "\<exists>ll dl. models ll demoTwice \<and> models dl (newAq 5 2 100 NilPtr)"
proof -
  have "aqRun (demoQ, Some (newAq 5 2 100 NilPtr)) [OpDequeue 1 [7] 50, OpNack [7] [1], OpDequeue 1 [7] 60] =
      Some ([SeesMessages [[11]] [[1]], SeesBool True, SeesMessages [[11]] [[1]]], demoTwice, Some (newAq 5 2 100 NilPtr))" by code_simp
  moreover have "simrel (demoLL, Some (NewQueue 5 2 100 NilPtr)) (demoQ, Some (newAq 5 2 100 NilPtr))"
    by (simp add: NewQueue_models demo_models)
  ultimately obtain s' where "simrel s' (demoTwice, Some (newAq 5 2 100 NilPtr))"
    using llRun_simulates by blast
  then show ?thesis by (cases s') (auto simp: rel_option_Some_right)
qed

theorem nack_moves_to_dead_letter_witness:
  "\<exists>ll dl ll' dl'. models ll demoTwice \<and> models dl (newAq 5 2 100 NilPtr) \<and>
     Unlock ll (Some dl) [7] [1] = Some (True, ll', Some dl') \<and>
     contents ll' = Some [newEntry [2] [12], newEntry [3] [13]] \<and> Value (Amount ll') = 2 \<and>
     contents dl' = Some [newEntry [1] [11]]"
proof -
  obtain ll dl where m: "models ll demoTwice" "models dl (newAq 5 2 100 NilPtr)" using demoTwice_models by blast
  from nack_moves_to_dead_letter[OF m, of 1 "[]" "(newEntry [1] [11])\<lparr>eowner := [7], etime := 60, efetched := 1\<rparr>"
      "[newEntry [2] [12], newEntry [3] [13]]" "[7]"]
  have "\<exists>ll' dl'. Unlock ll (Some dl) [7] [1] = Some (True, ll', Some dl') \<and>
      contents ll' = Some [newEntry [2] [12], newEntry [3] [13]] \<and> Value (Amount ll') = 2 \<and>
      contents dl' = Some [newEntry [1] [11]]"
    by (simp add: demoTwice_def demoQ_def newAq_def aqFull_def newEntry_def)
  with m show ?thesis by blast
qed

section \<open>Batch operations\<close>



text \<open>
  C11: A negative batch acknowledgement below the fetch limit unlocks the first messages with the given
  identifiers, whoever holds them, raises their fetch counts, and leaves the rest of the queue, the
  dead letter queue and the count alone.
\<close>

theorem batch_nack_below_limit:
  assumes "models ll q" "ids \<noteq> []" "int (length ids) \<le> amount q"
    and "length ids \<le> length (filter (\<lambda>e. eid e \<in> set ids) (items q))"
    and "\<forall>e\<in>set (items q). eid e \<in> set ids \<longrightarrow> \<not> alimit q \<le> efetched e + 1"
  shows "\<exists>ll'. BatchUnlock ll dl c ids = Some (None, ll', dl) \<and>
    contents ll' = Some (snd (grab (\<lambda>e. eid e \<in> set ids) releaseEntry (length ids) (items q))) \<and>
    Value (Amount ll') = Value (Amount ll)"
proof -
  from BatchUnlock_models[OF assms(1,3,4,2,5)] obtain ll' where
    u: "BatchUnlock ll dl c ids = Some (None, ll', dl)" "models ll' (aqBatchNack q ids)" by blast
  have "Value (Amount ll') = Value (Amount ll)"
    using u(2) assms(1) by (auto simp: models_def aqBatchNack_def absOf_def Value_def)
  with u(1) models_contents[OF u(2)] show ?thesis by (simp add: aqBatchNack_def)
qed

theorem batch_nack_below_limit_witness:
  "\<exists>ll'. BatchUnlock demoLL None [9] [[3], [1]] = Some (None, ll', None) \<and>
     map_option (map (\<lambda>e. (eid e, efetched e))) (contents ll') = Some [([1], 1), ([2], 0), ([3], 1)] \<and>
     Value (Amount ll') = Value (Amount demoLL)"
proof -
  have "int (length [[3], [1] :: bytes]) \<le> amount demoQ"
    "length [[3], [1] :: bytes] \<le> length (filter (\<lambda>e. eid e \<in> set [[3], [1]]) (items demoQ))"
    "\<forall>e\<in>set (items demoQ). eid e \<in> set [[3], [1]] \<longrightarrow> \<not> alimit demoQ \<le> efetched e + 1"
    "map (\<lambda>e. (eid e, efetched e)) (snd (grab (\<lambda>e. eid e \<in> set [[3], [1]]) releaseEntry
      (length [[3], [1] :: bytes]) (items demoQ))) = [([1], 1), ([2], 0), ([3], 1)]"
    by code_simp+
  with batch_nack_below_limit[OF demo_models, of "[[3], [1]]" None "[9]"] show ?thesis by force
qed

text \<open>
  At the fetch limit a negative batch acknowledgement loses messages. The loop that collects the
  nodes never moves \<open>prev\<close> past the head, so the unlinked node's successor is attached to the head: in
  a queue of three messages with fetch limit 1, giving back the third one removes the second one as
  well, although nobody acknowledged it; the count says two.
\<close>

theorem batch_nack_loses_message:
  "(do { (obs, ll, d) \<leftarrow> llRun (NewQueue 10 1 100 NilPtr, None) (demoOps @ [OpDequeue 3 [7] 50]);
         (e, ll', d') \<leftarrow> BatchUnlock ll None [7] [[3]];
         es \<leftarrow> contents ll';
         Some (e, map eid es, Value (Amount ll')) }) = Some (None, [[1]], 2)"
  by code_simp

text \<open>
  A batch acknowledgement that finds only some of its messages reports an error, and puts the
  first message back behind the second without moving \<open>Tail\<close>: the next message that is enqueued
  overwrites the link, and the message that was to be kept is lost.
\<close>

theorem partial_batch_ack_loses_message:
  "(do { (obs, ll, d) \<leftarrow> llRun (NewQueue 10 5 100 NilPtr, None)
           [OpEnqueue [1] [11], OpEnqueue [2] [12], OpDequeue 1 [7] 50];
         (e, ll1) \<leftarrow> UnlockAndEmptyBatch ll [7] [[1], [9]];
         es1 \<leftarrow> contents ll1;
         ll2 \<leftarrow> Enqueue ll1 [3] [13];
         es2 \<leftarrow> contents ll2;
         Some (e, map eid es1, map eid es2, Value (Amount ll2)) }) =
   Some (Some CouldNotAckAll, [[2], [1]], [[2], [3]], 3)"
  by code_simp

end
