(* ===== verification/QueueManager.thy ===== *)
theory QueueManager
  imports QueueRuns
begin

text \<open>
  The queue manager (\<open>pkg/core/QueueManager.go\<close>) and the consumer manager that forwards to it
  (\<open>pkg/core/ConsumerManager.go\<close>).

  The map of the manager holds references to queue objects, and a queue refers to its dead letter
  queue by a pointer of its own, so a dead letter queue stays reachable from its queue after its
  name was deleted or given to another queue. The model therefore keeps the queue objects in a
  list, the object \<open>i\<close> at index \<open>i\<close>, and the map gives the index of the object of a name. Objects are
  never freed. The mutex that serialises creations has no counterpart: the operations are steps.
\<close>

section \<open>State\<close>

record queueManager =
  queues :: "string \<rightharpoonup> qid"
  qobjs :: "LinkedList list"
  managerTTL :: i64

record Message =
  msgId :: bytes
  msgData :: bytes

definition NewQueueManager :: "i64 \<Rightarrow> queueManager" where
  "NewQueueManager ttl = \<lparr>queues = Map.empty, qobjs = [], managerTTL = ttl\<rparr>"

text \<open>The object that the \<open>deadLetter\<close> pointer of a queue refers to, and the two stores.\<close>

definition dlqObj :: "queueManager \<Rightarrow> qid \<Rightarrow> LinkedList option" where
  "dlqObj m i = (case deadLetter (qobjs m ! i) of PtrQueue d \<Rightarrow> Some (qobjs m ! d) | _ \<Rightarrow> None)"

definition storeQ :: "queueManager \<Rightarrow> qid \<Rightarrow> LinkedList \<Rightarrow> queueManager" where
  "storeQ m i ll = m\<lparr>qobjs := (qobjs m)[i := ll]\<rparr>"

definition storeDlq :: "queueManager \<Rightarrow> qid \<Rightarrow> LinkedList option \<Rightarrow> queueManager" where
  "storeDlq m i dl =
     (case (deadLetter (qobjs m ! i), dl) of
        (PtrQueue d, Some dl') \<Rightarrow> storeQ m d dl'
      | _ \<Rightarrow> m)"

section \<open>Operations\<close>

definition queueManager_CreateQueue ::
    "queueManager \<Rightarrow> string \<Rightarrow> u32 \<Rightarrow> u32 \<Rightarrow> bool \<Rightarrow> error option \<times> queueManager" where
  "queueManager_CreateQueue m name sz retryLimit hasDLQ =
     (if length name = 0 then (Some ErrInvalidQueueName, m)
      else if sz = 0 then (Some ErrInvalidQueueSize, m)
      else if queues m name \<noteq> None then (Some ErrQueueAlreadyExists, m)
      else
        let (dlq, m1) =
          (if hasDLQ
           then (PtrQueue (length (qobjs m)),
                 m\<lparr>qobjs := qobjs m @ [NewQueue sz retryLimit (managerTTL m) NilPtr],
                   queues := (queues m)(name @ ''-dlq'' \<mapsto> length (qobjs m))\<rparr>)
           else (PtrNil, m))
        in (None,
            m1\<lparr>qobjs := qobjs m1 @ [NewQueue sz retryLimit (managerTTL m) dlq],
               queues := (queues m1)(name \<mapsto> length (qobjs m1))\<rparr>))"

definition queueManager_AddMessage ::
    "queueManager \<Rightarrow> string \<Rightarrow> bytes \<Rightarrow> bytes \<Rightarrow> (error option \<times> queueManager) option" where
  "queueManager_AddMessage m name data i =
     (case queues m name of
        None \<Rightarrow> Some (Some ErrQueueMissing, m)
      | Some q \<Rightarrow>
          do { ll \<leftarrow> Enqueue (qobjs m ! q) i data;
               Some (None, storeQ m q ll) })"

definition queueManager_IsFull :: "queueManager \<Rightarrow> string \<Rightarrow> error + bool" where
  "queueManager_IsFull m name =
     (case queues m name of
        None \<Rightarrow> Inl ErrQueueMissing
      | Some q \<Rightarrow> Inr (IsFull (qobjs m ! q)))"

definition queueManager_GetMessage ::
    "queueManager \<Rightarrow> string \<Rightarrow> u32 \<Rightarrow> bytes \<Rightarrow> i64 \<Rightarrow> ((error + Message list) \<times> queueManager) option" where
  "queueManager_GetMessage m name n consumer now =
     (case queues m name of
        None \<Rightarrow> Some (Inl ErrQueueMissing, m)
      | Some q \<Rightarrow>
          do { (data, ids, ll) \<leftarrow> Dequeue (qobjs m ! q) (n - 0) consumer now;
               Some (Inr (map (\<lambda>index. \<lparr>msgId = ids ! index, msgData = data ! index\<rparr>) [0..<length ids]),
                     storeQ m q ll) })"

definition queueManager_Ack ::
    "queueManager \<Rightarrow> string \<Rightarrow> bytes \<Rightarrow> bytes \<Rightarrow> (error option \<times> queueManager) option" where
  "queueManager_Ack m name consumer i =
     (case queues m name of
        None \<Rightarrow> Some (Some ErrQueueMissing, m)
      | Some q \<Rightarrow>
          do { (e, ll) \<leftarrow> UnlockAndEmpty (qobjs m ! q) consumer i;
               Some (e, storeQ m q ll) })"

definition queueManager_BatchAck ::
    "queueManager \<Rightarrow> string \<Rightarrow> bytes \<Rightarrow> bytes list \<Rightarrow> (error option \<times> queueManager) option" where
  "queueManager_BatchAck m name consumer ids =
     (case queues m name of
        None \<Rightarrow> Some (Some ErrQueueMissing, m)
      | Some q \<Rightarrow>
          do { (e, ll) \<leftarrow> UnlockAndEmptyBatch (qobjs m ! q) consumer ids;
               Some (e, storeQ m q ll) })"

definition queueManager_Nack ::
    "queueManager \<Rightarrow> string \<Rightarrow> bytes \<Rightarrow> bytes \<Rightarrow> (error option \<times> queueManager) option" where
  "queueManager_Nack m name consumer i =
     (case queues m name of
        None \<Rightarrow> Some (Some ErrQueueMissing, m)
      | Some q \<Rightarrow>
          do { (ok, ll, dl) \<leftarrow> Unlock (qobjs m ! q) (dlqObj m q) consumer i;
               Some (if \<not> ok then Some ErrFailedEmpty else None,
                     storeQ (storeDlq m q dl) q ll) })"

definition queueManager_BatchNack ::
    "queueManager \<Rightarrow> string \<Rightarrow> bytes \<Rightarrow> bytes list \<Rightarrow> (error option \<times> queueManager) option" where
  "queueManager_BatchNack m name consumer ids =
     (case queues m name of
        None \<Rightarrow> Some (Some ErrQueueMissing, m)
      | Some q \<Rightarrow>
          do { (e, ll, dl) \<leftarrow> BatchUnlock (qobjs m ! q) (dlqObj m q) consumer ids;
               Some (e, storeQ (storeDlq m q dl) q ll) })"

definition queueManager_Delete :: "queueManager \<Rightarrow> string \<Rightarrow> error option \<times> queueManager" where
  "queueManager_Delete m name =
     (if queues m name = None then (Some ErrQueueMissing, m)
      else (None, m\<lparr>queues := (queues m)(name := None)\<rparr>))"

definition queueManager_Exists :: "queueManager \<Rightarrow> string \<Rightarrow> bool" where
  "queueManager_Exists m name \<longleftrightarrow> queues m name \<noteq> None"

text \<open>\<open>ids[i]\<close> is read for every index of \<open>data\<close>, and panics when there are fewer identifiers.\<close>

definition queueManager_BatchAddMessage ::
    "queueManager \<Rightarrow> string \<Rightarrow> bytes list \<Rightarrow> bytes list \<Rightarrow> (error option \<times> queueManager) option" where
  "queueManager_BatchAddMessage m name data ids =
     (case queues m name of
        None \<Rightarrow> Some (Some ErrQueueMissing, m)
      | Some q \<Rightarrow>
          if length ids < length data then None
          else
            do { ll \<leftarrow> BatchEnqueue (qobjs m ! q)
                   (map (\<lambda>i. \<lparr>mbId = ids ! i, mbData = data ! i\<rparr>) [0..<length data]);
                 Some (None, storeQ m q ll) })"

definition queueManager_GetAllQueues :: "string list \<Rightarrow> queueManager \<Rightarrow> string list" where
  "queueManager_GetAllQueues order m = filter (\<lambda>name. queues m name \<noteq> None) order"

section \<open>The consumer manager\<close>

definition consumerManager_GetMessages ::
    "queueManager \<Rightarrow> string \<Rightarrow> u32 \<Rightarrow> bytes \<Rightarrow> i64 \<Rightarrow> ((error + Message list) \<times> queueManager) option" where
  "consumerManager_GetMessages m name n consumer now =
     (if length name = 0 then Some (Inl ErrInvalidQueueName, m)
      else queueManager_GetMessage m name n consumer now)"

definition consumerManager_Ack ::
    "queueManager \<Rightarrow> string \<Rightarrow> bytes \<Rightarrow> bytes \<Rightarrow> (error option \<times> queueManager) option" where
  "consumerManager_Ack m name messageId consumer = queueManager_Ack m name consumer messageId"

definition consumerManager_BatchAck ::
    "queueManager \<Rightarrow> string \<Rightarrow> bytes list \<Rightarrow> bytes \<Rightarrow> (error option \<times> queueManager) option" where
  "consumerManager_BatchAck m name messageIds consumer =
     queueManager_BatchAck m name consumer messageIds"

definition consumerManager_Nack ::
    "queueManager \<Rightarrow> string \<Rightarrow> bytes \<Rightarrow> bytes \<Rightarrow> (error option \<times> queueManager) option" where
  "consumerManager_Nack m name i consumer = queueManager_Nack m name consumer i"

definition consumerManager_BatchNack ::
    "queueManager \<Rightarrow> string \<Rightarrow> bytes list \<Rightarrow> bytes \<Rightarrow> (error option \<times> queueManager) option" where
  "consumerManager_BatchNack m name messageIds consumer =
     queueManager_BatchNack m name consumer messageIds"

lemmas queueManager_defs [op_defs] =
  queueManager_CreateQueue_def queueManager_AddMessage_def queueManager_IsFull_def
  queueManager_GetMessage_def queueManager_Ack_def queueManager_BatchAck_def queueManager_Nack_def
  queueManager_BatchNack_def queueManager_Delete_def queueManager_Exists_def
  queueManager_BatchAddMessage_def

end
