(* ===== verification/QueueManagerInv.thy ===== *)
theory QueueManagerInv
  imports QueueManager
begin

text \<open>
  The invariant of the queue manager and the effect of its operations in terms of the abstract
  queues: every operation changes the queue it names (and, for a negative acknowledgement at the
  fetch limit, its dead letter queue) the way the abstract queue says, and leaves every other
  queue alone. The reason is that no two names share a queue object.
\<close>

section \<open>The invariant\<close>

definition refsOk :: "queueManager \<Rightarrow> bool" where
  "refsOk m \<longleftrightarrow>
     (\<forall>n i. queues m n = Some i \<longrightarrow> i < length (qobjs m)) \<and>
     (\<forall>n n' i. queues m n = Some i \<longrightarrow> queues m n' = Some i \<longrightarrow> n = n') \<and>
     (\<forall>i d. i < length (qobjs m) \<longrightarrow> deadLetter (qobjs m ! i) = PtrQueue d \<longrightarrow>
        d < length (qobjs m) \<and> d \<noteq> i \<and> deadLetter (qobjs m ! d) = NilPtr)"

definition managed :: "queueManager \<Rightarrow> bool" where
  "managed m \<longleftrightarrow> refsOk m \<and> (\<forall>ll\<in>set (qobjs m). \<exists>q. models ll q)"

text \<open>\<open>content m n q\<close>: the queue with name \<open>n\<close> stands for the abstract queue \<open>q\<close>.\<close>

definition content :: "queueManager \<Rightarrow> string \<Rightarrow> aqueue \<Rightarrow> bool" where
  "content m n q \<longleftrightarrow> (\<exists>i. queues m n = Some i \<and> i < length (qobjs m) \<and> models (qobjs m ! i) q)"

text \<open>\<open>others N m m'\<close>: the same names, and every queue with a name outside \<open>N\<close> has kept its content.\<close>

definition others :: "string set \<Rightarrow> queueManager \<Rightarrow> queueManager \<Rightarrow> bool" where
  "others N m m' \<longleftrightarrow>
     queues m' = queues m \<and> (\<forall>n q. n \<notin> N \<longrightarrow> content m n q \<longrightarrow> content m' n q)"

lemma models_deadLetter: "models ll q \<Longrightarrow> deadLetter ll = adl q"
  by (auto simp: models_def)

lemma managed_new: "managed (NewQueueManager ttl)"
  by (simp add: managed_def refsOk_def NewQueueManager_def)

lemma managed_range: "managed m \<Longrightarrow> queues m n = Some i \<Longrightarrow> i < length (qobjs m)"
  and managed_names: "managed m \<Longrightarrow> queues m n = Some i \<Longrightarrow> queues m n' = Some i \<Longrightarrow> n = n'"
  and managed_dlq: "managed m \<Longrightarrow> i < length (qobjs m) \<Longrightarrow> deadLetter (qobjs m ! i) = PtrQueue d \<Longrightarrow>
    d < length (qobjs m) \<and> d \<noteq> i \<and> deadLetter (qobjs m ! d) = NilPtr"
  and managed_models: "managed m \<Longrightarrow> i < length (qobjs m) \<Longrightarrow> \<exists>q. models (qobjs m ! i) q"
  unfolding managed_def refsOk_def by (blast, blast, blast, simp)

lemma managed_content: "managed m \<Longrightarrow> queues m n \<noteq> None \<Longrightarrow> \<exists>q. content m n q"
  using managed_range managed_models by (fastforce simp: content_def)

lemma contentE:
  assumes "content m n q"
  obtains i where "queues m n = Some i" "i < length (qobjs m)" "models (qobjs m ! i) q"
  using assms by (auto simp: content_def)

lemma storeQ_sel [simp]:
  "queues (storeQ m i ll) = queues m" "qobjs (storeQ m i ll) = (qobjs m)[i := ll]"
  "managerTTL (storeQ m i ll) = managerTTL m"
  by (simp_all add: storeQ_def)

text \<open>A store of a queue object keeps the invariant and touches one name at most.\<close>

lemma storeQ_managed:
  assumes "managed m" "i < length (qobjs m)" "models ll q" "adl q = deadLetter (qobjs m ! i)"
  shows "managed (storeQ m i ll)"
proof -
  have dl: "deadLetter ((qobjs m)[i := ll] ! j) = deadLetter (qobjs m ! j)" for j
    using assms(2,4) models_deadLetter[OF assms(3)] by (cases "j = i") simp_all
  have "refsOk (storeQ m i ll)"
    using assms(1) unfolding managed_def refsOk_def storeQ_sel length_list_update dl by blast
  moreover have "\<exists>q. models l q" if "l \<in> set ((qobjs m)[i := ll])" for l
    using that assms(1,3) set_update_subset_insert[of "qobjs m" i ll] by (auto simp: managed_def)
  ultimately show ?thesis by (simp add: managed_def)
qed

lemma storeQ_others:
  assumes "managed m" "queues m n = Some i"
  shows "others {n} m (storeQ m i ll)"
proof -
  have "(qobjs m)[i := ll] ! j = qobjs m ! j" if "queues m n' = Some j" "n' \<noteq> n" for n' j
  proof -
    have "i \<noteq> j" using assms that managed_names by blast
    then show ?thesis by simp
  qed
  then show ?thesis by (auto simp: others_def content_def)
qed

lemma storeQ_content:
  assumes "queues m n = Some i" "i < length (qobjs m)" "models ll q"
  shows "content (storeQ m i ll) n q"
  using assms by (auto simp: content_def)

lemmas storeQ_keeps = storeQ_managed storeQ_others storeQ_content

section \<open>Operations on one queue\<close>

lemma AddMessage_content:
  assumes "managed m" "content m n q"
  shows "\<exists>m'. queueManager_AddMessage m n data i = Some (None, m') \<and> managed m' \<and>
           content m' n (aqEnqueue q i data) \<and> others {n} m m'"
proof -
  from assms(2) obtain k where k: "queues m n = Some k" "k < length (qobjs m)" "models (qobjs m ! k) q"
    by (rule contentE)
  from Enqueue_models[OF k(3)] obtain ll where
    e: "Enqueue (qobjs m ! k) i data = Some ll" "models ll (aqEnqueue q i data)" by blast
  have "adl (aqEnqueue q i data) = deadLetter (qobjs m ! k)"
    using models_deadLetter[OF k(3)] by (simp add: aqEnqueue_def)
  with k e assms(1) show ?thesis
    by (auto simp: queueManager_AddMessage_def intro: storeQ_keeps)
qed

lemma BatchAddMessage_content:
  assumes "managed m" "content m n q" "length data \<le> length ids"
  shows "\<exists>m'. queueManager_BatchAddMessage m n data ids = Some (None, m') \<and> managed m' \<and>
           content m' n (aqBatchEnqueue q (map (\<lambda>(i, d). \<lparr>mbId = i, mbData = d\<rparr>) (zip ids data))) \<and>
           others {n} m m'"
proof -
  from assms(2) obtain k where k: "queues m n = Some k" "k < length (qobjs m)" "models (qobjs m ! k) q"
    by (rule contentE)
  let ?ms = "map (\<lambda>(i, d). \<lparr>mbId = i, mbData = d\<rparr>) (zip ids data)"
  have ms: "map (\<lambda>i. \<lparr>mbId = ids ! i, mbData = data ! i\<rparr>) [0..<length data] = ?ms"
    using assms(3) by (intro nth_equalityI) auto
  from BatchEnqueue_models[OF k(3)] obtain ll where
    e: "BatchEnqueue (qobjs m ! k) ?ms = Some ll" "models ll (aqBatchEnqueue q ?ms)" by blast
  have "adl (aqBatchEnqueue q ?ms) = deadLetter (qobjs m ! k)"
    using models_deadLetter[OF k(3)] by (simp add: aqBatchEnqueue_def)
  with k e ms assms(1,3) show ?thesis
    by (auto simp: queueManager_BatchAddMessage_def intro: storeQ_keeps)
qed

lemma GetMessage_content:
  assumes "managed m" "content m n q"
  shows "\<exists>m'. queueManager_GetMessage m n k c now =
             Some (Inr (map (\<lambda>e. \<lparr>msgId = eid e, msgData = evalue e\<rparr>) (handedOut q k c now)), m') \<and>
           managed m' \<and> content m' n (aqDequeue q k c now) \<and> others {n} m m'"
proof -
  from assms(2) obtain j where j: "queues m n = Some j" "j < length (qobjs m)" "models (qobjs m ! j) q"
    by (rule contentE)
  let ?es = "handedOut q k c now"
  from Dequeue_models[OF j(3)] obtain ll where
    e: "Dequeue (qobjs m ! j) k c now = Some (map evalue ?es, map eid ?es, ll)"
      "models ll (aqDequeue q k c now)" by blast
  have ms: "map (\<lambda>i. \<lparr>msgId = map eid ?es ! i, msgData = map evalue ?es ! i\<rparr>) [0..<length ?es] =
      map (\<lambda>e. \<lparr>msgId = eid e, msgData = evalue e\<rparr>) ?es"
    by (intro nth_equalityI) auto
  have "adl (aqDequeue q k c now) = deadLetter (qobjs m ! j)"
    using models_deadLetter[OF j(3)] by simp
  with j e ms assms(1) show ?thesis
    by (auto simp: queueManager_GetMessage_def intro: storeQ_keeps)
qed

lemma Ack_content:
  assumes "managed m" "content m n q"
  shows "\<exists>m'. queueManager_Ack m n c i = Some (fst (aqAck q c i), m') \<and> managed m' \<and>
           content m' n (snd (aqAck q c i)) \<and> others {n} m m'"
proof -
  from assms(2) obtain j where j: "queues m n = Some j" "j < length (qobjs m)" "models (qobjs m ! j) q"
    by (rule contentE)
  from UnlockAndEmpty_models[OF j(3)] obtain ll where
    e: "UnlockAndEmpty (qobjs m ! j) c i = Some (fst (aqAck q c i), ll)"
      "models ll (snd (aqAck q c i))" by blast
  have "adl (snd (aqAck q c i)) = deadLetter (qobjs m ! j)"
    using models_deadLetter[OF j(3)] by (simp add: aqAck_def)
  with j e assms(1) show ?thesis by (auto simp: queueManager_Ack_def intro: storeQ_keeps)
qed

text \<open>
  A negative acknowledgement. The dead letter queue of a queue is reached through its pointer:
  \<open>dlqContent\<close> relates the object behind the pointer, if there is one, to an abstract queue.
\<close>

definition dlqContent :: "queueManager \<Rightarrow> string \<Rightarrow> aqueue option \<Rightarrow> bool" where
  "dlqContent m n dl \<longleftrightarrow> (\<exists>i. queues m n = Some i \<and> rel_option models (dlqObj m i) dl)"

lemma managed_dlqContent:
  assumes "managed m" "queues m n = Some i"
  shows "\<exists>dl. dlqContent m n dl"
proof (cases "deadLetter (qobjs m ! i)")
  case (PtrQueue d)
  then have "d < length (qobjs m)" using managed_dlq managed_range[OF assms] assms(1) by blast
  then have "\<exists>q. models (qobjs m ! d) q" using managed_models[OF assms(1)] by blast
  then show ?thesis using PtrQueue assms(2) by (auto simp: dlqContent_def dlqObj_def rel_option_Some_left)
qed (use assms in \<open>auto simp: dlqContent_def dlqObj_def\<close>)

text \<open>The two stores of a negative acknowledgement.\<close>

lemma storeDlq_sel [simp]:
  "queues (storeDlq m i dl) = queues m" "length (qobjs (storeDlq m i dl)) = length (qobjs m)"
  by (simp_all add: storeDlq_def split: queueRef.split option.split)

lemma storeDlq_managed:
  assumes "managed m" "i < length (qobjs m)" "rel_option models (dlqObj m i) qdl"
    and "rel_option models dl qdl'" "qdl = None \<longleftrightarrow> qdl' = None"
    and "\<forall>x\<in>set_option qdl. \<forall>y\<in>set_option qdl'. adl x = adl y"
  shows "managed (storeDlq m i dl) \<and> qobjs (storeDlq m i dl) ! i = qobjs m ! i \<and>
         (qdl \<noteq> None \<longrightarrow> dlqObj (storeDlq m i dl) i = dl)"
proof (cases "deadLetter (qobjs m ! i)")
  case (PtrQueue d)
  then have d: "d < length (qobjs m)" "d \<noteq> i" using managed_dlq[OF assms(1,2)] by blast+
  from PtrQueue assms(3) obtain x where x: "qdl = Some x" "models (qobjs m ! d) x"
    by (auto simp: dlqObj_def rel_option_Some_left)
  from x(1) assms(5) have "qdl' \<noteq> None" by simp
  with assms(4) obtain ll y where y: "dl = Some ll" "qdl' = Some y" "models ll y"
    by (cases dl) (auto simp: rel_option_Some_left)
  have "adl y = deadLetter (qobjs m ! d)" using assms(6) x y models_deadLetter[OF x(2)] by auto
  with storeQ_managed[OF assms(1) d(1) y(3)] d PtrQueue y show ?thesis
    by (simp add: storeDlq_def dlqObj_def)
qed (use assms in \<open>auto simp: storeDlq_def dlqObj_def\<close>)

lemma aqNack_settings:
  assumes "aqNack q dl c i = Some (b, q', dl')"
  shows "adl q' = adl q" "dl = None \<longleftrightarrow> dl' = None"
    "\<forall>x\<in>set_option dl. \<forall>y\<in>set_option dl'. adl x = adl y"
  using assms
  by (auto simp: aqNack_def aqDeadLetter_def aqEnqueue_def bind_Some_iff
      split: option.splits if_splits queueRef.splits)

lemma Nack_content:
  assumes "managed m" "content m n q" "dlqContent m n dl" "aqNack q dl c i = Some (b, q', dl')"
  shows "\<exists>m'. queueManager_Nack m n c i = Some (if b then None else Some ErrFailedEmpty, m') \<and>
           managed m' \<and> content m' n q' \<and> dlqContent m' n dl'"
proof -
  from assms(2) obtain k where k: "queues m n = Some k" "k < length (qobjs m)" "models (qobjs m ! k) q"
    by (rule contentE)
  with assms(3) have d: "rel_option models (dlqObj m k) dl" by (auto simp: dlqContent_def)
  from Unlock_models[OF k(3) d, of c i] assms(4) obtain ll dl1 where
    u: "Unlock (qobjs m ! k) (dlqObj m k) c i = Some (b, ll, dl1)" "models ll q'"
      "rel_option models dl1 dl'"
    by (cases "Unlock (qobjs m ! k) (dlqObj m k) c i") auto
  note set' = aqNack_settings[OF assms(4)]
  let ?m1 = "storeDlq m k dl1" let ?m2 = "storeQ ?m1 k ll"
  from storeDlq_managed[OF assms(1) k(2) d u(3) set'(2,3)]
  have m1: "managed ?m1" "qobjs ?m1 ! k = qobjs m ! k" "dl \<noteq> None \<Longrightarrow> dlqObj ?m1 k = dl1" by auto
  have ref: "adl q' = deadLetter (qobjs ?m1 ! k)" using set'(1) m1(2) models_deadLetter[OF k(3)] by simp
  have "managed ?m2" using storeQ_managed[OF m1(1) _ u(2) ref] k(2) by simp
  moreover have "content ?m2 n q'" using storeQ_content[OF _ _ u(2), of ?m1 n k] k by simp
  moreover have "rel_option models (dlqObj ?m2 k) dl'"
  proof (cases "deadLetter (qobjs m ! k)")
    case (PtrQueue e)
    have "e \<noteq> k" using managed_dlq[OF assms(1) k(2) PtrQueue] by blast
    moreover from PtrQueue d have "dl \<noteq> None" by (auto simp: dlqObj_def rel_option_Some_left)
    ultimately have "dlqObj ?m2 k = dl1" using m1(2,3) PtrQueue k(2) ref models_deadLetter[OF u(2)]
      by (simp add: dlqObj_def)
    with u(3) show ?thesis by simp
  qed (use k(2) d set'(2) ref m1(2) models_deadLetter[OF u(2)] in \<open>auto simp: dlqObj_def\<close>)
  ultimately show ?thesis using k(1) u(1) by (auto simp: queueManager_Nack_def dlqContent_def)
qed

text \<open>An operation on a name that is not in the map reports it and changes nothing.\<close>

lemma missing_queue:
  assumes "queues m n = None"
  shows "queueManager_AddMessage m n data i = Some (Some ErrQueueMissing, m)"
    "queueManager_BatchAddMessage m n datas ids = Some (Some ErrQueueMissing, m)"
    "queueManager_IsFull m n = Inl ErrQueueMissing"
    "queueManager_GetMessage m n k c now = Some (Inl ErrQueueMissing, m)"
    "queueManager_Ack m n c i = Some (Some ErrQueueMissing, m)"
    "queueManager_BatchAck m n c ids = Some (Some ErrQueueMissing, m)"
    "queueManager_Nack m n c i = Some (Some ErrQueueMissing, m)"
    "queueManager_BatchNack m n c ids = Some (Some ErrQueueMissing, m)"
    "queueManager_Delete m n = (Some ErrQueueMissing, m)"
  using assms by (simp_all add: op_defs)

section \<open>Creation and deletion\<close>

text \<open>
  A new object, entered under a name. Its dead letter pointer, if it has one, goes to an object that
  has none itself.
\<close>

lemma append_managed:
  assumes "managed m" "models ll q"
    and "\<And>d. adl q = PtrQueue d \<Longrightarrow> d < length (qobjs m) \<and> deadLetter (qobjs m ! d) = NilPtr"
  shows "managed (m\<lparr>qobjs := qobjs m @ [ll], queues := (queues m)(n \<mapsto> length (qobjs m))\<rparr>)"
    (is "managed ?m")
proof -
  have "i < length (qobjs ?m)" if "queues ?m n' = Some i" for n' i
    using that managed_range[OF assms(1), of n' i] by (cases "n' = n") auto
  moreover have "n' = n''" if "queues ?m n' = Some i" "queues ?m n'' = Some i" for n' n'' i
    using that managed_names[OF assms(1), of n' i n''] managed_range[OF assms(1), of n' i]
      managed_range[OF assms(1), of n'' i] by (cases "n' = n"; cases "n'' = n") auto
  moreover have "d < length (qobjs ?m) \<and> d \<noteq> i \<and> deadLetter (qobjs ?m ! d) = NilPtr"
    if "i < length (qobjs ?m)" "deadLetter (qobjs ?m ! i) = PtrQueue d" for i d
  proof (cases "i = length (qobjs m)")
    case True
    with that assms(3)[of d] models_deadLetter[OF assms(2)] show ?thesis by (auto simp: nth_append)
  next
    case False
    with that managed_dlq[OF assms(1), of i d] show ?thesis by (auto simp: nth_append)
  qed
  ultimately have "refsOk ?m" unfolding refsOk_def by blast
  then show ?thesis using assms(1,2) by (auto simp: managed_def)
qed

lemma append_content:
  assumes "managed m" "models ll q"
  shows "content (m\<lparr>qobjs := qobjs m @ [ll], queues := (queues m)(n \<mapsto> length (qobjs m))\<rparr>) n q"
    "n' \<noteq> n \<Longrightarrow> content m n' q' \<Longrightarrow>
      content (m\<lparr>qobjs := qobjs m @ [ll], queues := (queues m)(n \<mapsto> length (qobjs m))\<rparr>) n' q'"
  using assms by (auto simp: content_def nth_append)

lemma Delete_managed:
  assumes "managed m"
  shows "managed (snd (queueManager_Delete m n))"
proof -
  let ?m = "m\<lparr>queues := (queues m)(n := None)\<rparr>"
  have sub: "queues m n' = Some i" if "queues ?m n' = Some i" for n' i
    using that by (auto split: if_splits)
  have "qobjs ?m = qobjs m" by simp
  then have "refsOk ?m"
    using managed_range[OF assms sub] managed_names[OF assms sub sub] managed_dlq[OF assms]
    unfolding refsOk_def by metis
  then show ?thesis using assms by (simp add: queueManager_Delete_def managed_def)
qed

lemma NewQueue_ref: "deadLetter (NewQueue sz limit ttl dl) = dl"
  by (simp add: NewQueue_def)

lemma CreateQueue_managed:
  assumes "managed m"
  shows "managed (snd (queueManager_CreateQueue m n sz limit hasDLQ))"
proof -
  let ?dlq = "m\<lparr>qobjs := qobjs m @ [NewQueue sz limit (managerTTL m) NilPtr],
                queues := (queues m)(n @ ''-dlq'' \<mapsto> length (qobjs m))\<rparr>"
  have 1: "managed ?dlq" by (rule append_managed[OF assms NewQueue_models]) (simp add: newAq_def)
  have "deadLetter (qobjs ?dlq ! length (qobjs m)) = NilPtr" by (simp add: NewQueue_def)
  then have 2: "managed (?dlq\<lparr>qobjs := qobjs ?dlq @ [NewQueue sz limit (managerTTL m) (PtrQueue (length (qobjs m)))],
      queues := (queues ?dlq)(n \<mapsto> length (qobjs ?dlq))\<rparr>)"
    by (intro append_managed[OF 1 NewQueue_models]) (auto simp: newAq_def nth_append)
  have 3: "managed (m\<lparr>qobjs := qobjs m @ [NewQueue sz limit (managerTTL m) PtrNil],
      queues := (queues m)(n \<mapsto> length (qobjs m))\<rparr>)"
    by (rule append_managed[OF assms NewQueue_models]) (simp add: newAq_def)
  from 2 3 assms show ?thesis by (auto simp: queueManager_CreateQueue_def)
qed

text \<open>
  A successful creation: the new queue is empty, its dead letter queue too, and every other queue
  keeps its content, except one that had the name of the dead letter queue.
\<close>

lemma CreateQueue_content:
  assumes "managed m" "queueManager_CreateQueue m n sz limit hasDLQ = (None, m')"
  shows "content m' n (newAq sz limit (managerTTL m)
      (if hasDLQ then PtrQueue (length (qobjs m)) else PtrNil))"
    and "hasDLQ \<Longrightarrow> content m' (n @ ''-dlq'') (newAq sz limit (managerTTL m) NilPtr)"
    and "hasDLQ \<Longrightarrow> dlqContent m' n (Some (newAq sz limit (managerTTL m) NilPtr))"
    and "n' \<noteq> n \<Longrightarrow> \<not> hasDLQ \<or> n' \<noteq> n @ ''-dlq'' \<Longrightarrow> content m n' q \<Longrightarrow> content m' n' q"
  using assms NewQueue_models
  by (auto simp: queueManager_CreateQueue_def content_def dlqContent_def dlqObj_def nth_append
      NewQueue_ref rel_option_Some_left split: if_splits)

end
