(* ===== verification/Broker.thy ===== *)
theory Broker
  imports QueueManagerInv "HOL-Library.Char_ord" "HOL-Library.List_Lexorder"
begin

text \<open>
  The broker (\<open>pkg/core/Broker.go\<close>): a map from routing keys to the names of queues, kept sorted,
  in front of the queue manager.

  Two orders are left open by the language and are arguments of the model: the order in which a
  \<open>range\<close> visits the keys of a map, and the order in which the goroutines that \<open>AddMessage\<close> starts, one
  per queue name, reach the queue manager. A panic in a goroutine stops the program.
\<close>

section \<open>State and helpers\<close>

record broker =
  routing :: "string \<rightharpoonup> string list"
  manager :: queueManager

definition NewBroker :: "queueManager \<Rightarrow> broker" where
  "NewBroker m = \<lparr>routing = Map.empty, manager = m\<rparr>"

fun contains :: "string list \<Rightarrow> string \<Rightarrow> bool" where
  "contains [] str = False"
| "contains (v # s) str = (if v = str then True else contains s str)"

fun indexFrom :: "int \<Rightarrow> 'e list \<Rightarrow> ('e \<Rightarrow> bool) \<Rightarrow> int" where
  "indexFrom i [] f = -1"
| "indexFrom i (v # s) f = (if f v then i else indexFrom (i + 1) s f)"

definition indexFunc :: "'e list \<Rightarrow> ('e \<Rightarrow> bool) \<Rightarrow> int" where
  "indexFunc s f = indexFrom 0 s f"

text \<open>\<open>append(s[:i], s[i+1:]...)\<close>; the slice expression panics on an index outside the slice.\<close>

definition cutAt :: "'e list \<Rightarrow> int \<Rightarrow> 'e list option" where
  "cutAt s i =
     (if i < 0 \<or> int (length s) \<le> i then None else Some (take (nat i) s @ drop (nat i + 1) s))"

text \<open>Reading a key that a map does not have gives the zero value, here a nil slice.\<close>

definition routeOf :: "(string \<rightharpoonup> string list) \<Rightarrow> string \<Rightarrow> string list" where
  "routeOf r key = (case r key of None \<Rightarrow> [] | Some ks \<Rightarrow> ks)"

section \<open>Routing\<close>

definition addRoute :: "broker \<Rightarrow> string \<Rightarrow> string \<Rightarrow> broker" where
  "addRoute b routingKey name =
     (case routing b routingKey of
        Some ks \<Rightarrow> b\<lparr>routing := (routing b)(routingKey \<mapsto> sort (ks @ [name]))\<rparr>
      | None \<Rightarrow> b\<lparr>routing := (routing b)(routingKey \<mapsto> [name])\<rparr>)"

definition broker_CreateQueue ::
    "broker \<Rightarrow> string \<Rightarrow> string \<Rightarrow> u32 \<Rightarrow> u32 \<Rightarrow> bool \<Rightarrow> error option \<times> broker" where
  "broker_CreateQueue b name routingKey sz retryLimit hasDLQ =
     (if length routingKey = 0 then (Some ErrMissingRoutingKey, b)
      else
        case queueManager_CreateQueue (manager b) name sz retryLimit hasDLQ of
          (Some err, m) \<Rightarrow> (Some ErrFailedQueueCreation, b\<lparr>manager := m\<rparr>)
        | (None, m) \<Rightarrow> (None, addRoute (b\<lparr>manager := m\<rparr>) routingKey name))"

definition broker_AddRouteKey :: "broker \<Rightarrow> string \<Rightarrow> string \<Rightarrow> error option \<times> broker" where
  "broker_AddRouteKey b routingKey queueName =
     (if length routingKey = 0 then (Some ErrMissingRoutingKey, b)
      else if length queueName = 0 then (Some ErrInvalidQueueName, b)
      else if \<not> queueManager_Exists (manager b) queueName then (Some ErrQueueDoesNotExist, b)
      else (None, addRoute b routingKey queueName))"

text \<open>
  \<open>DeleteQueue\<close>: the first key of the range that has the name is the one it is removed from.
\<close>

fun broker_DeleteQueue_loop :: "string list \<Rightarrow> broker \<Rightarrow> string \<Rightarrow> error option \<times> broker" where
  "broker_DeleteQueue_loop [] b name = (None, b)"
| "broker_DeleteQueue_loop (key # order) b name =
     (case routing b key of
        None \<Rightarrow> broker_DeleteQueue_loop order b name
      | Some ks \<Rightarrow>
          let i = indexFunc ks (\<lambda>v. v = name) in
          case cutAt ks i of
            None \<Rightarrow> broker_DeleteQueue_loop order b name
          | Some rest \<Rightarrow>
              (case queueManager_Delete (manager b) name of
                 (Some err, m) \<Rightarrow> (Some err, b\<lparr>manager := m\<rparr>)
               | (None, m) \<Rightarrow> (None, b\<lparr>manager := m, routing := (routing b)(key \<mapsto> rest)\<rparr>)))"

definition broker_DeleteQueue :: "string list \<Rightarrow> broker \<Rightarrow> string \<Rightarrow> error option \<times> broker" where
  "broker_DeleteQueue order b name = broker_DeleteQueue_loop order b name"

fun countRoutes :: "string list \<Rightarrow> (string \<rightharpoonup> string list) \<Rightarrow> string \<Rightarrow> nat \<Rightarrow> nat" where
  "countRoutes [] r queueName found = found"
| "countRoutes (key # order) r queueName found =
     (if contains (routeOf r key) queueName
      then if found + 1 = 2 then found + 1 else countRoutes order r queueName (found + 1)
      else countRoutes order r queueName found)"

definition broker_DeleteRoutingKey ::
    "string list \<Rightarrow> broker \<Rightarrow> string \<Rightarrow> string \<Rightarrow> (error option \<times> broker) option" where
  "broker_DeleteRoutingKey order b routingKey queueName =
     (if length routingKey = 0 then Some (Some ErrMissingRoutingKey, b)
      else if length queueName = 0 then Some (Some ErrInvalidQueueName, b)
      else if \<not> queueManager_Exists (manager b) queueName then Some (Some ErrQueueDoesNotExist, b)
      else
        case routing b routingKey of
          None \<Rightarrow> Some (Some ErrMissingRoutingKey, b)
        | Some ks \<Rightarrow>
            if countRoutes order (routing b) queueName 0 = 1
            then Some (Some ErrQueueMustHaveOneRoutingKey, b)
            else
              do { let idx = indexFunc ks (\<lambda>c. c = queueName);
                   rest \<leftarrow> cutAt ks idx;
                   Some (None, b\<lparr>routing := (routing b)(routingKey \<mapsto> rest)\<rparr>) })"

section \<open>Messages\<close>

text \<open>
  One call per name, in the order in which the goroutines run; an error is logged and dropped.
\<close>

fun fanOut :: "('m \<Rightarrow> string \<Rightarrow> (error option \<times> 'm) option) \<Rightarrow> string list \<Rightarrow> 'm \<Rightarrow> 'm option" where
  "fanOut add [] m = Some m"
| "fanOut add (key # keys) m = do { (err, m') \<leftarrow> add m key; fanOut add keys m' }"

definition broker_AddMessage ::
    "(string list \<Rightarrow> string list) \<Rightarrow> broker \<Rightarrow> string \<Rightarrow> bytes \<Rightarrow> bytes \<Rightarrow> (error option \<times> broker) option" where
  "broker_AddMessage sched b routingKey data i =
     (if length data = 0 then Some (Some ErrEmptyData, b)
      else
        case routing b routingKey of
          None \<Rightarrow> Some (Some ErrRoutingKeyDoesNotExist, b)
        | Some keys \<Rightarrow>
            do { m \<leftarrow> fanOut (\<lambda>m key. queueManager_AddMessage m key data i) (sched keys) (manager b);
                 Some (None, b\<lparr>manager := m\<rparr>) })"

definition broker_BatchAddMessage ::
    "(string list \<Rightarrow> string list) \<Rightarrow> broker \<Rightarrow> string \<Rightarrow> bytes list \<Rightarrow> bytes list \<Rightarrow>
     (error option \<times> broker) option" where
  "broker_BatchAddMessage sched b routingKey datas ids =
     (if list_ex (\<lambda>data. length data = 0) datas then Some (Some ErrEmptyData, b)
      else
        case routing b routingKey of
          None \<Rightarrow> Some (Some ErrRoutingKeyDoesNotExist, b)
        | Some keys \<Rightarrow>
            do { m \<leftarrow> fanOut (\<lambda>m key. queueManager_BatchAddMessage m key datas ids) (sched keys) (manager b);
                 Some (None, b\<lparr>manager := m\<rparr>) })"

definition broker_GetKeys :: "string list \<Rightarrow> broker \<Rightarrow> string list" where
  "broker_GetKeys order b = filter (\<lambda>key. routing b key \<noteq> None) order"

definition broker_GetQueues :: "broker \<Rightarrow> string \<Rightarrow> error + string list" where
  "broker_GetQueues b routingKey =
     (case routing b routingKey of
        None \<Rightarrow> Inl ErrRoutingKeyDoesNotExist
      | Some qs \<Rightarrow> Inr qs)"

section \<open>Helper functions\<close>

lemma contains_iff: "contains s str \<longleftrightarrow> str \<in> set s"
  by (induction s) auto

lemma indexFrom_find:
  "(\<exists>n < length s. indexFrom i s f = i + int n \<and> f (s ! n) \<and> (\<forall>k<n. \<not> f (s ! k))) \<or>
   (indexFrom i s f = -1 \<and> (\<forall>x\<in>set s. \<not> f x))"
proof (induction s arbitrary: i)
  case (Cons v s)
  show ?case
  proof (cases "f v")
    case False
    from Cons[of "i + 1"] show ?thesis
    proof
      assume "\<exists>n<length s. indexFrom (i + 1) s f = i + 1 + int n \<and> f (s ! n) \<and> (\<forall>k<n. \<not> f (s ! k))"
      then obtain n where n: "n < length s" "indexFrom (i + 1) s f = i + 1 + int n" "f (s ! n)"
        "\<forall>k<n. \<not> f (s ! k)" by blast
      with False have "\<forall>k<Suc n. \<not> f ((v # s) ! k)" by (auto simp: less_Suc_eq_0_disj)
      with n False show ?thesis by (intro disjI1 exI[of _ "Suc n"]) auto
    qed (use False in auto)
  qed auto
qed simp

text \<open>
  Cutting at the index that \<open>indexFunc\<close> finds removes the first element that satisfies the test, and
  panics exactly when there is none.
\<close>

lemma cutAt_indexFunc:
  "cutAt s (indexFunc s f) = (if \<exists>x\<in>set s. f x then Some (removeFirst f s) else None)"
proof (cases "\<exists>x\<in>set s. f x")
  case True
  with indexFrom_find[of s 0 f] obtain n where n: "n < length s" "indexFrom 0 s f = int n" "f (s ! n)"
    "\<forall>k<n. \<not> f (s ! k)" by auto
  from n(1,4) have "\<forall>y\<in>set (take n s). \<not> f y" by (auto simp: in_set_conv_nth)
  from removeFirst_split[OF this n(3), of "drop (Suc n) s"] n(1)
  have "removeFirst f s = take n s @ drop (Suc n) s" by (simp add: id_take_nth_drop[symmetric])
  with n True show ?thesis by (simp add: cutAt_def indexFunc_def)
next
  case False
  with indexFrom_find[of s 0 f] show ?thesis by (auto simp: cutAt_def indexFunc_def)
qed

lemma set_removeFirst_subset: "set (removeFirst P xs) \<subseteq> set xs"
  by (induction xs) auto

lemma removeFirst_sorted: "sorted xs \<Longrightarrow> sorted (removeFirst P xs)"
  by (induction xs) (auto dest: set_removeFirst_subset[THEN subsetD])

end
