(* ===== verification/BrokerInv.thy ===== *)
theory BrokerInv
  imports Broker
begin

text \<open>
  The broker's invariant (sorted routes over a well-formed manager), delivery of a message to the
  queues of a routing key, and which queues stay routed. Delivery is proved for any store of
  messages that has the laws of the locale \<open>message_sink\<close>, and used for single messages and for
  batches.
\<close>

section \<open>Delivery\<close>

locale message_sink =
  fixes add :: "'m \<Rightarrow> string \<Rightarrow> (error option \<times> 'm) option"
    and inv :: "'m \<Rightarrow> bool"
    and known :: "'m \<Rightarrow> string \<Rightarrow> bool"
    and holds :: "'m \<Rightarrow> string \<Rightarrow> 'q \<Rightarrow> bool"
    and upd :: "'q \<Rightarrow> 'q"
  assumes add_unknown: "\<not> known m n \<Longrightarrow> add m n = Some (Some ErrQueueMissing, m)"
    and known_holds: "inv m \<Longrightarrow> known m n \<Longrightarrow> \<exists>q. holds m n q"
    and add_known: "inv m \<Longrightarrow> holds m n q \<Longrightarrow> \<exists>m'. add m n = Some (None, m') \<and> inv m' \<and>
      known m' = known m \<and> holds m' n (upd q) \<and> (\<forall>n' q'. n' \<noteq> n \<longrightarrow> holds m n' q' \<longrightarrow> holds m' n' q')"
    and holds_known: "holds m n q \<Longrightarrow> known m n"
begin

text \<open>
  The fan-out returns, and every queue has received the message as often as its name occurs among
  the keys, so the order of the calls does not matter.
\<close>

lemma fanOut_delivers:
  assumes "inv m"
  shows "\<exists>m'. fanOut add ks m = Some m' \<and> inv m' \<and> known m' = known m \<and>
    (\<forall>n q. holds m n q \<longrightarrow> holds m' n ((upd ^^ count_list ks n) q))"
  using assms
proof (induction ks arbitrary: m)
  case (Cons k ks)
  show ?case
  proof (cases "known m k")
    case True
    from known_holds[OF Cons.prems True] obtain q0 where q0: "holds m k q0" ..
    from add_known[OF Cons.prems q0] obtain m1 where m1: "add m k = Some (None, m1)" "inv m1"
      "known m1 = known m" "\<forall>n' q'. n' \<noteq> k \<longrightarrow> holds m n' q' \<longrightarrow> holds m1 n' q'" by blast
    have here: "holds m1 k (upd q)" if "holds m k q" for q
      using add_known[OF Cons.prems that] m1(1) by auto
    from Cons.IH[OF m1(2)] obtain m2 where m2: "fanOut add ks m1 = Some m2" "inv m2"
      "known m2 = known m1" "\<forall>n q. holds m1 n q \<longrightarrow> holds m2 n ((upd ^^ count_list ks n) q)" by blast
    have "holds m2 n ((upd ^^ count_list (k # ks) n) q)" if "holds m n q" for n q
      using that here m1(4) m2(4) by (cases "n = k") (auto simp: funpow_swap1)
    with m1 m2 show ?thesis by auto
  next
    case False
    from Cons.IH[OF Cons.prems] obtain m2 where m2: "fanOut add ks m = Some m2" "inv m2"
      "known m2 = known m" "\<forall>n q. holds m n q \<longrightarrow> holds m2 n ((upd ^^ count_list ks n) q)" by blast
    have "n \<noteq> k" if "holds m n q" for n q using that False holds_known by blast
    then have "\<forall>n q. holds m n q \<longrightarrow> holds m2 n ((upd ^^ count_list (k # ks) n) q)"
      using m2(4) by fastforce
    with m2 add_unknown[OF False] show ?thesis by auto
  qed
qed auto

end

lemma others_content: "others {n} m m' \<Longrightarrow> n' \<noteq> n \<Longrightarrow> content m n' q \<Longrightarrow> content m' n' q"
  by (auto simp: others_def)

lemma others_Exists: "others N m m' \<Longrightarrow> queueManager_Exists m' = queueManager_Exists m"
  by (auto simp: others_def queueManager_Exists_def fun_eq_iff)

lemma content_dom: "content m n q \<Longrightarrow> \<exists>y. queues m n = Some y"
  by (auto simp: content_def)

lemma Exists_iff: "queueManager_Exists m n \<longleftrightarrow> queues m n \<noteq> None"
  by (simp add: queueManager_Exists_def)

lemma managed_Exists: "managed m \<Longrightarrow> queues m n = Some i \<Longrightarrow> \<exists>q. content m n q"
  by (rule managed_content) simp_all

interpretation single: message_sink "\<lambda>m n. queueManager_AddMessage m n data i" managed
  queueManager_Exists content "\<lambda>q. aqEnqueue q i data" for data i
proof
  fix m n q assume "managed m" "content m n q"
  from AddMessage_content[OF this, of data i] show "\<exists>m'. queueManager_AddMessage m n data i =
      Some (None, m') \<and> managed m' \<and> queueManager_Exists m' = queueManager_Exists m \<and>
      content m' n (aqEnqueue q i data) \<and> (\<forall>n' q'. n' \<noteq> n \<longrightarrow> content m n' q' \<longrightarrow> content m' n' q')"
    using others_content others_Exists by blast
qed (auto simp: managed_Exists content_dom missing_queue Exists_iff)

interpretation batch: message_sink
  "\<lambda>m n. queueManager_BatchAddMessage m n (map mbData ms) (map mbId ms @ extra)" managed
  queueManager_Exists content "\<lambda>q. aqBatchEnqueue q ms" for ms extra
proof
  fix m n q assume mc: "managed m" "content m n q"
  have z: "map (\<lambda>(i, d). \<lparr>mbId = i, mbData = d\<rparr>) (zip (map mbId ms @ extra) (map mbData ms)) = ms"
    by (intro nth_equalityI) (auto simp: nth_append)
  from BatchAddMessage_content[OF mc, of "map mbData ms" "map mbId ms @ extra"]
  show "\<exists>m'. queueManager_BatchAddMessage m n (map mbData ms) (map mbId ms @ extra) =
      Some (None, m') \<and> managed m' \<and> queueManager_Exists m' = queueManager_Exists m \<and>
      content m' n (aqBatchEnqueue q ms) \<and> (\<forall>n' q'. n' \<noteq> n \<longrightarrow> content m n' q' \<longrightarrow> content m' n' q')"
    unfolding z using others_content others_Exists by fastforce
qed (auto simp: managed_Exists content_dom missing_queue Exists_iff)

section \<open>The broker's invariant\<close>

definition brokerOk :: "broker \<Rightarrow> bool" where
  "brokerOk b \<longleftrightarrow> managed (manager b) \<and> (\<forall>k ks. routing b k = Some ks \<longrightarrow> sorted ks)"

definition routed :: "broker \<Rightarrow> string \<Rightarrow> bool" where
  "routed b n \<longleftrightarrow> (\<exists>k. n \<in> set (routeOf (routing b) k))"

lemma routeOfE:
  assumes "n \<in> set (routeOf r k)"
  obtains ks where "r k = Some ks" "n \<in> set ks"
  using assms by (cases "r k") (auto simp: routeOf_def)

lemma routedE:
  assumes "routed b n"
  obtains k ks where "routing b k = Some ks" "n \<in> set ks"
  using assms by (auto simp: routed_def elim: routeOfE)

lemma routedI: "routing b k = Some ks \<Longrightarrow> n \<in> set ks \<Longrightarrow> routed b n"
  by (auto simp: routed_def routeOf_def intro!: exI[of _ k])

lemma brokerOk_new: "managed m \<Longrightarrow> brokerOk (NewBroker m)"
  by (simp add: brokerOk_def NewBroker_def)

lemma addRoute_sel [simp]: "manager (addRoute b k n) = manager b"
  by (simp add: addRoute_def split: option.split)

lemma addRoute_ok: "brokerOk b \<Longrightarrow> brokerOk (addRoute b k n)"
  by (auto simp: brokerOk_def addRoute_def split: option.split)

lemma routeOf_upd [simp]:
  "routeOf (r(k \<mapsto> ks)) k' = (if k' = k then ks else routeOf r k')"
  by (simp add: routeOf_def)

lemma addRoute_routeOf:
  "set (routeOf (routing (addRoute b k n)) k') =
     (if k' = k then insert n (set (routeOf (routing b) k)) else set (routeOf (routing b) k'))"
  by (auto simp: addRoute_def routeOf_def split: option.split)

lemma addRoute_routed: "routed (addRoute b k n) n' \<longleftrightarrow> n' = n \<or> routed b n'"
  by (auto simp: routed_def addRoute_routeOf)

lemma DeleteQueue_loop_ok:
  "brokerOk b \<Longrightarrow> brokerOk (snd (broker_DeleteQueue_loop order b n))"
proof (induction order b n rule: broker_DeleteQueue_loop.induct)
  case (2 key order b name)
  from 2(3) have m: "managed (snd (queueManager_Delete (manager b) name))"
    by (simp add: brokerOk_def Delete_managed)
  from 2 m show ?case
    by (auto simp: brokerOk_def Let_def cutAt_indexFunc removeFirst_sorted
        split: option.splits prod.splits if_splits)
qed simp

lemma broker_ok:
  assumes "brokerOk b"
  shows "brokerOk (snd (broker_CreateQueue b n k sz limit dlq))"
    and "brokerOk (snd (broker_AddRouteKey b k n))"
    and "brokerOk (snd (broker_DeleteQueue order b n))"
    and "broker_DeleteRoutingKey order b k n = Some (e, b') \<Longrightarrow> brokerOk b'"
proof -
  have "managed (snd (queueManager_CreateQueue (manager b) n sz limit dlq))"
    using assms by (simp add: brokerOk_def CreateQueue_managed)
  then have "brokerOk (b\<lparr>manager := snd (queueManager_CreateQueue (manager b) n sz limit dlq)\<rparr>)"
    using assms by (simp add: brokerOk_def)
  with assms show "brokerOk (snd (broker_CreateQueue b n k sz limit dlq))"
    by (auto simp: broker_CreateQueue_def addRoute_ok split: prod.split option.split)
  show "brokerOk (snd (broker_AddRouteKey b k n))"
    using assms by (auto simp: broker_AddRouteKey_def addRoute_ok)
  show "brokerOk (snd (broker_DeleteQueue order b n))"
    using assms by (simp add: broker_DeleteQueue_def DeleteQueue_loop_ok)
  show "brokerOk b'" if "broker_DeleteRoutingKey order b k n = Some (e, b')"
    using that assms
    by (auto simp: broker_DeleteRoutingKey_def brokerOk_def cutAt_indexFunc removeFirst_sorted
        bind_Some_iff Let_def split: option.splits if_splits)
qed

section \<open>Which queues stay routed\<close>

lemma countRoutes_min:
  "found < 2 \<Longrightarrow> countRoutes order r n found =
     min 2 (found + length (filter (\<lambda>k. n \<in> set (routeOf r k)) order))"
  by (induction order arbitrary: found) (auto simp: contains_iff)

text \<open>
  The check of \<open>DeleteRoutingKey\<close>: when the count is not one and the key has the queue, another key has
  it too.
\<close>

lemma countRoutes_other:
  assumes "mapOrder order r" "countRoutes order r n 0 \<noteq> 1" "r k = Some ks" "n \<in> set ks"
  obtains k' where "k' \<noteq> k" "n \<in> set (routeOf r k')"
proof -
  let ?K = "filter (\<lambda>k. n \<in> set (routeOf r k)) order"
  from assms have d: "distinct ?K" "k \<in> set ?K" by (auto simp: mapOrder_def routeOf_def)
  have "length ?K \<noteq> 1" using assms(2) countRoutes_min[of 0 order r n] by simp
  then have "card (set ?K) \<noteq> 1" using distinct_card[OF d(1)] by simp
  then have "set ?K \<noteq> {k}" using is_singletonI[of k] by (metis is_singleton_altdef)
  with d(2) obtain k' where "k' \<in> set ?K" "k' \<noteq> k" by blast
  with that show thesis by auto
qed

lemma DeleteRoutingKey_routed:
  assumes "mapOrder order (routing b)" "broker_DeleteRoutingKey order b k n = Some (e, b')" "routed b n'"
  shows "routed b' n'"
proof (cases e)
  case None
  with assms(2) obtain ks where ks: "routing b k = Some ks" "n \<in> set ks"
    "countRoutes order (routing b) n 0 \<noteq> 1"
    and b': "b' = b\<lparr>routing := (routing b)(k \<mapsto> removeFirst (\<lambda>c. c = n) ks)\<rparr>"
    by (auto simp: broker_DeleteRoutingKey_def cutAt_indexFunc Let_def bind_Some_iff
        split: option.splits if_splits)
  from countRoutes_other[OF assms(1) ks(3,1,2)] obtain k' where k': "k' \<noteq> k"
    "n \<in> set (routeOf (routing b) k')" by blast
  from assms(3) obtain k2 where k2: "n' \<in> set (routeOf (routing b) k2)" by (auto simp: routed_def)
  show ?thesis
  proof (cases "n' = n")
    case True
    with k' b' show ?thesis by (auto simp: routed_def intro!: exI[of _ k'])
  next
    case False
    with k2 b' ks(1) show ?thesis
      by (auto simp: routed_def routeOf_def intro!: exI[of _ k2] removeFirst_keeps)
  qed
next
  case (Some err)
  with assms(2) have "b' = b"
    by (auto simp: broker_DeleteRoutingKey_def Let_def bind_Some_iff split: option.splits if_splits)
  with assms(3) show ?thesis by simp
qed

text \<open>
  \<open>DeleteQueue\<close> removes the name from one route only.
\<close>

lemma DeleteQueue_one_route:
  assumes "mapOrder order (routing b)" "queueManager_Exists (manager b) n" "routed b n"
  shows "\<exists>k ks. routing b k = Some ks \<and> n \<in> set ks \<and> broker_DeleteQueue order b n =
      (None, b\<lparr>manager := (manager b)\<lparr>queues := (queues (manager b))(n := None)\<rparr>,
              routing := (routing b)(k \<mapsto> removeFirst (\<lambda>v. v = n) ks)\<rparr>)"
proof -
  from assms(3) obtain k ks where "routing b k = Some ks" "n \<in> set ks" by (rule routedE)
  then have "\<exists>k\<in>set order. n \<in> set (routeOf (routing b) k)"
    using assms(1) by (intro bexI[of _ k]) (auto simp: mapOrder_def routeOf_def)
  then have "\<exists>k ks. routing b k = Some ks \<and> n \<in> set ks \<and> broker_DeleteQueue_loop order b n =
      (None, b\<lparr>manager := (manager b)\<lparr>queues := (queues (manager b))(n := None)\<rparr>,
              routing := (routing b)(k \<mapsto> removeFirst (\<lambda>v. v = n) ks)\<rparr>)"
  proof (induction order)
    case (Cons key order)
    show ?case
    proof (cases "n \<in> set (routeOf (routing b) key)")
      case True
      then obtain ks where "routing b key = Some ks" "n \<in> set ks" by (rule routeOfE)
      with assms(2) show ?thesis
        by (intro exI[of _ key] exI[of _ ks])
          (simp add: cutAt_indexFunc queueManager_Delete_def queueManager_Exists_def fun_upd_def)
    next
      case False
      with Cons show ?thesis
        by (cases "routing b key") (auto simp: routeOf_def cutAt_indexFunc)
    qed
  qed simp
  then show ?thesis by (simp add: broker_DeleteQueue_def)
qed

text \<open>A queue without a route is not deleted, and no error is reported.\<close>

lemma DeleteQueue_unrouted:
  assumes "\<not> routed b n"
  shows "broker_DeleteQueue order b n = (None, b)"
proof -
  have "n \<notin> set ks" if "routing b k = Some ks" for k ks
    using assms routedI[OF that] by blast
  then have "broker_DeleteQueue_loop order b n = (None, b)"
    by (induction order) (auto simp: cutAt_indexFunc split: option.split)
  then show ?thesis by (simp add: broker_DeleteQueue_def)
qed

end
