(* ===== verification/Rbac.thy ===== *)
theory Rbac
  imports Prelude
begin

text \<open>
  Roles and permissions (\<open>pkg/rbac\<close>). A role maps entities (queue names or routing keys, or the
  wildcard) to allowed or denied, one map per message action, and has a list of admin permissions.
  The role manager keeps the roles by name and, per user, a slice of pointers to copies of the roles
  that were assigned.

  The JSON decoder of the standard library is an argument of \<open>CreateRole\<close>: it gives an error, or
  the top-level object. An object is a list of pairs in the order in which a \<open>range\<close> visits the map,
  with every key once.
\<close>

section \<open>Data\<close>

type_synonym AdminPermission = u32

text \<open>The constants are numbered by \<open>iota\<close>: an allow constant is even, its deny constant is one more.\<close>

abbreviation (input) "ALLOW_CREATE_QUEUE \<equiv> (0 :: AdminPermission)"
abbreviation (input) "DENY_CREATE_QUEUE \<equiv> (1 :: AdminPermission)"
abbreviation (input) "ALLOW_DELETE_QUEUE \<equiv> (2 :: AdminPermission)"
abbreviation (input) "DENY_DELETE_QUEUE \<equiv> (3 :: AdminPermission)"
abbreviation (input) "ALLOW_CREATE_USER \<equiv> (4 :: AdminPermission)"
abbreviation (input) "DENY_CREATE_USER \<equiv> (5 :: AdminPermission)"
abbreviation (input) "ALLOW_DELETE_USER \<equiv> (6 :: AdminPermission)"
abbreviation (input) "DENY_DELETE_USER \<equiv> (7 :: AdminPermission)"
abbreviation (input) "ALLOW_CREATE_ROLE \<equiv> (8 :: AdminPermission)"
abbreviation (input) "DENY_CREATE_ROLE \<equiv> (9 :: AdminPermission)"
abbreviation (input) "ALLOW_DELETE_ROLE \<equiv> (10 :: AdminPermission)"
abbreviation (input) "DENY_DELETE_ROLE \<equiv> (11 :: AdminPermission)"
abbreviation (input) "ALLOW_ASSIGN_ROLE \<equiv> (12 :: AdminPermission)"
abbreviation (input) "DENY_ASSIGN_ROLE \<equiv> (13 :: AdminPermission)"
abbreviation (input) "ALLOW_UNASSIGN_ROLE \<equiv> (14 :: AdminPermission)"
abbreviation (input) "DENY_UNASSIGN_ROLE \<equiv> (15 :: AdminPermission)"
abbreviation (input) "ALLOW_CHANGE_PASSWORD \<equiv> (16 :: AdminPermission)"
abbreviation (input) "DENY_CHANGE_PASSWORD \<equiv> (17 :: AdminPermission)"
abbreviation (input) "ALLOW_ADD_ROUTING_KEY \<equiv> (18 :: AdminPermission)"
abbreviation (input) "DENY_ADD_ROUTING_KEY \<equiv> (19 :: AdminPermission)"
abbreviation (input) "ALLOW_DELETE_ROUTING_KEY \<equiv> (20 :: AdminPermission)"
abbreviation (input) "DENY_DELETE_ROUTING_KEY \<equiv> (21 :: AdminPermission)"

type_synonym Action = u32

abbreviation (input) "GET_MESSAGES_ACTION \<equiv> (0 :: Action)"
abbreviation (input) "SUBMIT_MESSAGE_ACTION \<equiv> (1 :: Action)"
abbreviation (input) "SUBMIT_BATCH_ACTION \<equiv> (2 :: Action)"
abbreviation (input) "ACK_ACTION \<equiv> (3 :: Action)"
abbreviation (input) "BATCH_ACK_ACTION \<equiv> (4 :: Action)"

abbreviation ALL_ENTITIES :: string where
  "ALL_ENTITIES \<equiv> ''*''"

type_synonym permMap = "string \<rightharpoonup> bool"

record Role =
  Name :: string
  GetMessages :: permMap
  SubmitMessage :: permMap
  SubmitBatchedMessages :: permMap
  AckPerm :: permMap
  BatchAckPerm :: permMap
  AdminPermissions :: "AdminPermission list"
  RawJSON :: string

record RawRole =
  rawName :: string
  rawRaw :: string

record roleManager =
  roles :: "string \<rightharpoonup> Role"
  users :: "string \<rightharpoonup> Role list"

datatype json =
    JNull
  | JBool bool
  | JNumber string
  | JString string
  | JArray "json list"
  | JObject "(string \<times> json) list"

section \<open>Parsing permissions\<close>

text \<open>\<open>strings.Split\<close> for a separator of one character.\<close>

fun Split :: "string \<Rightarrow> char \<Rightarrow> string list" where
  "Split [] sep = [[]]"
| "Split (c # s) sep =
     (if c = sep then [] # Split s sep
      else case Split s sep of [] \<Rightarrow> [[c]] | w # ws \<Rightarrow> (c # w) # ws)"

definition parseAdminPermissions :: "string \<Rightarrow> error + bool" where
  "parseAdminPermissions permString =
     (if permString = ''allow'' then Inr True
      else if permString = ''deny'' then Inr False
      else Inl OnlyDenyOrAllow)"

fun parsePermissions_loop :: "permMap \<Rightarrow> string list \<Rightarrow> error + permMap" where
  "parsePermissions_loop permissionMap [] = Inr permissionMap"
| "parsePermissions_loop permissionMap (perm # perms) =
     (let parts = Split perm (CHR '':'') in
      if length parts \<noteq> 2 then Inl InvalidNumberOfParts
      else if length (parts ! 1) = 0 then Inl InvalidEntityLength
      else if parts ! 0 = ''allow'' then parsePermissions_loop (permissionMap(parts ! 1 \<mapsto> True)) perms
      else if parts ! 0 \<noteq> ''deny'' then Inl OnlyDenyOrAllow
      else parsePermissions_loop (permissionMap(parts ! 1 \<mapsto> False)) perms)"

definition parsePermissions :: "string \<Rightarrow> error + permMap" where
  "parsePermissions permString = parsePermissions_loop Map.empty (Split permString (CHR '',''))"

section \<open>Creating roles\<close>

text \<open>The cases of an admin action: the constant that \<open>result\<close> selects is appended.\<close>

definition addAdmin ::
    "Role \<Rightarrow> string \<Rightarrow> AdminPermission \<Rightarrow> AdminPermission \<Rightarrow> error + Role" where
  "addAdmin role perm allow deny =
     (case parseAdminPermissions perm of
        Inl err \<Rightarrow> Inl err
      | Inr result \<Rightarrow>
          Inr (role\<lparr>AdminPermissions := AdminPermissions role @ [if result then allow else deny]\<rparr>))"

definition setPerm :: "((permMap \<Rightarrow> permMap) \<Rightarrow> Role \<Rightarrow> Role) \<Rightarrow> Role \<Rightarrow> string \<Rightarrow> error + Role" where
  "setPerm upd role perm =
     (case parsePermissions perm of Inl err \<Rightarrow> Inl err | Inr mp \<Rightarrow> Inr (upd (\<lambda>_. mp) role))"

definition CreateRole_action :: "Role \<Rightarrow> string \<Rightarrow> string \<Rightarrow> error + Role" where
  "CreateRole_action role action perm =
     (if action = ''GetMessages'' then setPerm GetMessages_update role perm
      else if action = ''SubmitMessage'' then setPerm SubmitMessage_update role perm
      else if action = ''SubmitBatchedMessages'' then setPerm SubmitBatchedMessages_update role perm
      else if action = ''Ack'' then setPerm AckPerm_update role perm
      else if action = ''BatchAck'' then setPerm BatchAckPerm_update role perm
      else if action = ''CreateQueue'' then addAdmin role perm ALLOW_CREATE_QUEUE DENY_CREATE_QUEUE
      else if action = ''DeleteQueue'' then addAdmin role perm ALLOW_DELETE_QUEUE DENY_DELETE_QUEUE
      else if action = ''CreateUser'' then addAdmin role perm ALLOW_CREATE_USER DENY_CREATE_USER
      else if action = ''DeleteUser'' then addAdmin role perm ALLOW_DELETE_USER DENY_DELETE_USER
      else if action = ''CreateRole'' then addAdmin role perm ALLOW_CREATE_ROLE DENY_CREATE_ROLE
      else if action = ''DeleteRole'' then addAdmin role perm ALLOW_DELETE_ROLE DENY_DELETE_ROLE
      else if action = ''AssignRole'' then addAdmin role perm ALLOW_ASSIGN_ROLE DENY_ASSIGN_ROLE
      else if action = ''UnassignRole'' then addAdmin role perm ALLOW_UNASSIGN_ROLE DENY_UNASSIGN_ROLE
      else if action = ''ChangePassword'' then
        addAdmin role perm ALLOW_CHANGE_PASSWORD DENY_CHANGE_PASSWORD
      else if action = ''AddRoutingKey'' then
        addAdmin role perm ALLOW_ADD_ROUTING_KEY DENY_ADD_ROUTING_KEY
      else if action = ''DeleteRoutingKey'' then
        addAdmin role perm ALLOW_DELETE_ROUTING_KEY DENY_DELETE_ROUTING_KEY
      else Inl (InvalidFieldFound action))"

fun CreateRole_loop :: "Role \<Rightarrow> (string \<times> json) list \<Rightarrow> error + Role" where
  "CreateRole_loop role [] = Inr role"
| "CreateRole_loop role ((action, permissions) # actions) =
     (case permissions of
        JString perm \<Rightarrow>
          (case CreateRole_action role action perm of
             Inl err \<Rightarrow> Inl err
           | Inr role' \<Rightarrow> CreateRole_loop role' actions)
      | _ \<Rightarrow> Inl InvalidPermission)"

definition emptyRole :: "string \<Rightarrow> string \<Rightarrow> Role" where
  "emptyRole nameStr jsonRole =
     \<lparr>Name = nameStr, GetMessages = Map.empty, SubmitMessage = Map.empty,
      SubmitBatchedMessages = Map.empty, AckPerm = Map.empty, BatchAckPerm = Map.empty,
      AdminPermissions = [], RawJSON = jsonRole\<rparr>"

definition CreateRole ::
    "(string \<Rightarrow> error + (string \<times> json) list) \<Rightarrow> roleManager \<Rightarrow> string \<Rightarrow> error + Role" where
  "CreateRole unmarshal r jsonRole =
     (case unmarshal jsonRole of
        Inl err \<Rightarrow> Inl err
      | Inr roleData \<Rightarrow>
          (case map_of roleData ''role'' of
             None \<Rightarrow> Inl MissingRoleName
           | Some (JString nameStr) \<Rightarrow>
               if length nameStr = 0 then Inl RoleNameLength
               else if roles r nameStr \<noteq> None then Inl (RoleExistsAlready nameStr)
               else
                 (case map_of roleData ''actions'' of
                    None \<Rightarrow> Inl MissingActions
                  | Some (JObject actions) \<Rightarrow>
                      if length actions = 0 then Inl NoActionsProvided
                      else CreateRole_loop (emptyRole nameStr jsonRole) actions
                  | Some _ \<Rightarrow> Inl InvalidActions)
           | Some _ \<Rightarrow> Inl RoleNameLength))"

section \<open>Managing roles\<close>

definition AddRole :: "roleManager \<Rightarrow> Role \<Rightarrow> error option \<times> roleManager" where
  "AddRole r role =
     (if roles r (Name role) \<noteq> None then (Some RoleNameExists, r)
      else (None, r\<lparr>roles := (roles r)(Name role \<mapsto> role)\<rparr>))"

text \<open>\<open>remove\<close> overwrites the element with the last one and shortens the slice.\<close>

definition remove_role :: "Role list \<Rightarrow> nat \<Rightarrow> Role list" where
  "remove_role s i = swapRemove s i"

text \<open>
  The loop over the roles of a user that \<open>DeleteRole\<close> and \<open>UnassignRole\<close> share: the first role with the
  name is removed.
\<close>

definition removeNamed :: "Role list \<Rightarrow> string \<Rightarrow> Role list option" where
  "removeNamed s role = map_option (remove_role s) (firstIndex (\<lambda>rol. Name rol = role) s)"

text \<open>
  \<open>DeleteRole\<close> treats every user apart from the others, so the order of its \<open>range\<close> does not show.
\<close>

definition DeleteRole :: "roleManager \<Rightarrow> string \<Rightarrow> error option \<times> roleManager" where
  "DeleteRole r role =
     (if roles r role = None then (Some (RoleDoesNotExistError role), r)
      else
        (None,
         r\<lparr>roles := (roles r)(role := None),
           users := (\<lambda>k. case users r k of
                           None \<Rightarrow> None
                         | Some v \<Rightarrow> (case removeNamed v role of None \<Rightarrow> Some v | Some v' \<Rightarrow> Some v'))\<rparr>))"

definition AssignRole :: "roleManager \<Rightarrow> string \<Rightarrow> string \<Rightarrow> error option \<times> roleManager" where
  "AssignRole r username roleName =
     (case roles r roleName of
        None \<Rightarrow> (Some (RoleDoesNotExistError roleName), r)
      | Some role \<Rightarrow>
          (case users r username of
             None \<Rightarrow> (None, r\<lparr>users := (users r)(username \<mapsto> [role])\<rparr>)
           | Some rs \<Rightarrow> (None, r\<lparr>users := (users r)(username \<mapsto> rs @ [role])\<rparr>)))"

definition UnassignRole :: "roleManager \<Rightarrow> string \<Rightarrow> string \<Rightarrow> error option \<times> roleManager" where
  "UnassignRole r username roleName =
     (if roles r roleName = None then (Some (RoleDoesNotExistError roleName), r)
      else
        case users r username of
          None \<Rightarrow> (Some (UserWithoutRoles username), r)
        | Some rs \<Rightarrow>
            (case removeNamed rs roleName of
               Some rs' \<Rightarrow> (None, r\<lparr>users := (users r)(username \<mapsto> rs')\<rparr>)
             | None \<Rightarrow> (Some (UserWithoutRole username roleName), r)))"

section \<open>Deciding permissions\<close>

fun scanAdmin :: "AdminPermission \<Rightarrow> AdminPermission \<Rightarrow> AdminPermission list \<Rightarrow> bool \<Rightarrow> bool option" where
  "scanAdmin permission permissionDeny [] foundAllow = Some foundAllow"
| "scanAdmin permission permissionDeny (p # ps) foundAllow =
     (if p = permissionDeny then None
      else scanAdmin permission permissionDeny ps (if p = permission then True else foundAllow))"

fun HasAdminPermission_loop ::
    "AdminPermission \<Rightarrow> AdminPermission \<Rightarrow> Role list \<Rightarrow> bool \<Rightarrow> bool" where
  "HasAdminPermission_loop permission permissionDeny [] foundAllow = foundAllow"
| "HasAdminPermission_loop permission permissionDeny (rol # rs) foundAllow =
     (case scanAdmin permission permissionDeny (AdminPermissions rol) foundAllow of
        None \<Rightarrow> False
      | Some foundAllow' \<Rightarrow> HasAdminPermission_loop permission permissionDeny rs foundAllow')"

definition HasAdminPermission :: "roleManager \<Rightarrow> string \<Rightarrow> AdminPermission \<Rightarrow> error + bool" where
  "HasAdminPermission r username permission =
     (case users r username of
        None \<Rightarrow> Inl (UserWithoutRoles username)
      | Some rs \<Rightarrow> Inr (HasAdminPermission_loop permission (permission + 1) rs False))"

text \<open>The map that the \<open>switch\<close> of \<open>HasPermission\<close> reads; another number has no case.\<close>

definition actionMap :: "Role \<Rightarrow> Action \<Rightarrow> permMap option" where
  "actionMap rol permission =
     (if permission = GET_MESSAGES_ACTION then Some (GetMessages rol)
      else if permission = ACK_ACTION then Some (AckPerm rol)
      else if permission = BATCH_ACK_ACTION then Some (BatchAckPerm rol)
      else if permission = SUBMIT_MESSAGE_ACTION then Some (SubmitMessage rol)
      else if permission = SUBMIT_BATCH_ACTION then Some (SubmitBatchedMessages rol)
      else None)"

fun HasPermission_loop :: "string \<Rightarrow> Action \<Rightarrow> Role list \<Rightarrow> bool \<Rightarrow> bool" where
  "HasPermission_loop entity permission [] hasPerm = hasPerm"
| "HasPermission_loop entity permission (rol # rs) hasPerm =
     (case actionMap rol permission of
        None \<Rightarrow> HasPermission_loop entity permission rs hasPerm
      | Some m \<Rightarrow>
          (case m ALL_ENTITIES of
             Some value \<Rightarrow>
               if value then HasPermission_loop entity permission rs True else False
           | None \<Rightarrow>
               (case m entity of
                  Some value \<Rightarrow>
                    if value then HasPermission_loop entity permission rs True else False
                | None \<Rightarrow> HasPermission_loop entity permission rs hasPerm)))"

definition HasPermission :: "roleManager \<Rightarrow> string \<Rightarrow> string \<Rightarrow> Action \<Rightarrow> error + bool" where
  "HasPermission r username entity permission =
     (case users r username of
        None \<Rightarrow> Inl (UserWithoutRoles username)
      | Some rs \<Rightarrow> Inr (HasPermission_loop entity permission rs False))"

definition RoleExists :: "roleManager \<Rightarrow> string \<Rightarrow> bool" where
  "RoleExists r role \<longleftrightarrow> roles r role \<noteq> None"

definition rawRole :: "Role \<Rightarrow> RawRole" where
  "rawRole role = \<lparr>rawName = Name role, rawRaw = RawJSON role\<rparr>"

definition GetRoles :: "roleManager \<Rightarrow> string \<Rightarrow> error + RawRole list" where
  "GetRoles r user =
     (case users r user of
        None \<Rightarrow> Inl (UserWithoutRoles user)
      | Some rs \<Rightarrow> Inr (map rawRole rs))"

text \<open>The order of the \<open>range\<close> over the roles is the first argument.\<close>

definition GetAllRoles :: "string list \<Rightarrow> roleManager \<Rightarrow> RawRole list" where
  "GetAllRoles order r = map rawRole (List.map_filter (roles r) order)"

end
