(* ===== verification/RbacBuiltin.thy ===== *)
theory RbacBuiltin
  imports Rbac
begin

text \<open>
  The built-in roles of \<open>pkg/rbac/builtin.go\<close> and the role manager a server starts with. The raw JSON
  texts are given line by line, each with the number of tabs it starts with.
\<close>

section \<open>The raw texts\<close>

definition line :: "nat \<Rightarrow> string \<Rightarrow> string" where
  "line tabs s = replicate tabs (CHR 0x09) @ s"

fun joinLines :: "string list \<Rightarrow> string" where
  "joinLines [] = []"
| "joinLines [l] = l"
| "joinLines (l # ls) = l @ [CHR 0x0A] @ joinLines ls"

definition rawROOT :: string where \<open>
  rawROOT = joinLines
   [line 0 '''',
    line 0 ''{'',
    line 1 ''"role": "ROOT",'',
    line 1 ''"actions": {'',
    line 2 ''"GetMessages": "allow:*",'',
    line 2 ''"SubmitMessage": "allow:*",'',
    line 2 ''"SubmitBatchedMessages": "allow:*",'',
    line 2 ''"CreateQueue": "allow",'',
    line 2 ''"ChangePassword": "allow",'',
    line 2 ''"Ack": "allow:*",'',
    line 2 ''"BatchAck": "allow:*",'',
    line 2 ''"DeleteQueue": "allow",'',
    line 2 ''"CreateUser": "allow",'',
    line 2 ''"DeleteUser": "allow",'',
    line 2 ''"CreateRole": "allow",'',
    line 2 ''"DeleteRole": "allow",'',
    line 2 ''"AssignRole": "allow",'',
    line 2 ''"UnassignRole": "allow",'',
    line 2 ''"CreateRole": "allow"'',
    line 1 ''}'',
    line 0 ''}'']\<close>

definition rawADMIN :: string where \<open>
  rawADMIN = joinLines
   [line 0 '''',
    line 2 ''{'',
    line 3 ''"role": "ADMIN",'',
    line 3 ''"actions": {'',
    line 4 ''"CreateQueue": "allow",'',
    line 4 ''"ChangePassword": "allow",'',
    line 4 ''"DeleteQueue": "allow",'',
    line 4 ''"CreateUser": "allow",'',
    line 4 ''"DeleteUser": "allow",'',
    line 4 ''"CreateRole": "allow",'',
    line 4 ''"DeleteRole": "allow",'',
    line 4 ''"AssignRole": "allow",'',
    line 4 ''"UnassignRole": "allow",'',
    line 4 ''"CreateRole": "allow"'',
    line 3 ''}'',
    line 2 ''}'']\<close>

definition rawPRODUCER :: string where \<open>
  rawPRODUCER = joinLines
   [line 0 '''',
    line 2 ''{'',
    line 3 ''"role": "PRODUCER",'',
    line 3 ''"actions": {'',
    line 4 ''"SubmitMessage": "allow:*",'',
    line 4 ''"SubmitBatchedMessages": "allow:*"'',
    line 3 ''}'',
    line 2 ''}'']\<close>

definition rawCONSUMER :: string where \<open>
  rawCONSUMER = joinLines
   [line 0 '''',
    line 2 ''{'',
    line 3 ''"role": "CONSUMER",'',
    line 3 ''"actions": {'',
    line 4 ''"GetMessages": "allow:*",'',
    line 4 ''"Ack": "allow:*",'',
    line 4 ''"BatchAck": "allow:*"'',
    line 3 ''}'',
    line 2 ''}'']\<close>

definition rawDENY :: string where \<open>
  rawDENY = joinLines
   [line 0 '''',
    line 2 ''{'',
    line 3 ''"role": "DENY",'',
    line 3 ''"actions": {'',
    line 4 ''"GetMessages": "deny:*",'',
    line 4 ''"SubmitMessage": "deny:*",'',
    line 4 ''"SubmitBatchedMessages": "deny:*",'',
    line 4 ''"CreateQueue": "deny",'',
    line 4 ''"ChangePassword": "deny",'',
    line 4 ''"Ack": "deny:*",'',
    line 4 ''"BatchAck": "deny:*",'',
    line 4 ''"DeleteQueue": "deny",'',
    line 4 ''"CreateUser": "deny",'',
    line 4 ''"DeleteUser": "deny",'',
    line 4 ''"CreateRole": "deny",'',
    line 4 ''"DeleteRole": "deny",'',
    line 4 ''"AssignRole": "deny",'',
    line 4 ''"UnassignRole": "deny",'',
    line 4 ''"CreateRole": "deny"'',
    line 3 ''}'',
    line 2 ''}'']\<close>

section \<open>The roles\<close>

definition allAdmin :: "AdminPermission list" where
  "allAdmin =
     [ALLOW_CREATE_QUEUE, ALLOW_DELETE_QUEUE, ALLOW_CREATE_USER, ALLOW_DELETE_USER,
      ALLOW_CREATE_ROLE, ALLOW_DELETE_ROLE, ALLOW_ASSIGN_ROLE, ALLOW_UNASSIGN_ROLE,
      ALLOW_ADD_ROUTING_KEY, ALLOW_DELETE_ROUTING_KEY, ALLOW_CHANGE_PASSWORD]"

definition denyAdmin :: "AdminPermission list" where
  "denyAdmin =
     [DENY_CREATE_QUEUE, DENY_DELETE_QUEUE, DENY_CREATE_USER, DENY_DELETE_USER,
      DENY_CREATE_ROLE, DENY_DELETE_ROLE, DENY_ASSIGN_ROLE, DENY_UNASSIGN_ROLE,
      DENY_ADD_ROUTING_KEY, DENY_DELETE_ROUTING_KEY, DENY_CHANGE_PASSWORD]"

definition anyAllow :: permMap where
  "anyAllow = [''*'' \<mapsto> True]"

definition anyDeny :: permMap where
  "anyDeny = [''*'' \<mapsto> False]"

definition roleROOT :: Role where
  "roleROOT =
     \<lparr>Name = ''ROOT'', GetMessages = anyAllow, SubmitMessage = anyAllow,
      SubmitBatchedMessages = anyAllow, AckPerm = anyAllow, BatchAckPerm = anyAllow,
      AdminPermissions = allAdmin, RawJSON = rawROOT\<rparr>"

definition roleADMIN :: Role where
  "roleADMIN =
     \<lparr>Name = ''ADMIN'', GetMessages = Map.empty, SubmitMessage = Map.empty,
      SubmitBatchedMessages = Map.empty, AckPerm = Map.empty, BatchAckPerm = Map.empty,
      AdminPermissions = allAdmin, RawJSON = rawADMIN\<rparr>"

definition rolePRODUCER :: Role where
  "rolePRODUCER =
     \<lparr>Name = ''PRODUCER'', GetMessages = Map.empty, SubmitMessage = anyAllow,
      SubmitBatchedMessages = anyAllow, AckPerm = Map.empty, BatchAckPerm = Map.empty,
      AdminPermissions = [], RawJSON = rawPRODUCER\<rparr>"

definition roleCONSUMER :: Role where
  "roleCONSUMER =
     \<lparr>Name = ''CONSUMER'', GetMessages = anyAllow, SubmitMessage = Map.empty,
      SubmitBatchedMessages = Map.empty, AckPerm = anyAllow, BatchAckPerm = anyAllow,
      AdminPermissions = [], RawJSON = rawCONSUMER\<rparr>"

definition roleDENY :: Role where
  "roleDENY =
     \<lparr>Name = ''DENY'', GetMessages = anyDeny, SubmitMessage = anyDeny,
      SubmitBatchedMessages = anyDeny, AckPerm = anyDeny, BatchAckPerm = anyDeny,
      AdminPermissions = denyAdmin, RawJSON = rawDENY\<rparr>"

definition createBuiltInRoles :: "roleManager \<Rightarrow> roleManager" where
  "createBuiltInRoles m =
     fold (\<lambda>role m. snd (AddRole m role)) [roleROOT, roleADMIN, rolePRODUCER, roleCONSUMER, roleDENY] m"

definition NewRoleManager :: roleManager where
  "NewRoleManager = createBuiltInRoles \<lparr>roles = Map.empty, users = Map.empty\<rparr>"

section \<open>The initial manager\<close>

lemma NewRoleManager_roles:
  "roles NewRoleManager =
     [''ROOT'' \<mapsto> roleROOT, ''ADMIN'' \<mapsto> roleADMIN, ''PRODUCER'' \<mapsto> rolePRODUCER,
      ''CONSUMER'' \<mapsto> roleCONSUMER, ''DENY'' \<mapsto> roleDENY]"
  "users NewRoleManager = Map.empty"
  by (simp_all add: NewRoleManager_def createBuiltInRoles_def AddRole_def roleROOT_def roleADMIN_def
      rolePRODUCER_def roleCONSUMER_def roleDENY_def)

end
