(* ===== verification/RbacInv.thy ===== *)
theory RbacInv
  imports RbacBuiltin
begin

text \<open>
  What the permission checks decide, that permission strings can be parsed back, and what assigning,
  unassigning and deleting roles does to the roles of a user.
\<close>

section \<open>Deny overrides allow across roles\<close>

text \<open>
  Both permission checks scan the roles of a user with an early return on a deny. The locale states
  that scheme once: \<open>denies\<close> stops the scan, \<open>grants\<close> sets the flag.
\<close>

locale deny_overrides =
  fixes scan :: "'r list \<Rightarrow> bool \<Rightarrow> bool"
    and denies :: "'r \<Rightarrow> bool"
    and grants :: "'r \<Rightarrow> bool"
  assumes scan_Nil: "scan [] b = b"
    and scan_deny: "denies r \<Longrightarrow> scan (r # rs) b = False"
    and scan_grant: "\<not> denies r \<Longrightarrow> grants r \<Longrightarrow> scan (r # rs) b = scan rs True"
    and scan_other: "\<not> denies r \<Longrightarrow> \<not> grants r \<Longrightarrow> scan (r # rs) b = scan rs b"
begin

lemma scan_iff: "scan rs b \<longleftrightarrow> (\<forall>r\<in>set rs. \<not> denies r) \<and> (b \<or> (\<exists>r\<in>set rs. grants r))"
proof (induction rs arbitrary: b)
  case (Cons r rs)
  then show ?case
    by (cases "denies r"; cases "grants r") (auto simp: scan_deny scan_grant scan_other)
qed (simp add: scan_Nil)

lemma scan_set: "set rs = set rs' \<Longrightarrow> scan rs b = scan rs' b"
  by (simp add: scan_iff)

lemma scan_denied: "r \<in> set rs \<Longrightarrow> denies r \<Longrightarrow> \<not> scan rs b"
  by (auto simp: scan_iff)

end

lemma scanAdmin_eq:
  "scanAdmin p d ps b = (if d \<in> set ps then None else Some (b \<or> p \<in> set ps))"
  by (induction ps arbitrary: b) auto

interpretation admin: deny_overrides "HasAdminPermission_loop p (p + 1)"
  "\<lambda>r. p + 1 \<in> set (AdminPermissions r)" "\<lambda>r. p \<in> set (AdminPermissions r)" for p
  by unfold_locales (auto simp: scanAdmin_eq)

text \<open>What one role says about an entity: the wildcard of a map decides before the entity.\<close>

definition roleVerdict :: "Role \<Rightarrow> string \<Rightarrow> Action \<Rightarrow> bool option" where
  "roleVerdict rol entity permission =
     (case actionMap rol permission of
        None \<Rightarrow> None
      | Some m \<Rightarrow> (case m ALL_ENTITIES of Some v \<Rightarrow> Some v | None \<Rightarrow> m entity))"

interpretation msg: deny_overrides "HasPermission_loop entity permission"
  "\<lambda>r. roleVerdict r entity permission = Some False" "\<lambda>r. roleVerdict r entity permission = Some True"
  for entity permission
  by unfold_locales (auto simp: roleVerdict_def split: option.splits)

lemma HasAdminPermission_iff:
  "HasAdminPermission r u p = Inr True \<longleftrightarrow>
     (\<exists>rs. users r u = Some rs \<and> (\<forall>rol\<in>set rs. p + 1 \<notin> set (AdminPermissions rol)) \<and>
           (\<exists>rol\<in>set rs. p \<in> set (AdminPermissions rol)))"
  by (auto simp: HasAdminPermission_def admin.scan_iff split: option.splits)

lemma HasPermission_iff:
  "HasPermission r u entity p = Inr True \<longleftrightarrow>
     (\<exists>rs. users r u = Some rs \<and> (\<forall>rol\<in>set rs. roleVerdict rol entity p \<noteq> Some False) \<and>
           (\<exists>rol\<in>set rs. roleVerdict rol entity p = Some True))"
  by (auto simp: HasPermission_def msg.scan_iff split: option.splits)

section \<open>Permission strings\<close>

lemma Split_nonempty [simp]: "Split s sep \<noteq> []"
  by (cases s) (auto split: list.splits)

lemma Split_plain: "sep \<notin> set s \<Longrightarrow> Split s sep = [s]"
  by (induction s) auto

lemma Split_append: "sep \<notin> set s \<Longrightarrow> Split (s @ sep # t) sep = s # Split t sep"
  by (induction s) auto

text \<open>A permission string as it is written in a role: entries with a verdict, separated by commas.\<close>

definition showPerm :: "string \<times> bool \<Rightarrow> string" where
  "showPerm p = (if snd p then ''allow'' else ''deny'') @ CHR '':'' # fst p"

fun showPerms :: "(string \<times> bool) list \<Rightarrow> string" where
  "showPerms [] = []"
| "showPerms [p] = showPerm p"
| "showPerms (p # ps) = showPerm p @ CHR '','' # showPerms ps"

definition plainEntity :: "string \<Rightarrow> bool" where
  "plainEntity e \<longleftrightarrow> e \<noteq> [] \<and> CHR '','' \<notin> set e \<and> CHR '':'' \<notin> set e"

lemma Split_showPerms:
  "ps \<noteq> [] \<Longrightarrow> \<forall>p\<in>set ps. plainEntity (fst p) \<Longrightarrow> Split (showPerms ps) (CHR '','') = map showPerm ps"
proof (induction ps rule: showPerms.induct)
  case (2 p)
  then have "CHR '','' \<notin> set (showPerm p)" by (auto simp: showPerm_def plainEntity_def)
  then show ?case by (simp add: Split_plain)
next
  case (3 p p' ps)
  then have "CHR '','' \<notin> set (showPerm p)" by (auto simp: showPerm_def plainEntity_def)
  with 3 show ?case by (simp add: Split_append)
qed simp

lemma parsePermissions_loop_show:
  "\<forall>p\<in>set ps. plainEntity (fst p) \<Longrightarrow>
   parsePermissions_loop m (map showPerm ps) = Inr (m ++ map_of (rev ps))"
proof (induction ps arbitrary: m)
  case (Cons p ps)
  then have e: "CHR '':'' \<notin> set (fst p)" "fst p \<noteq> []" by (auto simp: plainEntity_def)
  have "Split (showPerm p) (CHR '':'') = [if snd p then ''allow'' else ''deny'', fst p]"
    using Split_append[of "CHR '':''" "if snd p then ''allow'' else ''deny''" "fst p"] Split_plain[OF e(1)]
    by (simp add: showPerm_def)
  moreover have "m(fst p \<mapsto> b) ++ map_of (rev ps) = m ++ map_of (rev ps @ [(fst p, b)])" for b
    by (auto simp: map_add_def fun_eq_iff split: option.splits)
  ultimately show ?case using e Cons by (cases p) auto
qed simp

lemma parsePermissions_show:
  assumes "ps \<noteq> []" "\<forall>p\<in>set ps. plainEntity (fst p)"
  shows "parsePermissions (showPerms ps) = Inr (map_of (rev ps))"
  using assms by (simp add: parsePermissions_def Split_showPerms parsePermissions_loop_show)

section \<open>Roles of a user\<close>

text \<open>The scan removes one role with the name, and finds one exactly when there is one.\<close>

lemma removeNamed_None: "removeNamed s n = None \<longleftrightarrow> (\<forall>r\<in>set s. Name r \<noteq> n)"
  by (simp add: removeNamed_def firstIndex_None)

lemma removeNamed_Some:
  assumes "removeNamed s n = Some s'"
  obtains r where "r \<in># mset s" "Name r = n" "mset s' = mset s - {#r#}"
proof -
  from assms obtain i where i: "firstIndex (\<lambda>rol. Name rol = n) s = Some i" "s' = remove_role s i"
    by (auto simp: removeNamed_def)
  with that[of "s ! i"] firstIndex_Some[OF i(1)] show thesis
    by (simp add: remove_role_def mset_swapRemove)
qed

lemma remaining_roles:
  assumes "mset s' = mset s - {#r#}" "x \<in> set s'"
  shows "x \<in> set s"
  using assms by (metis in_diffD set_mset_mset)

text \<open>How often a user has a role with a name.\<close>

definition holdsRole :: "roleManager \<Rightarrow> string \<Rightarrow> string \<Rightarrow> nat" where
  "holdsRole r u n =
     (case users r u of None \<Rightarrow> 0 | Some rs \<Rightarrow> length (filter (\<lambda>rol. Name rol = n) rs))"

lemma length_filter_mset: "length (filter P xs) = size (filter_mset P (mset xs))"
  by (metis mset_filter size_mset)

lemma removeNamed_count:
  assumes "removeNamed s n = Some s'"
  shows "length (filter (\<lambda>r. Name r = n') s') =
    length (filter (\<lambda>r. Name r = n') s) - (if n' = n then 1 else 0)"
proof -
  from assms obtain r where r: "r \<in># mset s" "Name r = n" "mset s' = mset s - {#r#}"
    by (rule removeNamed_Some)
  have "size (filter_mset (\<lambda>r. Name r = n') (mset s - {#r#})) =
      size (filter_mset (\<lambda>r. Name r = n') (mset s)) - (if n' = n then 1 else 0)"
    using r(1,2) by (auto simp: filter_diff_mset size_Diff_singleton)
  with r(3) show ?thesis by (simp add: length_filter_mset)
qed

lemma DeleteRole_count:
  assumes "roles r n \<noteq> None"
  shows "holdsRole (snd (DeleteRole r n)) u n' = holdsRole r u n' - (if n' = n then 1 else 0)"
proof (cases "users r u")
  case (Some rs)
  show ?thesis
  proof (cases "removeNamed rs n")
    case None
    then have "filter (\<lambda>rol. Name rol = n) rs = []" by (simp add: removeNamed_None)
    with assms Some None show ?thesis by (auto simp: DeleteRole_def holdsRole_def)
  next
    case (Some rs')
    with assms \<open>users r u = Some rs\<close> removeNamed_count[OF Some] show ?thesis
      by (auto simp: DeleteRole_def holdsRole_def)
  qed
qed (use assms in \<open>auto simp: DeleteRole_def holdsRole_def\<close>)

lemma AssignRole_count:
  assumes "roles r n = Some rol" "Name rol = n"
  shows "holdsRole (snd (AssignRole r u n)) u' n' =
    holdsRole r u' n' + (if u' = u \<and> n' = n then 1 else 0)"
  using assms by (auto simp: AssignRole_def holdsRole_def split: option.splits)

text \<open>Names of stored roles; every operation of the manager keeps them.\<close>

definition namesOk :: "roleManager \<Rightarrow> bool" where
  "namesOk r \<longleftrightarrow> (\<forall>n rol. roles r n = Some rol \<longrightarrow> Name rol = n)"

lemma namesOk_new: "namesOk NewRoleManager"
  by (auto simp: namesOk_def NewRoleManager_roles roleROOT_def roleADMIN_def rolePRODUCER_def
      roleCONSUMER_def roleDENY_def split: if_splits)

lemma namesOk_ops:
  assumes "namesOk r"
  shows "namesOk (snd (AddRole r rol))" "namesOk (snd (DeleteRole r n))"
    "namesOk (snd (AssignRole r u n))" "namesOk (snd (UnassignRole r u n))"
  using assms
  by (auto simp: namesOk_def AddRole_def DeleteRole_def AssignRole_def UnassignRole_def
      split: option.split if_splits)

text \<open>Taking a role back right after giving it leaves the user with the same roles.\<close>

lemma Assign_Unassign:
  assumes "namesOk r" "roles r n = Some rol" "\<forall>x\<in>set (case users r u of None \<Rightarrow> [] | Some rs \<Rightarrow> rs). Name x = n \<longrightarrow> x = rol"
  shows "\<exists>r'. UnassignRole (snd (AssignRole r u n)) u n = (None, r') \<and> roles r' = roles r \<and>
    (\<forall>u'. u' \<noteq> u \<longrightarrow> users r' u' = users r u') \<and>
    (\<exists>rs. users r' u = Some rs \<and> mset rs = mset (case users r u of None \<Rightarrow> [] | Some rs \<Rightarrow> rs))"
proof -
  let ?rs = "case users r u of None \<Rightarrow> [] | Some rs \<Rightarrow> rs"
  have nm: "Name rol = n" using assms(1,2) by (auto simp: namesOk_def)
  have a: "snd (AssignRole r u n) = r\<lparr>users := (users r)(u \<mapsto> ?rs @ [rol])\<rparr>"
    using assms(2) by (simp add: AssignRole_def split: option.split)
  have "removeNamed (?rs @ [rol]) n \<noteq> None" using nm by (auto simp: removeNamed_None)
  then obtain rs' where rs': "removeNamed (?rs @ [rol]) n = Some rs'" by auto
  then obtain x where x: "x \<in># mset (?rs @ [rol])" "Name x = n" "mset rs' = mset (?rs @ [rol]) - {#x#}"
    by (rule removeNamed_Some)
  have "x = rol" using x(1,2) assms(3) by auto
  with x(3) have "mset rs' = mset ?rs" by simp
  with a rs' assms(2) show ?thesis by (simp add: UnassignRole_def)
qed

end
