(* ===== verification/Sessions.thy ===== *)
theory Sessions
  imports Prelude
begin

text \<open>
  Login sessions (\<open>pkg/auth/SessionHandler.go\<close>), their propagation to the followers
  (\<open>followerSessions.go\<close>, \<open>sessionServer.go\<close>) and the hash of \<open>utils.go\<close>.

  A point in time is an integer, its nanoseconds since the Unix epoch. A follower client is the
  function from the request to the error that the call returns; the call itself is made by generated
  gRPC code.
\<close>

section \<open>The session handler\<close>

record timeSession =
  stime :: int
  sid :: bytes
  stoken :: string

record sessionHandler =
  sessionIDs :: "string \<rightharpoonup> timeSession list"

definition NewSessionHandler :: sessionHandler where
  "NewSessionHandler = \<lparr>sessionIDs = Map.empty\<rparr>"

text \<open>
  \<open>GetConsumerID\<close> gives its result and the call of \<open>RemoveToken\<close> that it starts in a goroutine, as the
  pair of the arguments \<open>token\<close> and \<open>username\<close> it passes.
\<close>

definition GetConsumerID ::
    "sessionHandler \<Rightarrow> int \<Rightarrow> string \<Rightarrow> string \<Rightarrow> (error + bytes) \<times> (string \<times> string) option" where
  "GetConsumerID r now token username =
     (case sessionIDs r username of
        None \<Rightarrow> (Inl ErrNoUserSessionExists, None)
      | Some sess \<Rightarrow>
          (case find (\<lambda>v. stoken v = token) sess of
             None \<Rightarrow> (Inl ErrNoUserSessionExists, None)
           | Some v \<Rightarrow>
               if now < stime v then (Inr (sid v), None)
               else (Inl ErrNoUserSessionExists, Some (username, token))))"

text \<open>
  \<open>RemoveToken\<close> assigns the shortened slice to its local variable. The map keeps its slice, which
  shares the array that \<open>remove\<close> writes: it has the old length, with the last session copied over the
  one that was found.
\<close>

definition RemoveToken :: "sessionHandler \<Rightarrow> string \<Rightarrow> string \<Rightarrow> error option \<times> sessionHandler" where
  "RemoveToken r token username =
     (case sessionIDs r username of
        None \<Rightarrow> (Some ErrUserDoesNotExist, r)
      | Some sess \<Rightarrow>
          (case firstIndex (\<lambda>v. stoken v = token) sess of
             None \<Rightarrow> (Some ErrTokenDoesNotExist, r)
           | Some index \<Rightarrow>
               if length sess = 1
               then (None, r\<lparr>sessionIDs := (sessionIDs r)(username := None)\<rparr>)
               else (None, r\<lparr>sessionIDs := (sessionIDs r)
                               (username \<mapsto> sess[index := sess ! (length sess - 1)])\<rparr>)))"

definition AddToken ::
    "sessionHandler \<Rightarrow> string \<Rightarrow> string \<Rightarrow> bytes \<Rightarrow> int \<Rightarrow> error option \<times> sessionHandler" where
  "AddToken r token username consumerID ttl =
     (case sessionIDs r username of
        Some mp \<Rightarrow>
          (None, r\<lparr>sessionIDs := (sessionIDs r)
                     (username \<mapsto> mp @ [\<lparr>stime = ttl, sid = consumerID, stoken = token\<rparr>])\<rparr>)
      | None \<Rightarrow>
          (None, r\<lparr>sessionIDs := (sessionIDs r)
                     (username \<mapsto> [\<lparr>stime = ttl, sid = consumerID, stoken = token\<rparr>])\<rparr>))"

definition sessionHandler_DeleteUser :: "sessionHandler \<Rightarrow> string \<Rightarrow> error option \<times> sessionHandler" where
  "sessionHandler_DeleteUser r username = (None, r\<lparr>sessionIDs := (sessionIDs r)(username := None)\<rparr>)"

section \<open>Followers\<close>

record PropagateSessionRequest =
  prToken :: string
  prUsername :: string
  prConsumerId :: bytes
  prTimeToLive :: int

record DeleteSessionRequest =
  drToken :: string
  drUsername :: string

text \<open>\<open>ttl.Unix()\<close> and \<open>time.Unix(s, 0)\<close>: whole seconds.\<close>

definition toUnix :: "int \<Rightarrow> int" where
  "toUnix t = t div 1000000000"

definition fromUnix :: "int \<Rightarrow> int" where
  "fromUnix s = s * 1000000000"

text \<open>
  The results: the error, and the requests that were sent, in order. A failed propagation is logged
  and the loop goes on; a failed deletion ends the loop.
\<close>

definition PropagateSessions ::
    "(PropagateSessionRequest \<Rightarrow> error option) list \<Rightarrow> string \<Rightarrow> string \<Rightarrow> bytes \<Rightarrow> int \<Rightarrow>
     error option \<times> PropagateSessionRequest list" where
  "PropagateSessions clients token username i ttl =
     (let payload = \<lparr>prToken = token, prUsername = username, prConsumerId = i,
                     prTimeToLive = toUnix ttl\<rparr>
      in (None, map (\<lambda>client. payload) clients))"

fun DeleteSessions_loop ::
    "(DeleteSessionRequest \<Rightarrow> error option) list \<Rightarrow> DeleteSessionRequest \<Rightarrow>
     error option \<times> DeleteSessionRequest list" where
  "DeleteSessions_loop [] payload = (None, [])"
| "DeleteSessions_loop (client # clients) payload =
     (case client payload of
        Some err \<Rightarrow> (Some err, [payload])
      | None \<Rightarrow> (case DeleteSessions_loop clients payload of (e, ps) \<Rightarrow> (e, payload # ps)))"

definition DeleteSessions ::
    "(DeleteSessionRequest \<Rightarrow> error option) list \<Rightarrow> string \<Rightarrow> string \<Rightarrow>
     error option \<times> DeleteSessionRequest list" where
  "DeleteSessions clients token username =
     DeleteSessions_loop clients \<lparr>drToken = token, drUsername = username\<rparr>"

text \<open>The follower's side: the response flag, the error and the new state.\<close>

definition sessionServer_PropagateSession ::
    "sessionHandler \<Rightarrow> PropagateSessionRequest \<Rightarrow> bool \<times> error option \<times> sessionHandler" where
  "sessionServer_PropagateSession r req =
     (case AddToken r (prToken req) (prUsername req) (prConsumerId req) (fromUnix (prTimeToLive req)) of
        (err, r') \<Rightarrow> (err = None, err, r'))"

definition sessionServer_DeleteSession ::
    "sessionHandler \<Rightarrow> DeleteSessionRequest \<Rightarrow> bool \<times> error option \<times> sessionHandler" where
  "sessionServer_DeleteSession r req =
     (case RemoveToken r (drToken req) (drUsername req) of (err, r') \<Rightarrow> (err = None, err, r'))"

section \<open>Sessions that last\<close>

text \<open>
  The laws of a session store that logins rely on, and what follows: a session is found exactly until it
  expires, whatever other logins and account deletions happen in between.
\<close>

datatype sessionOp =
    Added string string bytes int
  | Dropped string

locale session_store =
  fixes look :: "'s \<Rightarrow> int \<Rightarrow> string \<Rightarrow> string \<Rightarrow> error + bytes"
    and add :: "'s \<Rightarrow> string \<Rightarrow> string \<Rightarrow> bytes \<Rightarrow> int \<Rightarrow> 's"
    and drop_user :: "'s \<Rightarrow> string \<Rightarrow> 's"
    and knows :: "'s \<Rightarrow> string \<Rightarrow> string \<Rightarrow> bool"
  assumes look_add: "\<not> knows s u t \<Longrightarrow>
      look (add s t u i ttl) now t u = (if now < ttl then Inr i else Inl ErrNoUserSessionExists)"
    and look_add_other: "knows s u t \<Longrightarrow> look (add s t' u' i ttl) now t u = look s now t u"
    and knows_add: "knows (add s t' u' i ttl) u t \<longleftrightarrow> knows s u t \<or> (u' = u \<and> t' = t)"
    and look_drop: "look (drop_user s u) now t u = Inl ErrNoUserSessionExists"
    and look_drop_other: "u' \<noteq> u \<Longrightarrow> look (drop_user s u') now t u = look s now t u"
    and knows_drop_other: "u' \<noteq> u \<Longrightarrow> knows (drop_user s u') u t = knows s u t"
begin

fun apply_op :: "sessionOp \<Rightarrow> 's \<Rightarrow> 's" where
  "apply_op (Added t u i ttl) s = add s t u i ttl"
| "apply_op (Dropped u) s = drop_user s u"

lemma look_run:
  assumes "knows s u t" "\<forall>x\<in>set xs. x \<noteq> Dropped u"
  shows "look (fold apply_op xs s) now t u = look s now t u"
  using assms
proof (induction xs arbitrary: s)
  case (Cons x xs)
  then show ?case
    by (cases x) (auto simp: knows_add knows_drop_other look_add_other look_drop_other)
qed simp

lemma session_lasts:
  assumes "\<not> knows s u t" "\<forall>x\<in>set xs. x \<noteq> Dropped u"
  shows "look (fold apply_op xs (add s t u i ttl)) now t u = (if now < ttl then Inr i else Inl ErrNoUserSessionExists)"
  using assms by (simp add: look_run knows_add look_add)

end

text \<open>A token a user has had a session with and that is still in the handler.\<close>

definition hasToken :: "sessionHandler \<Rightarrow> string \<Rightarrow> string \<Rightarrow> bool" where
  "hasToken r u t \<longleftrightarrow> (case sessionIDs r u of None \<Rightarrow> False | Some sess \<Rightarrow> \<exists>v\<in>set sess. stoken v = t)"

lemma find_append: "find P (xs @ ys) = (case find P xs of None \<Rightarrow> find P ys | Some x \<Rightarrow> Some x)"
  by (induction xs) auto

lemma find_none_iff: "find P xs = None \<longleftrightarrow> (\<forall>x\<in>set xs. \<not> P x)"
  by (induction xs) auto

lemma find_notin: "\<forall>x\<in>set xs. \<not> P x \<Longrightarrow> find P xs = None"
  by (simp add: find_none_iff)

interpretation sess: session_store "\<lambda>r now t u. fst (GetConsumerID r now t u)"
  "\<lambda>r t u i ttl. snd (AddToken r t u i ttl)" "\<lambda>r u. snd (sessionHandler_DeleteUser r u)" hasToken
proof
  fix s u t now ttl i assume "\<not> hasToken s u t"
  then show "fst (GetConsumerID (snd (AddToken s t u i ttl)) now t u) = (if now < ttl then Inr i else Inl ErrNoUserSessionExists)"
    by (cases "sessionIDs s u") (auto simp: GetConsumerID_def AddToken_def hasToken_def find_append find_notin)
next
  fix s u t t' u' i ttl now assume k: "hasToken s u t"
  then obtain sess where s: "sessionIDs s u = Some sess" "find (\<lambda>v. stoken v = t) sess \<noteq> None"
    by (auto simp: hasToken_def find_none_iff split: option.splits)
  then show "fst (GetConsumerID (snd (AddToken s t' u' i ttl)) now t u) = fst (GetConsumerID s now t u)"
    by (cases "sessionIDs s u'")
      (auto simp: GetConsumerID_def AddToken_def find_append split: option.splits)
qed (auto simp: hasToken_def AddToken_def GetConsumerID_def sessionHandler_DeleteUser_def split: option.splits)

section \<open>Removing a token\<close>

text \<open>
  A user's list of two or more sessions never gets shorter, and its last session stays.
\<close>

lemma RemoveToken_keeps_last:
  assumes "sessionIDs r u = Some sess" "1 < length sess"
  shows "\<exists>sess'. sessionIDs (snd (RemoveToken r t u)) u = Some sess' \<and>
    length sess' = length sess \<and> last sess' = last sess"
proof (cases "firstIndex (\<lambda>v. stoken v = t) sess")
  case (Some i)
  then have i: "i < length sess" by (blast dest: firstIndex_Some)
  have "last (sess[i := sess ! (length sess - 1)]) = last sess"
    using assms(2) i by (cases sess rule: rev_cases) (auto simp: nth_append list_update_append last_list_update)
  with assms Some show ?thesis by (auto simp: RemoveToken_def)
qed (use assms in \<open>simp add: RemoveToken_def\<close>)

text \<open>Any other token of a list without repetitions is gone.\<close>

lemma RemoveToken_removes:
  assumes "sessionIDs r u = Some sess" "distinct (map stoken sess)"
    and "t \<in> set (map stoken sess)" "length sess = 1 \<or> t \<noteq> stoken (last sess)"
  shows "fst (RemoveToken r t u) = None" "\<not> hasToken (snd (RemoveToken r t u)) u t"
proof -
  from assms(3) have "firstIndex (\<lambda>v. stoken v = t) sess \<noteq> None" by (auto simp: firstIndex_None)
  then obtain i where f: "firstIndex (\<lambda>v. stoken v = t) sess = Some i" by blast
  note i = firstIndex_Some[OF f]
  show "fst (RemoveToken r t u) = None" using assms(1) f by (simp add: RemoveToken_def)
  show "\<not> hasToken (snd (RemoveToken r t u)) u t"
  proof (cases "length sess = 1")
    case True
    with assms(1) f show ?thesis by (simp add: RemoveToken_def hasToken_def)
  next
    case False
    have "sess \<noteq> []" using i by auto
    with False assms(4) have l: "stoken (sess ! (length sess - 1)) \<noteq> t" by (simp add: last_conv_nth)
    have "stoken (sess ! j) \<noteq> t" if "j < length sess" "j \<noteq> i" for j
      using that i assms(2) by (metis distinct_conv_nth length_map nth_map)
    with l have "stoken (sess[i := sess ! (length sess - 1)] ! j) \<noteq> t" if "j < length sess" for j
      using that by (cases "j = i") auto
    then have "\<forall>v\<in>set (sess[i := sess ! (length sess - 1)]). stoken v \<noteq> t"
      by (metis in_set_conv_nth length_list_update)
    with assms(1) f False show ?thesis by (simp add: RemoveToken_def hasToken_def)
  qed
qed

end
