(* ===== verification/AuthManager.thy ===== *)
theory AuthManager
  imports Sessions
begin

text \<open>
  Accounts, logins and passwords (\<open>pkg/auth/AuthManager.go\<close>, \<open>utils.go\<close>).

  The key derivation function (\<open>scrypt.Key\<close>), the bytes that the random source gives and the values
  that the token and identifier generators give are arguments. Request metadata is the list of values
  per key that \<open>md.Get\<close> reads.
\<close>

section \<open>State\<close>

record saltPassword =
  spUsername :: string
  spSalt :: bytes
  spHash :: bytes

record authManager =
  credentials :: "saltPassword list"
  hashStrength :: int
  tokenName :: string
  sessions :: sessionHandler
  tokenDuration :: int
  authSalt :: string

text \<open>\<open>scrypt.Key(password, salt, N, r, p, keyLen)\<close>.\<close>

type_synonym kdf = "bytes \<Rightarrow> bytes \<Rightarrow> int \<Rightarrow> int \<Rightarrow> int \<Rightarrow> int \<Rightarrow> error + bytes"

definition toBytes :: "string \<Rightarrow> bytes" where
  "toBytes s = map of_char s"

definition NewAuthManager :: "sessionHandler \<Rightarrow> int \<Rightarrow> string \<Rightarrow> authManager" where
  "NewAuthManager sh duration salt =
     \<lparr>credentials = [], hashStrength = 32768, tokenName = ''syb-token'', sessions = sh,
      tokenDuration = duration, authSalt = salt\<rparr>"

section \<open>Accounts\<close>

definition getUserCredentials :: "authManager \<Rightarrow> string \<Rightarrow> saltPassword option" where
  "getUserCredentials a username = find (\<lambda>data. spUsername data = username) (credentials a)"

definition UserExists :: "authManager \<Rightarrow> string \<Rightarrow> bool" where
  "UserExists a username \<longleftrightarrow> list_ex (\<lambda>data. spUsername data = username) (credentials a)"

definition GetAccounts :: "authManager \<Rightarrow> string list" where
  "GetAccounts a = map spUsername (credentials a)"

definition deleteUsername :: "authManager \<Rightarrow> string \<Rightarrow> authManager" where
  "deleteUsername a username =
     (case firstIndex (\<lambda>data. spUsername data = username) (credentials a) of
        None \<Rightarrow> a
      | Some i \<Rightarrow> a\<lparr>credentials := swapRemove (credentials a) i\<rparr>)"

definition CreateUser ::
    "kdf \<Rightarrow> error + bytes \<Rightarrow> authManager \<Rightarrow> string \<Rightarrow> string \<Rightarrow> error option \<times> authManager" where
  "CreateUser key rnd a username password =
     (if getUserCredentials a username \<noteq> None then (Some ErrUsernameAlreadyTaken, a)
      else
        case rnd of
          Inl err \<Rightarrow> (Some err, a)
        | Inr buf \<Rightarrow>
            (case key (toBytes password) buf (hashStrength a) 8 1 32 of
               Inl err \<Rightarrow> (Some err, a)
             | Inr hash \<Rightarrow>
                 (None, a\<lparr>credentials :=
                    credentials a @ [\<lparr>spUsername = username, spSalt = buf, spHash = hash\<rparr>]\<rparr>)))"

definition ChangePassword ::
    "kdf \<Rightarrow> error + bytes \<Rightarrow> authManager \<Rightarrow> string \<Rightarrow> string \<Rightarrow> string \<Rightarrow> (error + bool) \<times> authManager" where
  "ChangePassword key rnd a username oldPassword newPassword =
     (case getUserCredentials a username of
        None \<Rightarrow> (Inl ErrUserDoesNotExist, a)
      | Some saltPass \<Rightarrow>
          (case key (toBytes oldPassword) (spSalt saltPass) (hashStrength a) 8 1 32 of
             Inl err \<Rightarrow> (Inl err, a)
           | Inr hash \<Rightarrow>
               if hash \<noteq> spHash saltPass then (Inr False, a)
               else
                 (case rnd of
                    Inl err \<Rightarrow> (Inl err, a)
                  | Inr buf \<Rightarrow>
                      (case key (toBytes newPassword) buf (hashStrength a) 8 1 32 of
                         Inl err \<Rightarrow> (Inl err, a)
                       | Inr hash' \<Rightarrow>
                           let a' = deleteUsername a username in
                           (Inr True, a'\<lparr>credentials :=
                              credentials a' @
                                [\<lparr>spUsername = username, spSalt = buf, spHash = hash'\<rparr>]\<rparr>)))))"

definition authManager_DeleteUser :: "authManager \<Rightarrow> string \<Rightarrow> error option \<times> authManager" where
  "authManager_DeleteUser a username =
     (if getUserCredentials a username = None then (Some ErrUserDoesNotExist, a)
      else if length (credentials a) = 1 then (Some ErrAtLeastOneAccount, a)
      else
        case sessionHandler_DeleteUser (sessions a) username of
          (Some err, sh) \<Rightarrow> (Some err, a\<lparr>sessions := sh\<rparr>)
        | (None, sh) \<Rightarrow> (None, deleteUsername (a\<lparr>sessions := sh\<rparr>) username))"

section \<open>Logins\<close>

text \<open>
  \<open>Login\<close> with the generated token and identifier, the current time and the follower clients; the
  last component lists the requests sent to the followers.
\<close>

definition Login ::
    "kdf \<Rightarrow> string \<Rightarrow> bytes \<Rightarrow> int \<Rightarrow> (PropagateSessionRequest \<Rightarrow> error option) list \<Rightarrow>
     authManager \<Rightarrow> string \<Rightarrow> string \<Rightarrow> (error + string) \<times> authManager \<times> PropagateSessionRequest list" where
  "Login key token i now clients a username password =
     (case getUserCredentials a username of
        None \<Rightarrow> (Inl FailedToGetSaltPass, a, [])
      | Some saltPass \<Rightarrow>
          (case key (toBytes password) (spSalt saltPass) (hashStrength a) 8 1 32 of
             Inl err \<Rightarrow> (Inl err, a, [])
           | Inr hash \<Rightarrow>
               if hash \<noteq> spHash saltPass then (Inl ErrInvalidLogin, a, [])
               else
                 let ttl = now + tokenDuration a in
                 (case PropagateSessions clients token username i ttl of
                    (Some err, reqs) \<Rightarrow> (Inl err, a, reqs)
                  | (None, reqs) \<Rightarrow>
                      (case AddToken (sessions a) token username i ttl of
                         (Some err, sh) \<Rightarrow> (Inl err, a\<lparr>sessions := sh\<rparr>, reqs)
                       | (None, sh) \<Rightarrow> (Inr token, a\<lparr>sessions := sh\<rparr>, reqs)))))"

definition LogOut ::
    "(DeleteSessionRequest \<Rightarrow> error option) list \<Rightarrow> authManager \<Rightarrow> string \<Rightarrow> string \<Rightarrow>
     error option \<times> authManager" where
  "LogOut clients a username token =
     (case fst (DeleteSessions clients token username) of
        Some err \<Rightarrow> (Some err, a)
      | None \<Rightarrow>
          (case RemoveToken (sessions a) token username of
             (e, sh) \<Rightarrow> (e, a\<lparr>sessions := sh\<rparr>)))"

type_synonym metadata = "string \<Rightarrow> string list"

definition GetUsername :: "metadata \<Rightarrow> error + string" where
  "GetUsername md = (case md ''username'' of [] \<Rightarrow> Inl MissingUsername | u # _ \<Rightarrow> Inr u)"

definition GetUsernameToken :: "authManager \<Rightarrow> metadata \<Rightarrow> error + (string \<times> string)" where
  "GetUsernameToken a md =
     (case GetUsername md of
        Inl err \<Rightarrow> Inl err
      | Inr username \<Rightarrow>
          (case md (tokenName a) of [] \<Rightarrow> Inl MissingToken | t # _ \<Rightarrow> Inr (username, t)))"

definition authManager_GetConsumerID :: "authManager \<Rightarrow> int \<Rightarrow> string \<Rightarrow> string \<Rightarrow> error + bytes" where
  "authManager_GetConsumerID a now username token = fst (GetConsumerID (sessions a) now token username)"

definition GetConsumerIDViaMD :: "authManager \<Rightarrow> int \<Rightarrow> metadata \<Rightarrow> error + bytes" where
  "GetConsumerIDViaMD a now md =
     (case GetUsernameToken a md of
        Inl err \<Rightarrow> Inl err
      | Inr (username, token) \<Rightarrow> fst (GetConsumerID (sessions a) now token username))"

definition Salt :: "authManager \<Rightarrow> string" where
  "Salt a = authSalt a"

section \<open>Hashing for the configuration\<close>

text \<open>\<open>hex.EncodeToString\<close>, and \<open>GenerateHash\<close> over a hash function given as an argument (SHA-512).\<close>

definition hexDigits :: string where
  "hexDigits = ''0123456789abcdef''"

definition hexEncode :: "bytes \<Rightarrow> string" where
  "hexEncode bs = concat (map (\<lambda>b. [hexDigits ! (unat b div 16), hexDigits ! (unat b mod 16)]) bs)"

definition GenerateHash :: "(bytes \<Rightarrow> bytes) \<Rightarrow> string \<Rightarrow> string \<Rightarrow> string" where
  "GenerateHash sha512 input salt = hexEncode (sha512 (toBytes (salt @ input)))"

section \<open>Facts\<close>

lemma UserExists_iff: "UserExists a u \<longleftrightarrow> getUserCredentials a u \<noteq> None"
  by (auto simp: UserExists_def getUserCredentials_def find_none_iff list_ex_iff)

lemma GetAccounts_iff: "u \<in> set (GetAccounts a) \<longleftrightarrow> getUserCredentials a u \<noteq> None"
  by (auto simp: GetAccounts_def getUserCredentials_def find_none_iff)

text \<open>With distinct usernames the credentials behave like a map.\<close>

definition accountsOk :: "authManager \<Rightarrow> bool" where
  "accountsOk a \<longleftrightarrow> distinct (GetAccounts a)"

lemma find_unique:
  assumes "distinct (map f xs)" "x \<in> set xs"
  shows "find (\<lambda>y. f y = f x) xs = Some x"
  using assms by (induction xs) auto

lemma find_Some_in: "find P xs = Some x \<Longrightarrow> x \<in> set xs \<and> P x"
  by (induction xs) (auto split: if_splits)

lemma credentials_lookup:
  assumes "accountsOk a"
  shows "getUserCredentials a u = Some c \<longleftrightarrow> c \<in># mset (credentials a) \<and> spUsername c = u"
proof
  assume "getUserCredentials a u = Some c"
  then show "c \<in># mset (credentials a) \<and> spUsername c = u"
    by (auto simp: getUserCredentials_def dest: find_Some_in)
next
  assume "c \<in># mset (credentials a) \<and> spUsername c = u"
  with assms find_unique[of spUsername "credentials a" c] show "getUserCredentials a u = Some c"
    by (auto simp: getUserCredentials_def accountsOk_def GetAccounts_def)
qed

lemma deleteUsername_mset:
  assumes "accountsOk a" "getUserCredentials a u = Some c"
  shows "mset (credentials (deleteUsername a u)) = mset (credentials a) - {#c#}"
    "accountsOk (deleteUsername a u)"
    "getUserCredentials (deleteUsername a u) u = None"
    "u' \<noteq> u \<Longrightarrow> getUserCredentials (deleteUsername a u) u' = getUserCredentials a u'"
proof -
  from assms have c: "c \<in># mset (credentials a)" "spUsername c = u" by (simp_all add: credentials_lookup)
  then obtain i where f: "firstIndex (\<lambda>d. spUsername d = u) (credentials a) = Some i"
    by (cases "firstIndex (\<lambda>d. spUsername d = u) (credentials a)") (auto simp: firstIndex_None)
  note i = firstIndex_Some[OF f]
  have "getUserCredentials a u = Some (credentials a ! i)" using assms(1) i by (simp add: credentials_lookup)
  with assms(2) have ci: "credentials a ! i = c" by simp
  with f i show m: "mset (credentials (deleteUsername a u)) = mset (credentials a) - {#c#}"
    by (simp add: deleteUsername_def mset_swapRemove)
  have "mset (GetAccounts (deleteUsername a u)) = mset (GetAccounts a) - {#u#}"
    using m c by (simp add: GetAccounts_def image_mset_Diff)
  moreover have "mset (GetAccounts a) = add_mset u (mset (GetAccounts a) - {#u#})"
    using c by (auto simp: GetAccounts_def)
  moreover have "distinct (GetAccounts a)" using assms(1) by (simp add: accountsOk_def)
  ultimately have d: "distinct (GetAccounts (deleteUsername a u))" "u \<notin> set (GetAccounts (deleteUsername a u))"
    by (metis distinct.simps(2) mset.simps(2) mset_eq_imp_distinct_iff)+
  then show ok: "accountsOk (deleteUsername a u)" by (simp add: accountsOk_def)
  show "getUserCredentials (deleteUsername a u) u = None" using d(2) by (simp add: GetAccounts_iff)
  show "getUserCredentials (deleteUsername a u) u' = getUserCredentials a u'" if "u' \<noteq> u"
  proof -
    have "getUserCredentials (deleteUsername a u) u' = Some x \<longleftrightarrow> getUserCredentials a u' = Some x" for x
      using that c by (auto simp: credentials_lookup[OF ok] credentials_lookup[OF assms(1)] m
          in_diff_count split: if_splits)
    then show ?thesis by (metis not_Some_eq)
  qed
qed

text \<open>Every operation keeps the usernames distinct.\<close>

lemma accountsOk_ops:
  assumes "accountsOk a"
  shows "accountsOk (snd (CreateUser key rnd a u p))"
    "accountsOk (snd (ChangePassword key rnd a u old new))"
    "accountsOk (snd (authManager_DeleteUser a u))"
    "accountsOk (fst (snd (Login key t i now cl a u p)))"
    "accountsOk (snd (LogOut cl' a u t))"
proof -
  have sess: "accountsOk (a\<lparr>sessions := sh\<rparr>)" "getUserCredentials (a\<lparr>sessions := sh\<rparr>) = getUserCredentials a" for sh
    using assms by (simp_all add: accountsOk_def GetAccounts_def getUserCredentials_def fun_eq_iff)
  have add: "accountsOk (b\<lparr>credentials := credentials b @ [\<lparr>spUsername = u, spSalt = sl, spHash = h\<rparr>]\<rparr>)"
    if "accountsOk b" "getUserCredentials b u = None" for b sl h
    using that GetAccounts_iff[of u b] by (simp add: accountsOk_def GetAccounts_def)
  show "accountsOk (snd (CreateUser key rnd a u p))"
    using assms add[OF assms] by (auto simp: CreateUser_def split: sum.split)
  show "accountsOk (snd (ChangePassword key rnd a u old new))"
    using assms deleteUsername_mset(2,3)[OF assms] add
    by (auto simp: ChangePassword_def Let_def split: option.split sum.split)
  show "accountsOk (snd (authManager_DeleteUser a u))"
    using assms deleteUsername_mset(2)[OF sess(1)] sess(2)
    by (auto simp: authManager_DeleteUser_def sessionHandler_DeleteUser_def)
  show "accountsOk (fst (snd (Login key t i now cl a u p)))"
    using assms sess(1) by (auto simp: Login_def Let_def split: option.split sum.split prod.split)
  show "accountsOk (snd (LogOut cl' a u t))"
    using assms sess(1) by (auto simp: LogOut_def split: option.split prod.split)
qed

text \<open>A login with the right password: the token is returned and entered.\<close>

lemma Login_ok:
  assumes "getUserCredentials a u = Some c"
    and "key (toBytes p) (spSalt c) (hashStrength a) 8 1 32 = Inr (spHash c)"
  shows "Login key t i now cl a u p =
    (Inr t, a\<lparr>sessions := snd (AddToken (sessions a) t u i (now + tokenDuration a))\<rparr>,
     snd (PropagateSessions cl t u i (now + tokenDuration a)))"
  using assms
  by (auto simp: Login_def PropagateSessions_def AddToken_def Let_def split: option.split)

lemma CreateUser_ok:
  assumes "getUserCredentials a u = None" "key (toBytes p) buf (hashStrength a) 8 1 32 = Inr h"
  shows "fst (CreateUser key (Inr buf) a u p) = None"
    "getUserCredentials (snd (CreateUser key (Inr buf) a u p)) u =
       Some \<lparr>spUsername = u, spSalt = buf, spHash = h\<rparr>"
    "sessions (snd (CreateUser key (Inr buf) a u p)) = sessions a"
    "hashStrength (snd (CreateUser key (Inr buf) a u p)) = hashStrength a"
    "tokenDuration (snd (CreateUser key (Inr buf) a u p)) = tokenDuration a"
  using assms by (simp_all add: CreateUser_def getUserCredentials_def find_append)

lemma ChangePassword_ok:
  assumes "accountsOk a" "getUserCredentials a u = Some c"
    and "key (toBytes old) (spSalt c) (hashStrength a) 8 1 32 = Inr (spHash c)"
    and "key (toBytes new) buf (hashStrength a) 8 1 32 = Inr h"
  shows "fst (ChangePassword key (Inr buf) a u old new) = Inr True"
    "getUserCredentials (snd (ChangePassword key (Inr buf) a u old new)) u =
       Some \<lparr>spUsername = u, spSalt = buf, spHash = h\<rparr>"
    "u' \<noteq> u \<Longrightarrow> getUserCredentials (snd (ChangePassword key (Inr buf) a u old new)) u' =
       getUserCredentials a u'"
    "hashStrength (snd (ChangePassword key (Inr buf) a u old new)) = hashStrength a"
proof -
  let ?a = "deleteUsername a u"
  have C: "ChangePassword key (Inr buf) a u old new = (Inr True,
      ?a\<lparr>credentials := credentials ?a @ [\<lparr>spUsername = u, spSalt = buf, spHash = h\<rparr>]\<rparr>)"
    using assms by (simp add: ChangePassword_def Let_def)
  note d = deleteUsername_mset(3,4)[OF assms(1,2)]
  show "fst (ChangePassword key (Inr buf) a u old new) = Inr True" by (simp add: C)
  show "getUserCredentials (snd (ChangePassword key (Inr buf) a u old new)) u =
      Some \<lparr>spUsername = u, spSalt = buf, spHash = h\<rparr>"
    using d(1) by (simp add: C getUserCredentials_def find_append)
  show "getUserCredentials (snd (ChangePassword key (Inr buf) a u old new)) u' = getUserCredentials a u'"
    if "u' \<noteq> u" using d(2)[OF that] that
    by (simp add: C getUserCredentials_def find_append split: option.split)
  show "hashStrength (snd (ChangePassword key (Inr buf) a u old new)) = hashStrength a"
    by (simp add: C deleteUsername_def split: option.split)
qed

end
