(* ===== verification/Fsm.thy ===== *)
theory Fsm
  imports BrokerInv RbacInv AuthManager
begin

text \<open>
  The replicated state machine (\<open>pkg/fsm/syblineFSM.go\<close>, \<open>operations.go\<close>, \<open>command_payload.go\<close>) and
  the payloads it decodes (\<open>pkg/structs/structs.go\<close>). Every committed log entry holds a list of
  commands; a command is decoded, the permission of its user is checked, and one operation of the
  broker, the consumer manager, the account manager or the role manager is called.

  The msgpack decoders are arguments, collected in the record \<open>codec\<close>: one per payload type. What
  differs between replicas and runs is collected in the record \<open>env\<close>: the key derivation function,
  the bytes that the random source gives, the order of map ranges and the order of goroutines.
\<close>

section \<open>Commands and payloads\<close>

type_synonym Operation = u32

abbreviation (input) "CREATE_QUEUE \<equiv> (0 :: Operation)"
abbreviation (input) "DELETE_QUEUE \<equiv> (1 :: Operation)"
abbreviation (input) "SUBMIT_MESSAGE \<equiv> (2 :: Operation)"
abbreviation (input) "ADD_ROUTING_KEY \<equiv> (3 :: Operation)"
abbreviation (input) "DELETE_ROUTING_KEY \<equiv> (4 :: Operation)"
abbreviation (input) "GET_MESSAGES \<equiv> (5 :: Operation)"
abbreviation (input) "ACK \<equiv> (6 :: Operation)"
abbreviation (input) "NACK \<equiv> (7 :: Operation)"
abbreviation (input) "CREATE_ACCOUNT \<equiv> (8 :: Operation)"
abbreviation (input) "CHANGE_PASSWORD \<equiv> (9 :: Operation)"
abbreviation (input) "REMOVE_LOCKS \<equiv> (10 :: Operation)"
abbreviation (input) "SUBMIT_BATCH_MESSAGE \<equiv> (11 :: Operation)"
abbreviation (input) "DELETE_USER \<equiv> (12 :: Operation)"
abbreviation (input) "BATCH_ACK \<equiv> (13 :: Operation)"
abbreviation (input) "BATCH_NACK \<equiv> (14 :: Operation)"
abbreviation (input) "CREATE_ROLE \<equiv> (15 :: Operation)"
abbreviation (input) "ASSIGN_ROLE \<equiv> (16 :: Operation)"
abbreviation (input) "UNASSIGN_ROLE \<equiv> (17 :: Operation)"

record CommandPayload =
  cpUsername :: string
  cpOp :: Operation
  cpData :: bytes

record QueueInfo =
  qiRoutingKey :: string
  qiName :: string
  qiSize :: u32
  qiRetryLimit :: u32
  qiHasDLQueue :: bool

record MessageInfo =
  miRk :: string
  miData :: bytes
  miId :: bytes

record Messages =
  msRK :: string
  msData :: "bytes list"
  msIds :: "bytes list"

record AddRoute =
  arQueueName :: string
  arRouteName :: string

record DeleteRoute =
  dlQueueName :: string
  dlRouteName :: string

record RequestMessageData =
  rmQueueName :: string
  rmAmount :: u32
  rmConsumerID :: bytes
  rmTime :: i64

record AckUpdate =
  auQueueName :: string
  auId :: bytes
  auConsumerID :: bytes

record DeleteQueueInfo =
  dqQueueName :: string

record UserCreds =
  ucUsername :: string
  ucPassword :: string

record ChangeCredentials =
  ccUsername :: string
  ccOldPassword :: string
  ccNewPassword :: string

record UserInformation =
  uiUsername :: string

record BatchAckUpdate =
  baQueueName :: string
  baIds :: "bytes list"
  baConsumerID :: bytes

record BatchNackUpdate =
  bnQueueName :: string
  bnIds :: "bytes list"
  bnConsumerID :: bytes

record RoleUsername =
  ruRole :: string
  ruUsername :: string

record codec =
  decCommand :: "bytes \<Rightarrow> error + CommandPayload"
  decBatch :: "bytes \<Rightarrow> error + bytes list"
  decQueueInfo :: "bytes \<Rightarrow> error + QueueInfo"
  decMessageInfo :: "bytes \<Rightarrow> error + MessageInfo"
  decBatchMessages :: "bytes \<Rightarrow> error + Messages list"
  decAddRoute :: "bytes \<Rightarrow> error + AddRoute"
  decDeleteRoute :: "bytes \<Rightarrow> error + DeleteRoute"
  decRequest :: "bytes \<Rightarrow> error + RequestMessageData"
  decAckUpdate :: "bytes \<Rightarrow> error + AckUpdate"
  decDeleteQueue :: "bytes \<Rightarrow> error + DeleteQueueInfo"
  decUserCreds :: "bytes \<Rightarrow> error + UserCreds"
  decChange :: "bytes \<Rightarrow> error + ChangeCredentials"
  decUser :: "bytes \<Rightarrow> error + UserInformation"
  decBatchAck :: "bytes \<Rightarrow> error + BatchAckUpdate"
  decBatchNack :: "bytes \<Rightarrow> error + BatchNackUpdate"
  decRole :: "bytes \<Rightarrow> error + Role"
  decRoleUser :: "bytes \<Rightarrow> error + RoleUsername"

record env =
  eKey :: kdf
  eRnd :: "error + bytes"
  eOrder :: "(string \<rightharpoonup> string list) \<Rightarrow> string list"
  eSched :: "string list \<Rightarrow> string list"

section \<open>State and results\<close>

record syblineFSM =
  fBroker :: broker
  fAuth :: authManager
  fRoles :: roleManager

datatype resultData = NoData | Msgs "Message list" | Flag bool

record SyblineFSMResult =
  rData :: resultData
  rErr :: "error option"

type_synonym outcome = "(SyblineFSMResult \<times> syblineFSM) option"

definition failed :: "syblineFSM \<Rightarrow> error \<Rightarrow> outcome" where
  "failed b err = Some (\<lparr>rData = NoData, rErr = Some err\<rparr>, b)"

definition finished :: "syblineFSM \<Rightarrow> error option \<Rightarrow> outcome" where
  "finished b err = Some (\<lparr>rData = NoData, rErr = err\<rparr>, b)"

text \<open>
  The beginning that all cases but one share: decode the payload, ask for the permission, and go on
  only when both succeed.
\<close>

definition checked ::
    "syblineFSM \<Rightarrow> error + 'p \<Rightarrow> ('p \<Rightarrow> error + bool) \<Rightarrow> ('p \<Rightarrow> outcome) \<Rightarrow> outcome" where
  "checked b decoded permission k =
     (case decoded of
        Inl err \<Rightarrow> failed b err
      | Inr payCasted \<Rightarrow>
          (case permission payCasted of
             Inl err \<Rightarrow> failed b err
           | Inr ok \<Rightarrow> if \<not> ok then failed b NoPermission else k payCasted))"

text \<open>The consumer manager works on the queue manager of the broker.\<close>

abbreviation qm :: "syblineFSM \<Rightarrow> queueManager" where
  "qm b \<equiv> manager (fBroker b)"

definition setQm :: "syblineFSM \<Rightarrow> queueManager \<Rightarrow> syblineFSM" where
  "setQm b m = b\<lparr>fBroker := (fBroker b)\<lparr>manager := m\<rparr>\<rparr>"

section \<open>The cases of \<open>applySingle\<close>\<close>

definition apply_CREATE_QUEUE :: "codec \<Rightarrow> syblineFSM \<Rightarrow> CommandPayload \<Rightarrow> outcome" where
  "apply_CREATE_QUEUE cd b payload =
     checked b (decQueueInfo cd (cpData payload))
       (\<lambda>p. HasAdminPermission (fRoles b) (cpUsername payload) ALLOW_CREATE_QUEUE)
       (\<lambda>p. case broker_CreateQueue (fBroker b) (qiName p) (qiRoutingKey p) (qiSize p)
                   (qiRetryLimit p) (qiHasDLQueue p) of
              (err, br) \<Rightarrow> finished (b\<lparr>fBroker := br\<rparr>) err)"

definition apply_SUBMIT_MESSAGE :: "codec \<Rightarrow> env \<Rightarrow> syblineFSM \<Rightarrow> CommandPayload \<Rightarrow> outcome" where
  "apply_SUBMIT_MESSAGE cd e b payload =
     checked b (decMessageInfo cd (cpData payload))
       (\<lambda>p. HasPermission (fRoles b) (cpUsername payload) (miRk p) SUBMIT_MESSAGE_ACTION)
       (\<lambda>p. do { (err, br) \<leftarrow> broker_AddMessage (eSched e) (fBroker b) (miRk p) (miData p) (miId p);
                 finished (b\<lparr>fBroker := br\<rparr>) err })"

text \<open>The batch: all permissions first, then all routing keys; the errors are joined.\<close>

fun batchPermission :: "roleManager \<Rightarrow> string \<Rightarrow> Messages list \<Rightarrow> error option" where
  "batchPermission r username [] = None"
| "batchPermission r username (data # ms) =
     (case HasPermission r username (msRK data) SUBMIT_BATCH_ACTION of
        Inl err \<Rightarrow> Some err
      | Inr ok \<Rightarrow> if \<not> ok then Some NoPermission else batchPermission r username ms)"

fun batchAdd ::
    "env \<Rightarrow> broker \<Rightarrow> error list \<Rightarrow> Messages list \<Rightarrow> (error list \<times> broker) option" where
  "batchAdd e br errs [] = Some (errs, br)"
| "batchAdd e br errs (data # ms) =
     do { (err, br') \<leftarrow> broker_BatchAddMessage (eSched e) br (msRK data) (msData data) (msIds data);
          batchAdd e br' (case err of None \<Rightarrow> errs | Some x \<Rightarrow> errs @ [x]) ms }"

definition joinErrors :: "error list \<Rightarrow> error option" where
  "joinErrors errs = (if errs = [] then None else Some (Joined errs))"

definition apply_SUBMIT_BATCH_MESSAGE :: "codec \<Rightarrow> env \<Rightarrow> syblineFSM \<Rightarrow> CommandPayload \<Rightarrow> outcome" where
  "apply_SUBMIT_BATCH_MESSAGE cd e b payload =
     (case decBatchMessages cd (cpData payload) of
        Inl err \<Rightarrow> failed b err
      | Inr messages \<Rightarrow>
          (case batchPermission (fRoles b) (cpUsername payload) messages of
             Some err \<Rightarrow> failed b err
           | None \<Rightarrow>
               do { (errs, br) \<leftarrow> batchAdd e (fBroker b) [] messages;
                    finished (b\<lparr>fBroker := br\<rparr>) (joinErrors errs) }))"

definition apply_ADD_ROUTING_KEY :: "codec \<Rightarrow> syblineFSM \<Rightarrow> CommandPayload \<Rightarrow> outcome" where
  "apply_ADD_ROUTING_KEY cd b payload =
     checked b (decAddRoute cd (cpData payload))
       (\<lambda>p. HasAdminPermission (fRoles b) (cpUsername payload) ALLOW_ADD_ROUTING_KEY)
       (\<lambda>p. case broker_AddRouteKey (fBroker b) (arRouteName p) (arQueueName p) of
              (err, br) \<Rightarrow> finished (b\<lparr>fBroker := br\<rparr>) err)"

definition apply_DELETE_ROUTING_KEY :: "codec \<Rightarrow> env \<Rightarrow> syblineFSM \<Rightarrow> CommandPayload \<Rightarrow> outcome" where
  "apply_DELETE_ROUTING_KEY cd e b payload =
     checked b (decDeleteRoute cd (cpData payload))
       (\<lambda>p. HasAdminPermission (fRoles b) (cpUsername payload) ALLOW_DELETE_ROUTING_KEY)
       (\<lambda>p. do { (err, br) \<leftarrow> broker_DeleteRoutingKey (eOrder e (routing (fBroker b))) (fBroker b)
                   (dlRouteName p) (dlQueueName p);
                 finished (b\<lparr>fBroker := br\<rparr>) err })"

definition apply_GET_MESSAGES :: "codec \<Rightarrow> syblineFSM \<Rightarrow> CommandPayload \<Rightarrow> outcome" where
  "apply_GET_MESSAGES cd b payload =
     checked b (decRequest cd (cpData payload))
       (\<lambda>p. HasPermission (fRoles b) (cpUsername payload) (rmQueueName p) GET_MESSAGES_ACTION)
       (\<lambda>p. do { (res, m) \<leftarrow> consumerManager_GetMessages (qm b) (rmQueueName p) (rmAmount p)
                   (rmConsumerID p) (rmTime p);
                 (case res of
                    Inl err \<Rightarrow> Some (\<lparr>rData = Msgs [], rErr = Some err\<rparr>, setQm b m)
                  | Inr messages \<Rightarrow> Some (\<lparr>rData = Msgs messages, rErr = None\<rparr>, setQm b m)) })"

definition apply_ACK :: "codec \<Rightarrow> syblineFSM \<Rightarrow> CommandPayload \<Rightarrow> outcome" where
  "apply_ACK cd b payload =
     checked b (decAckUpdate cd (cpData payload))
       (\<lambda>p. HasPermission (fRoles b) (cpUsername payload) (auQueueName p) ACK_ACTION)
       (\<lambda>p. do { (err, m) \<leftarrow> consumerManager_Ack (qm b) (auQueueName p) (auId p) (auConsumerID p);
                 finished (setQm b m) err })"

definition apply_NACK :: "codec \<Rightarrow> syblineFSM \<Rightarrow> CommandPayload \<Rightarrow> outcome" where
  "apply_NACK cd b payload =
     checked b (decAckUpdate cd (cpData payload))
       (\<lambda>p. HasPermission (fRoles b) (cpUsername payload) (auQueueName p) ACK_ACTION)
       (\<lambda>p. do { (err, m) \<leftarrow> consumerManager_Nack (qm b) (auQueueName p) (auId p) (auConsumerID p);
                 finished (setQm b m) err })"

definition apply_DELETE_QUEUE :: "codec \<Rightarrow> env \<Rightarrow> syblineFSM \<Rightarrow> CommandPayload \<Rightarrow> outcome" where
  "apply_DELETE_QUEUE cd e b payload =
     checked b (decDeleteQueue cd (cpData payload))
       (\<lambda>p. HasAdminPermission (fRoles b) (cpUsername payload) ALLOW_DELETE_QUEUE)
       (\<lambda>p. case broker_DeleteQueue (eOrder e (routing (fBroker b))) (fBroker b) (dqQueueName p) of
              (err, br) \<Rightarrow> finished (b\<lparr>fBroker := br\<rparr>) err)"

definition apply_CREATE_ACCOUNT :: "codec \<Rightarrow> env \<Rightarrow> syblineFSM \<Rightarrow> CommandPayload \<Rightarrow> outcome" where
  "apply_CREATE_ACCOUNT cd e b payload =
     checked b (decUserCreds cd (cpData payload))
       (\<lambda>p. HasAdminPermission (fRoles b) (cpUsername payload) ALLOW_CREATE_USER)
       (\<lambda>p. case CreateUser (eKey e) (eRnd e) (fAuth b) (ucUsername p) (ucPassword p) of
              (err, a) \<Rightarrow> finished (b\<lparr>fAuth := a\<rparr>) err)"

definition apply_CHANGE_PASSWORD :: "codec \<Rightarrow> env \<Rightarrow> syblineFSM \<Rightarrow> CommandPayload \<Rightarrow> outcome" where
  "apply_CHANGE_PASSWORD cd e b payload =
     checked b (decChange cd (cpData payload))
       (\<lambda>p. HasAdminPermission (fRoles b) (cpUsername payload) ALLOW_CHANGE_PASSWORD)
       (\<lambda>p. case ChangePassword (eKey e) (eRnd e) (fAuth b) (ccUsername p) (ccOldPassword p)
                   (ccNewPassword p) of
              (Inl err, a) \<Rightarrow> Some (\<lparr>rData = Flag False, rErr = Some err\<rparr>, b\<lparr>fAuth := a\<rparr>)
            | (Inr data, a) \<Rightarrow> Some (\<lparr>rData = Flag data, rErr = None\<rparr>, b\<lparr>fAuth := a\<rparr>))"

definition apply_DELETE_USER :: "codec \<Rightarrow> syblineFSM \<Rightarrow> CommandPayload \<Rightarrow> outcome" where
  "apply_DELETE_USER cd b payload =
     checked b (decUser cd (cpData payload))
       (\<lambda>p. HasAdminPermission (fRoles b) (cpUsername payload) ALLOW_DELETE_USER)
       (\<lambda>p. case authManager_DeleteUser (fAuth b) (uiUsername p) of
              (err, a) \<Rightarrow> finished (b\<lparr>fAuth := a\<rparr>) err)"

definition apply_BATCH_ACK :: "codec \<Rightarrow> syblineFSM \<Rightarrow> CommandPayload \<Rightarrow> outcome" where
  "apply_BATCH_ACK cd b payload =
     checked b (decBatchAck cd (cpData payload))
       (\<lambda>p. HasPermission (fRoles b) (cpUsername payload) (baQueueName p) BATCH_ACK_ACTION)
       (\<lambda>p. do { (err, m) \<leftarrow> consumerManager_BatchAck (qm b) (baQueueName p) (baIds p) (baConsumerID p);
                 finished (setQm b m) err })"

definition apply_BATCH_NACK :: "codec \<Rightarrow> syblineFSM \<Rightarrow> CommandPayload \<Rightarrow> outcome" where
  "apply_BATCH_NACK cd b payload =
     checked b (decBatchNack cd (cpData payload))
       (\<lambda>p. HasPermission (fRoles b) (cpUsername payload) (bnQueueName p) BATCH_ACK_ACTION)
       (\<lambda>p. do { (err, m) \<leftarrow> consumerManager_BatchNack (qm b) (bnQueueName p) (bnIds p) (bnConsumerID p);
                 finished (setQm b m) err })"

definition apply_CREATE_ROLE :: "codec \<Rightarrow> syblineFSM \<Rightarrow> CommandPayload \<Rightarrow> outcome" where
  "apply_CREATE_ROLE cd b payload =
     checked b (decRole cd (cpData payload))
       (\<lambda>p. HasAdminPermission (fRoles b) (cpUsername payload) ALLOW_CREATE_ROLE)
       (\<lambda>p. case AddRole (fRoles b) p of (err, r) \<Rightarrow> finished (b\<lparr>fRoles := r\<rparr>) err)"

definition apply_ASSIGN_ROLE :: "codec \<Rightarrow> syblineFSM \<Rightarrow> CommandPayload \<Rightarrow> outcome" where
  "apply_ASSIGN_ROLE cd b payload =
     checked b (decRoleUser cd (cpData payload))
       (\<lambda>p. HasAdminPermission (fRoles b) (cpUsername payload) ALLOW_ASSIGN_ROLE)
       (\<lambda>p. if \<not> UserExists (fAuth b) (ruUsername p) then failed b (UserDoesNotExist (ruUsername p))
            else if \<not> RoleExists (fRoles b) (ruRole p) then failed b (RoleDoesNotExist (ruRole p))
            else case AssignRole (fRoles b) (ruUsername p) (ruRole p) of
                   (err, r) \<Rightarrow> finished (b\<lparr>fRoles := r\<rparr>) err)"

definition apply_UNASSIGN_ROLE :: "codec \<Rightarrow> syblineFSM \<Rightarrow> CommandPayload \<Rightarrow> outcome" where
  "apply_UNASSIGN_ROLE cd b payload =
     checked b (decRoleUser cd (cpData payload))
       (\<lambda>p. HasAdminPermission (fRoles b) (cpUsername payload) ALLOW_UNASSIGN_ROLE)
       (\<lambda>p. if \<not> UserExists (fAuth b) (ruUsername p) then failed b (UserDoesNotExist (ruUsername p))
            else if \<not> RoleExists (fRoles b) (ruRole p) then failed b (RoleDoesNotExist (ruRole p))
            else case UnassignRole (fRoles b) (ruUsername p) (ruRole p) of
                   (err, r) \<Rightarrow> finished (b\<lparr>fRoles := r\<rparr>) err)"

section \<open>Dispatch\<close>

definition dispatch :: "codec \<Rightarrow> env \<Rightarrow> syblineFSM \<Rightarrow> CommandPayload \<Rightarrow> outcome" where
  "dispatch cd e b payload =
     (let op = cpOp payload in
      if op = CREATE_QUEUE then apply_CREATE_QUEUE cd b payload
      else if op = SUBMIT_MESSAGE then apply_SUBMIT_MESSAGE cd e b payload
      else if op = SUBMIT_BATCH_MESSAGE then apply_SUBMIT_BATCH_MESSAGE cd e b payload
      else if op = ADD_ROUTING_KEY then apply_ADD_ROUTING_KEY cd b payload
      else if op = DELETE_ROUTING_KEY then apply_DELETE_ROUTING_KEY cd e b payload
      else if op = GET_MESSAGES then apply_GET_MESSAGES cd b payload
      else if op = ACK then apply_ACK cd b payload
      else if op = NACK then apply_NACK cd b payload
      else if op = DELETE_QUEUE then apply_DELETE_QUEUE cd e b payload
      else if op = CREATE_ACCOUNT then apply_CREATE_ACCOUNT cd e b payload
      else if op = CHANGE_PASSWORD then apply_CHANGE_PASSWORD cd e b payload
      else if op = DELETE_USER then apply_DELETE_USER cd b payload
      else if op = BATCH_ACK then apply_BATCH_ACK cd b payload
      else if op = BATCH_NACK then apply_BATCH_NACK cd b payload
      else if op = CREATE_ROLE then apply_CREATE_ROLE cd b payload
      else if op = ASSIGN_ROLE then apply_ASSIGN_ROLE cd b payload
      else if op = UNASSIGN_ROLE then apply_UNASSIGN_ROLE cd b payload
      else failed b MissingAction)"

definition applySingle :: "codec \<Rightarrow> env \<Rightarrow> syblineFSM \<Rightarrow> bytes \<Rightarrow> outcome" where
  "applySingle cd e b data =
     (case decCommand cd data of
        Inl err \<Rightarrow> failed b err
      | Inr payload \<Rightarrow> dispatch cd e b payload)"

text \<open>
  \<open>Apply\<close> skips empty entries and so returns one result per entry that is not empty. The environment
  of the command at index \<open>i\<close> is \<open>es i\<close>.
\<close>

fun Apply_loop ::
    "codec \<Rightarrow> (nat \<Rightarrow> env) \<Rightarrow> nat \<Rightarrow> syblineFSM \<Rightarrow> SyblineFSMResult list \<Rightarrow> bytes list \<Rightarrow>
     (SyblineFSMResult list \<times> syblineFSM) option" where
  "Apply_loop cd es i b results [] = Some (results, b)"
| "Apply_loop cd es i b results (d # data) =
     (if length d = 0 then Apply_loop cd es (Suc i) b results data
      else do { (res, b') \<leftarrow> applySingle cd (es i) b d;
                Apply_loop cd es (Suc i) b' (results @ [res]) data })"

record raftLog =
  lgIsRaftLog :: bool
  lgData :: bytes

definition Apply ::
    "codec \<Rightarrow> (nat \<Rightarrow> env) \<Rightarrow> syblineFSM \<Rightarrow> raftLog \<Rightarrow>
     ((error + SyblineFSMResult list option) \<times> syblineFSM) option" where
  "Apply cd es b lg =
     (if lgIsRaftLog lg \<or> length (lgData lg) = 0 then Some (Inr None, b)
      else
        case decBatch cd (lgData lg) of
          Inl err \<Rightarrow> Some (Inl err, b)
        | Inr data \<Rightarrow>
            do { (results, b') \<leftarrow> Apply_loop cd es 0 b [] data; Some (Inr (Some results), b') })"

lemmas apply_defs [op_defs] =
  apply_CREATE_QUEUE_def apply_SUBMIT_MESSAGE_def apply_SUBMIT_BATCH_MESSAGE_def
  apply_ADD_ROUTING_KEY_def apply_DELETE_ROUTING_KEY_def apply_GET_MESSAGES_def apply_ACK_def
  apply_NACK_def apply_DELETE_QUEUE_def apply_CREATE_ACCOUNT_def apply_CHANGE_PASSWORD_def
  apply_DELETE_USER_def apply_BATCH_ACK_def apply_BATCH_NACK_def apply_CREATE_ROLE_def
  apply_ASSIGN_ROLE_def apply_UNASSIGN_ROLE_def

end
