(* ===== verification/FsmAuth.thy ===== *)
theory FsmAuth
  imports Fsm
begin

text \<open>
  Authorisation of commands: which permission a command needs, and that a command without it, or
  one that cannot be decoded, returns an error and changes nothing.
\<close>

section \<open>The permission a command needs\<close>

definition adminTable :: "(Operation \<times> AdminPermission) list" where
  "adminTable =
     [(CREATE_QUEUE, ALLOW_CREATE_QUEUE), (DELETE_QUEUE, ALLOW_DELETE_QUEUE),
      (ADD_ROUTING_KEY, ALLOW_ADD_ROUTING_KEY), (DELETE_ROUTING_KEY, ALLOW_DELETE_ROUTING_KEY),
      (CREATE_ACCOUNT, ALLOW_CREATE_USER), (CHANGE_PASSWORD, ALLOW_CHANGE_PASSWORD),
      (DELETE_USER, ALLOW_DELETE_USER), (CREATE_ROLE, ALLOW_CREATE_ROLE),
      (ASSIGN_ROLE, ALLOW_ASSIGN_ROLE), (UNASSIGN_ROLE, ALLOW_UNASSIGN_ROLE)]"

definition actionTable :: "(Operation \<times> Action) list" where
  "actionTable =
     [(SUBMIT_MESSAGE, SUBMIT_MESSAGE_ACTION), (SUBMIT_BATCH_MESSAGE, SUBMIT_BATCH_ACTION),
      (GET_MESSAGES, GET_MESSAGES_ACTION), (ACK, ACK_ACTION), (NACK, ACK_ACTION),
      (BATCH_ACK, BATCH_ACK_ACTION), (BATCH_NACK, BATCH_ACK_ACTION)]"

text \<open>The queues or routing keys that a message command names, when its payload can be decoded.\<close>

definition entities :: "codec \<Rightarrow> CommandPayload \<Rightarrow> error + string list" where
  "entities cd p =
     (let d = cpData p; op = cpOp p in
      if op = SUBMIT_MESSAGE then map_sum id (\<lambda>x. [miRk x]) (decMessageInfo cd d)
      else if op = SUBMIT_BATCH_MESSAGE then map_sum id (map msRK) (decBatchMessages cd d)
      else if op = GET_MESSAGES then map_sum id (\<lambda>x. [rmQueueName x]) (decRequest cd d)
      else if op = ACK \<or> op = NACK then map_sum id (\<lambda>x. [auQueueName x]) (decAckUpdate cd d)
      else if op = BATCH_ACK then map_sum id (\<lambda>x. [baQueueName x]) (decBatchAck cd d)
      else map_sum id (\<lambda>x. [bnQueueName x]) (decBatchNack cd d))"

definition authorised :: "codec \<Rightarrow> roleManager \<Rightarrow> CommandPayload \<Rightarrow> bool" where
  "authorised cd r p =
     (case map_of adminTable (cpOp p) of
        Some perm \<Rightarrow> HasAdminPermission r (cpUsername p) perm = Inr True
      | None \<Rightarrow>
          (case map_of actionTable (cpOp p) of
             Some act \<Rightarrow>
               (case entities cd p of
                  Inl err \<Rightarrow> False
                | Inr es \<Rightarrow> list_all (\<lambda>x. HasPermission r (cpUsername p) x act = Inr True) es)
           | None \<Rightarrow> False))"

section \<open>Commands without permission\<close>

text \<open>The rejections of a command: an error as the result and the state as it was.\<close>

definition rejected :: "syblineFSM \<Rightarrow> outcome \<Rightarrow> bool" where
  "rejected b out \<longleftrightarrow> (\<exists>err. out = failed b err)"

lemma rejected_failed [simp]: "rejected b (failed b err)"
  by (auto simp: rejected_def)

lemma checked_rejected:
  "(\<And>p. dec = Inr p \<Longrightarrow> perm p \<noteq> Inr True) \<Longrightarrow> rejected b (checked b dec perm k)"
  by (auto simp: checked_def split: sum.split)

lemma checked_cases:
  obtains (stop) err where "checked b dec perm k = failed b err"
  | (go) p where "dec = Inr p" "perm p = Inr True" "checked b dec perm k = k p"
proof (cases dec)
  case (Inl err)
  then show thesis by (intro stop[of err]) (simp add: checked_def)
next
  case (Inr p)
  show thesis
  proof (cases "perm p")
    case (Inl err)
    with Inr show thesis by (intro stop[of err]) (simp add: checked_def)
  next
    case ok: (Inr ok)
    with Inr show thesis by (cases ok) (auto simp: checked_def intro: stop go)
  qed
qed

lemma batchPermission_None:
  "batchPermission r u ms = None \<longleftrightarrow>
     (\<forall>x\<in>set (map msRK ms). HasPermission r u x SUBMIT_BATCH_ACTION = Inr True)"
  by (induction ms) (auto split: sum.split)

lemma batch_rejected:
  assumes "\<And>ms. decBatchMessages cd (cpData p) = Inr ms \<Longrightarrow>
      \<not> (\<forall>x\<in>set (map msRK ms). HasPermission (fRoles b) (cpUsername p) x SUBMIT_BATCH_ACTION = Inr True)"
  shows "rejected b (apply_SUBMIT_BATCH_MESSAGE cd e b p)"
proof (cases "decBatchMessages cd (cpData p)")
  case (Inr ms)
  with assms have "batchPermission (fRoles b) (cpUsername p) ms \<noteq> None"
    unfolding batchPermission_None by blast
  with Inr show ?thesis by (auto simp: apply_SUBMIT_BATCH_MESSAGE_def)
qed (simp add: apply_SUBMIT_BATCH_MESSAGE_def)

lemma dispatch_unauthorised:
  assumes "\<not> authorised cd (fRoles b) p"
  shows "rejected b (dispatch cd e b p)"
proof (cases "map_of adminTable (cpOp p)")
  case (Some perm)
  with assms have n: "HasAdminPermission (fRoles b) (cpUsername p) perm \<noteq> Inr True"
    by (simp add: authorised_def)
  from Some n show ?thesis
    by (auto simp: adminTable_def dispatch_def op_defs intro!: checked_rejected split: if_splits)
next
  case None
  show ?thesis
  proof (cases "map_of actionTable (cpOp p)")
    case (Some act)
    with None assms have n: "\<And>es. entities cd p = Inr es \<Longrightarrow>
        \<not> list_all (\<lambda>x. HasPermission (fRoles b) (cpUsername p) x act = Inr True) es"
      by (auto simp: authorised_def split: sum.splits)
    consider "cpOp p = SUBMIT_BATCH_MESSAGE" | "cpOp p \<noteq> SUBMIT_BATCH_MESSAGE" by blast
    then show ?thesis
    proof cases
      case 1
      with Some n have "rejected b (apply_SUBMIT_BATCH_MESSAGE cd e b p)"
        by (intro batch_rejected) (auto simp: actionTable_def entities_def list_all_iff)
      with 1 show ?thesis by (simp add: dispatch_def)
    next
      case 2
      with Some n show ?thesis
        by (auto simp: actionTable_def entities_def dispatch_def op_defs
            intro!: checked_rejected split: if_splits)
    qed
  next
    case no: None
    with None show ?thesis
      by (auto simp: adminTable_def actionTable_def dispatch_def split: if_splits)
  qed
qed

end
