(* ===== verification/FsmInv.thy ===== *)
theory FsmInv
  imports FsmAuth
begin

text \<open>
  The invariant of the replicated state: sorted routes over well-formed queues, distinct usernames,
  roles stored under their names; and that there is always an account. Batch acknowledgements are
  left out of the first: they can break the queue they work on (see the properties on batches).
\<close>

section \<open>Calls that return keep the manager well-formed\<close>

lemma managed_AddMessage:
  assumes "managed m"
  shows "keeps managed (queueManager_AddMessage m n data i)"
proof (cases "queues m n")
  case (Some k)
  then obtain q where q: "content m n q" using managed_content[OF assms, of n] by auto
  from AddMessage_content[OF assms q, of data i] show ?thesis by auto
qed (simp add: missing_queue assms)

lemma managed_BatchAddMessage:
  assumes "managed m"
  shows "keeps managed (queueManager_BatchAddMessage m n data ids)"
proof (cases "queues m n")
  case (Some k)
  then obtain q where q: "content m n q" using managed_content[OF assms, of n] by auto
  show ?thesis
  proof (cases "length data \<le> length ids")
    case True
    from BatchAddMessage_content[OF assms q True] show ?thesis by auto
  qed (use Some in \<open>simp add: queueManager_BatchAddMessage_def\<close>)
qed (simp add: missing_queue assms)

lemma managed_GetMessage:
  assumes "managed m"
  shows "keeps managed (queueManager_GetMessage m n k c now)"
proof (cases "queues m n")
  case (Some j)
  then obtain q where q: "content m n q" using managed_content[OF assms, of n] by auto
  from GetMessage_content[OF assms q, of k c now] show ?thesis by auto
qed (simp add: missing_queue assms)

lemma managed_Ack:
  assumes "managed m"
  shows "keeps managed (queueManager_Ack m n c i)"
proof (cases "queues m n")
  case (Some j)
  then obtain q where q: "content m n q" using managed_content[OF assms, of n] by auto
  from Ack_content[OF assms q, of c i] show ?thesis by auto
qed (simp add: missing_queue assms)

text \<open>A negative acknowledgement returns exactly when the abstract queue says so.\<close>

lemma Nack_panics:
  assumes "content m n q" "dlqContent m n dl" "aqNack q dl c i = None"
  shows "queueManager_Nack m n c i = None"
proof -
  from assms(1) obtain k where k: "queues m n = Some k" "models (qobjs m ! k) q" by (auto simp: content_def)
  with assms(2) have d: "rel_option models (dlqObj m k) dl" by (auto simp: dlqContent_def)
  from Unlock_models[OF k(2) d, of c i] assms(3) have "Unlock (qobjs m ! k) (dlqObj m k) c i = None"
    by (auto simp: option.rel_sel)
  with k(1) show ?thesis by (simp add: queueManager_Nack_def)
qed

lemma managed_Nack:
  assumes "managed m"
  shows "keeps managed (queueManager_Nack m n c i)"
proof (cases "queues m n")
  case (Some k)
  then obtain q dl where q: "content m n q" "dlqContent m n dl"
    using managed_content[OF assms, of n] managed_dlqContent[OF assms Some] by auto
  show ?thesis
  proof (cases "aqNack q dl c i")
    case None
    with Nack_panics[OF q] show ?thesis by simp
  next
    case (Some x)
    then obtain b q' dl' where "aqNack q dl c i = Some (b, q', dl')" by (cases x) auto
    from Nack_content[OF assms q this] show ?thesis by auto
  qed
qed (simp add: missing_queue assms)

lemma managed_fanOut:
  assumes "\<And>m k. managed m \<Longrightarrow> keeps managed (add m k)" "managed m" "fanOut add ks m = Some m'"
  shows "managed m'"
  using assms(2,3)
proof (induction ks arbitrary: m)
  case (Cons k ks)
  from Cons.prems(2) obtain e m1 where m1: "add m k = Some (e, m1)" "fanOut add ks m1 = Some m'"
    by (auto simp: bind_Some_iff)
  from keepsD[OF assms(1)[OF Cons.prems(1)] m1(1)] Cons.IH m1(2) show ?case by blast
qed simp

lemma brokerOk_fanOut:
  assumes "\<And>m k. managed m \<Longrightarrow> keeps managed (add m k)" "brokerOk b"
  shows "keeps brokerOk (fanOut add ks (manager b) \<bind> (\<lambda>m. Some (e, b\<lparr>manager := m\<rparr>)))"
proof (cases "fanOut add ks (manager b)")
  case (Some m)
  have "managed (manager b)" using assms(2) by (simp add: brokerOk_def)
  from managed_fanOut[OF assms(1) this Some] assms(2) Some show ?thesis by (simp add: brokerOk_def)
qed simp

lemma brokerOk_AddMessage: "brokerOk b \<Longrightarrow> keeps brokerOk (broker_AddMessage sched b k data i)"
  unfolding broker_AddMessage_def
  by (simp add: brokerOk_fanOut managed_AddMessage split: option.split)

lemma brokerOk_BatchAddMessage:
  "brokerOk b \<Longrightarrow> keeps brokerOk (broker_BatchAddMessage sched b k datas ids)"
  unfolding broker_BatchAddMessage_def
  by (simp add: brokerOk_fanOut managed_BatchAddMessage split: option.split)

lemma brokerOk_batchAdd: "brokerOk b \<Longrightarrow> keeps brokerOk (batchAdd e b errs ms)"
proof (induction ms arbitrary: b errs)
  case (Cons d ms)
  then show ?case by (auto intro!: keeps_bind[OF brokerOk_BatchAddMessage])
qed simp

section \<open>The invariant of the state machine\<close>

definition fsmOk :: "syblineFSM \<Rightarrow> bool" where
  "fsmOk b \<longleftrightarrow> brokerOk (fBroker b) \<and> accountsOk (fAuth b) \<and> namesOk (fRoles b)"

lemma fsmOk_parts:
  "fsmOk b \<Longrightarrow> brokerOk br \<Longrightarrow> fsmOk (b\<lparr>fBroker := br\<rparr>)"
  "fsmOk b \<Longrightarrow> accountsOk a \<Longrightarrow> fsmOk (b\<lparr>fAuth := a\<rparr>)"
  "fsmOk b \<Longrightarrow> namesOk r \<Longrightarrow> fsmOk (b\<lparr>fRoles := r\<rparr>)"
  "fsmOk b \<Longrightarrow> managed m \<Longrightarrow> fsmOk (setQm b m)"
  by (simp_all add: fsmOk_def setQm_def brokerOk_def)

lemma fsmOk_sel:
  assumes "fsmOk b"
  shows "brokerOk (fBroker b)" "managed (qm b)" "accountsOk (fAuth b)" "namesOk (fRoles b)"
  using assms by (auto simp: fsmOk_def brokerOk_def)

lemma keeps_finished [simp]:
  "keeps I (finished b err) \<longleftrightarrow> I b" "keeps I (failed b x) \<longleftrightarrow> I b"
  by (simp_all add: finished_def failed_def)

lemma keeps_checked:
  assumes "I b" "\<And>p. keeps I (k p)"
  shows "keeps I (checked b dec perm k)"
  using assms by (auto simp: checked_def split: sum.split)

lemma keeps_call: "I (snd x) \<Longrightarrow> (\<And>r s. I s \<Longrightarrow> keeps J (f r s)) \<Longrightarrow> keeps J (case x of (r, s) \<Rightarrow> f r s)"
  by (cases x) simp

section \<open>Every command but the batch acknowledgements keeps it\<close>

lemma apply_broker_ok:
  assumes "fsmOk b"
  shows "keeps fsmOk (apply_CREATE_QUEUE cd b p)" "keeps fsmOk (apply_SUBMIT_MESSAGE cd e b p)"
    "keeps fsmOk (apply_ADD_ROUTING_KEY cd b p)" "keeps fsmOk (apply_DELETE_ROUTING_KEY cd e b p)"
    "keeps fsmOk (apply_DELETE_QUEUE cd e b p)" "keeps fsmOk (apply_SUBMIT_BATCH_MESSAGE cd e b p)"
proof -
  note ok = fsmOk_sel[OF assms]
  note put = fsmOk_parts(1)[OF assms]
  have route: "keeps brokerOk (broker_DeleteRoutingKey order (fBroker b) k n)" for order k n
    using broker_ok(4)[OF ok(1)] by (auto simp: keeps_def)
  show "keeps fsmOk (apply_CREATE_QUEUE cd b p)" unfolding apply_defs
    by (intro keeps_checked assms keeps_call[where I = brokerOk, OF broker_ok(1)[OF ok(1)]]) (simp add: put)
  show "keeps fsmOk (apply_SUBMIT_MESSAGE cd e b p)" unfolding apply_defs
    by (intro keeps_checked assms keeps_bind[OF brokerOk_AddMessage[OF ok(1)]]) (simp add: put)
  show "keeps fsmOk (apply_ADD_ROUTING_KEY cd b p)" unfolding apply_defs
    by (intro keeps_checked assms keeps_call[where I = brokerOk, OF broker_ok(2)[OF ok(1)]]) (simp add: put)
  show "keeps fsmOk (apply_DELETE_ROUTING_KEY cd e b p)" unfolding apply_defs
    by (intro keeps_checked assms keeps_bind[OF route]) (simp add: put)
  show "keeps fsmOk (apply_DELETE_QUEUE cd e b p)" unfolding apply_defs
    by (intro keeps_checked assms keeps_call[where I = brokerOk, OF broker_ok(3)[OF ok(1)]]) (simp add: put)
  have "keeps fsmOk (batchAdd e (fBroker b) [] ms \<bind> (\<lambda>(errs, br). finished (b\<lparr>fBroker := br\<rparr>) (joinErrors errs)))" for ms
    by (rule keeps_bind[OF brokerOk_batchAdd[OF ok(1)]]) (simp add: put)
  then show "keeps fsmOk (apply_SUBMIT_BATCH_MESSAGE cd e b p)"
    using assms unfolding apply_defs by (simp split: sum.split option.split)
qed

lemma apply_consumer_ok:
  assumes "fsmOk b"
  shows "keeps fsmOk (apply_GET_MESSAGES cd b p)" "keeps fsmOk (apply_ACK cd b p)"
    "keeps fsmOk (apply_NACK cd b p)"
proof -
  note ok = fsmOk_sel[OF assms]
  note put = fsmOk_parts(4)[OF assms]
  have get: "keeps managed (consumerManager_GetMessages (qm b) n k c now)" for n k c now
    using managed_GetMessage[OF ok(2)] ok(2) by (simp add: consumerManager_GetMessages_def)
  show "keeps fsmOk (apply_GET_MESSAGES cd b p)" unfolding apply_defs
    by (intro keeps_checked assms keeps_bind[OF get]) (simp add: put split: sum.split)
  show "keeps fsmOk (apply_ACK cd b p)" unfolding apply_defs consumerManager_Ack_def
    by (intro keeps_checked assms keeps_bind[OF managed_Ack[OF ok(2)]]) (simp add: put)
  show "keeps fsmOk (apply_NACK cd b p)" unfolding apply_defs consumerManager_Nack_def
    by (intro keeps_checked assms keeps_bind[OF managed_Nack[OF ok(2)]]) (simp add: put)
qed

lemma apply_account_ok:
  assumes "fsmOk b"
  shows "keeps fsmOk (apply_CREATE_ACCOUNT cd e b p)" "keeps fsmOk (apply_CHANGE_PASSWORD cd e b p)"
    "keeps fsmOk (apply_DELETE_USER cd b p)" "keeps fsmOk (apply_CREATE_ROLE cd b p)"
    "keeps fsmOk (apply_ASSIGN_ROLE cd b p)" "keeps fsmOk (apply_UNASSIGN_ROLE cd b p)"
proof -
  note acc = accountsOk_ops[OF fsmOk_sel(3)[OF assms]]
  note nms = namesOk_ops[OF fsmOk_sel(4)[OF assms]]
  note put = fsmOk_parts(2,3)[OF assms]
  show "keeps fsmOk (apply_CREATE_ACCOUNT cd e b p)" unfolding apply_defs
    by (intro keeps_checked assms keeps_call[where I = accountsOk, OF acc(1)]) (simp add: put)
  show "keeps fsmOk (apply_CHANGE_PASSWORD cd e b p)" unfolding apply_defs
    by (intro keeps_checked assms keeps_call[where I = accountsOk, OF acc(2)]) (simp add: put split: sum.split)
  show "keeps fsmOk (apply_DELETE_USER cd b p)" unfolding apply_defs
    by (intro keeps_checked assms keeps_call[where I = accountsOk, OF acc(3)]) (simp add: put)
  show "keeps fsmOk (apply_CREATE_ROLE cd b p)" unfolding apply_defs
    by (intro keeps_checked assms keeps_call[where I = namesOk, OF nms(1)]) (simp add: put)
  have "keeps fsmOk (case AssignRole (fRoles b) u n of (err, r) \<Rightarrow> finished (b\<lparr>fRoles := r\<rparr>) err)" for u n
    by (intro keeps_call[where I = namesOk, OF nms(3)]) (simp add: put)
  then show "keeps fsmOk (apply_ASSIGN_ROLE cd b p)" unfolding apply_defs
    by (intro keeps_checked assms) (simp add: assms)
  have "keeps fsmOk (case UnassignRole (fRoles b) u n of (err, r) \<Rightarrow> finished (b\<lparr>fRoles := r\<rparr>) err)" for u n
    by (intro keeps_call[where I = namesOk, OF nms(4)]) (simp add: put)
  then show "keeps fsmOk (apply_UNASSIGN_ROLE cd b p)" unfolding apply_defs
    by (intro keeps_checked assms) (simp add: assms)
qed

lemma dispatch_fsmOk:
  assumes "fsmOk b" "cpOp p \<noteq> BATCH_ACK" "cpOp p \<noteq> BATCH_NACK"
  shows "keeps fsmOk (dispatch cd e b p)"
  using assms(2,3) apply_broker_ok[OF assms(1)] apply_consumer_ok[OF assms(1)] apply_account_ok[OF assms(1)]
  unfolding dispatch_def Let_def by (simp add: assms(1))

end
