(* ===== verification/FsmRuns.thy ===== *)
theory FsmRuns
  imports FsmInv
begin

text \<open>
  Log entries: the invariants along a list of commands, the number of results, that there is always
  an account left, and which commands always return.
\<close>

section \<open>Accounts\<close>

definition hasAccount :: "syblineFSM \<Rightarrow> bool" where
  "hasAccount b \<longleftrightarrow> credentials (fAuth b) \<noteq> []"

lemma keeps_any: "keeps (\<lambda>_. True) out"
  by (simp add: keeps_def)

lemma accounts_nonempty:
  assumes "credentials a \<noteq> []"
  shows "credentials (snd (CreateUser key rnd a u p)) \<noteq> []"
    "credentials (snd (ChangePassword key rnd a u old new)) \<noteq> []"
    "credentials (snd (authManager_DeleteUser a u)) \<noteq> []"
proof -
  show "credentials (snd (CreateUser key rnd a u p)) \<noteq> []"
    using assms by (simp add: CreateUser_def split: sum.split)
  show "credentials (snd (ChangePassword key rnd a u old new)) \<noteq> []"
    using assms by (simp add: ChangePassword_def Let_def split: sum.split option.split)
  have "credentials (deleteUsername b u) \<noteq> []" if "credentials b \<noteq> []" "length (credentials b) \<noteq> 1" for b
    using that by (cases "credentials b") (auto simp: deleteUsername_def swapRemove_def split: option.split)
  then show "credentials (snd (authManager_DeleteUser a u)) \<noteq> []"
    using assms by (simp add: authManager_DeleteUser_def sessionHandler_DeleteUser_def)
qed

lemma hasAccount_parts [simp]:
  "hasAccount (b\<lparr>fBroker := br\<rparr>) = hasAccount b" "hasAccount (b\<lparr>fRoles := r\<rparr>) = hasAccount b"
  "hasAccount (setQm b m) = hasAccount b" "hasAccount (b\<lparr>fAuth := a\<rparr>) \<longleftrightarrow> credentials a \<noteq> []"
  by (simp_all add: hasAccount_def setQm_def)

lemma apply_hasAccount:
  assumes "hasAccount b"
  shows "keeps hasAccount (dispatch cd e b p)"
proof -
  note acc = accounts_nonempty[OF assms[unfolded hasAccount_def]]
  have acct: "keeps hasAccount (apply_CREATE_ACCOUNT cd e b p)" unfolding apply_defs
    by (intro keeps_checked assms keeps_call[where I = "\<lambda>a. credentials a \<noteq> []", OF acc(1)]) simp
  have pass: "keeps hasAccount (apply_CHANGE_PASSWORD cd e b p)" unfolding apply_defs
    by (intro keeps_checked assms keeps_call[where I = "\<lambda>a. credentials a \<noteq> []", OF acc(2)])
      (simp split: sum.split)
  have del: "keeps hasAccount (apply_DELETE_USER cd b p)" unfolding apply_defs
    by (intro keeps_checked assms keeps_call[where I = "\<lambda>a. credentials a \<noteq> []", OF acc(3)]) simp
  have broker: "keeps hasAccount (apply_CREATE_QUEUE cd b p)" "keeps hasAccount (apply_ADD_ROUTING_KEY cd b p)"
    "keeps hasAccount (apply_DELETE_QUEUE cd e b p)" "keeps hasAccount (apply_CREATE_ROLE cd b p)"
    "keeps hasAccount (apply_ASSIGN_ROLE cd b p)" "keeps hasAccount (apply_UNASSIGN_ROLE cd b p)"
    unfolding apply_defs by (intro keeps_checked assms; simp add: assms split: prod.split)+
  have calls: "keeps hasAccount (apply_SUBMIT_MESSAGE cd e b p)" "keeps hasAccount (apply_DELETE_ROUTING_KEY cd e b p)"
    "keeps hasAccount (apply_ACK cd b p)" "keeps hasAccount (apply_NACK cd b p)"
    "keeps hasAccount (apply_BATCH_ACK cd b p)" "keeps hasAccount (apply_BATCH_NACK cd b p)"
    unfolding apply_defs by (intro keeps_checked assms keeps_bind[OF keeps_any]; simp add: assms)+
  have get: "keeps hasAccount (apply_GET_MESSAGES cd b p)" unfolding apply_defs
    by (intro keeps_checked assms keeps_bind[OF keeps_any]) (simp add: assms split: sum.split)
  have "keeps hasAccount (batchAdd e (fBroker b) [] ms \<bind> (\<lambda>(errs, br). finished (b\<lparr>fBroker := br\<rparr>) (joinErrors errs)))" for ms
    by (rule keeps_bind[OF keeps_any]) (simp add: assms)
  then have batch: "keeps hasAccount (apply_SUBMIT_BATCH_MESSAGE cd e b p)"
    unfolding apply_defs using assms by (simp split: sum.split option.split)
  show ?thesis unfolding dispatch_def Let_def
    using acct pass del broker calls get batch assms by simp
qed

section \<open>Log entries\<close>

text \<open>A predicate that every command of an entry keeps holds after the entry.\<close>

lemma Apply_loop_keeps:
  assumes "\<And>b i d. I b \<Longrightarrow> d \<in> set data \<Longrightarrow> keeps I (applySingle cd (es i) b d)" "I b"
  shows "keeps I (Apply_loop cd es i b results data)"
  using assms
proof (induction data arbitrary: i b results)
  case (Cons d data)
  show ?case
  proof (cases "length d = 0")
    case True
    with Cons.IH[of b "Suc i" results] Cons.prems show ?thesis by simp
  next
    case False
    have "keeps I (applySingle cd (es i) b d \<bind> (\<lambda>(res, b'). Apply_loop cd es (Suc i) b' (results @ [res]) data))"
    proof (rule keeps_bind)
      show "keeps I (applySingle cd (es i) b d)" using Cons.prems by simp
      show "keeps I (case (r, s) of (res, b') \<Rightarrow> Apply_loop cd es (Suc i) b' (results @ [res]) data)"
        if "I s" for r s using Cons.IH[of s] Cons.prems(1) that by simp
    qed
    with False show ?thesis by simp
  qed
qed simp

lemma Apply_keeps:
  assumes "\<And>b i d. I b \<Longrightarrow> keeps I (applySingle cd (es i) b d)" "I b"
  shows "keeps I (Apply cd es b lg)"
proof -
  have "keeps I (Apply_loop cd es 0 b [] data \<bind> (\<lambda>(results, b').
      Some (Inr (Some results) :: error + SyblineFSMResult list option, b')))" for data
    by (rule keeps_bind[OF Apply_loop_keeps]) (use assms in auto)
  with assms(2) show ?thesis by (simp add: Apply_def split: sum.split)
qed

lemma applySingle_keeps:
  assumes "I b" "\<And>p. keeps I (dispatch cd e b p)"
  shows "keeps I (applySingle cd e b d)"
  using assms by (simp add: applySingle_def split: sum.split)

lemma Apply_loop_length:
  "Apply_loop cd es i b results data = Some (results', b') \<Longrightarrow>
   length results' = length results + length (filter (\<lambda>d. d \<noteq> []) data)"
proof (induction data arbitrary: i b results)
  case (Cons d data)
  then show ?case by (cases "d = []") (fastforce simp: bind_Some_iff)+
qed simp

text \<open>Along a list of commands.\<close>

fun runCommands :: "codec \<Rightarrow> (nat \<Rightarrow> env) \<Rightarrow> nat \<Rightarrow> syblineFSM \<Rightarrow> CommandPayload list \<Rightarrow> syblineFSM option" where
  "runCommands cd es i b [] = Some b"
| "runCommands cd es i b (p # ps) =
     do { (res, b') \<leftarrow> dispatch cd (es i) b p; runCommands cd es (Suc i) b' ps }"

lemma runCommands_inv:
  assumes "\<And>b i p. I b \<Longrightarrow> p \<in> set ps \<Longrightarrow> keeps I (dispatch cd (es i) b p)" "I b"
    and "runCommands cd es i b ps = Some b'"
  shows "I b'"
  using assms
proof (induction ps arbitrary: i b)
  case (Cons p ps)
  from Cons.prems(3) obtain res b1 where b1: "dispatch cd (es i) b p = Some (res, b1)"
    "runCommands cd es (Suc i) b1 ps = Some b'" by (auto simp: bind_Some_iff)
  have "I b1" using keepsD[OF Cons.prems(1)[OF Cons.prems(2)] b1(1)] by simp
  with Cons.IH[OF _ _ b1(2)] Cons.prems(1) show ?case by simp
qed simp

end
