(* ===== verification/FsmReplicas.thy ===== *)
theory FsmReplicas
  imports FsmRuns
begin

text \<open>
  Replicas apply the same commands with different random bytes, goroutine schedules and map orders.
  This theory shows for which commands they still agree on queues, routes, roles and usernames.
\<close>

section \<open>Goroutine schedules\<close>

definition addStep :: "('m \<Rightarrow> string \<Rightarrow> (error option \<times> 'm) option) \<Rightarrow> string \<Rightarrow> 'm option \<Rightarrow> 'm option" where
  "addStep add k om = do { m \<leftarrow> om; (e, m') \<leftarrow> add m k; Some m' }"

lemma addStep_simps [simp]:
  "addStep add k None = None"
  "add m k = None \<Longrightarrow> addStep add k (Some m) = None"
  "add m k = Some (e, m') \<Longrightarrow> addStep add k (Some m) = Some m'"
  by (simp_all add: addStep_def)

lemma fold_addStep_None: "fold (addStep add) ks None = None"
  by (induction ks) simp_all

lemma fanOut_fold: "fanOut add ks m = fold (addStep add) ks (Some m)"
proof (induction ks arbitrary: m)
  case (Cons k ks)
  then show ?case by (cases "add m k") (auto simp: fold_addStep_None)
qed simp

lemma fanOut_perm:
  assumes "\<And>a b. addStep add a \<circ> addStep add b = addStep add b \<circ> addStep add a"
    and "mset ks = mset ks'"
  shows "fanOut add ks m = fanOut add ks' m"
  unfolding fanOut_fold using fold_multiset_equiv[of ks "addStep add" ks'] assms by metis

text \<open>Two calls on different objects commute, and two calls on one object are the same call.\<close>

definition objectCall :: "(LinkedList \<Rightarrow> LinkedList option) \<Rightarrow> queueManager \<Rightarrow> string \<Rightarrow> (error option \<times> queueManager) option" where
  "objectCall f m n =
     (case queues m n of
        None \<Rightarrow> Some (Some ErrQueueMissing, m)
      | Some q \<Rightarrow> do { ll \<leftarrow> f (qobjs m ! q); Some (None, storeQ m q ll) })"

lemma addStep_objectCall:
  "addStep (objectCall f) n (Some m) =
     (case queues m n of
        None \<Rightarrow> Some m
      | Some q \<Rightarrow> do { ll \<leftarrow> f (qobjs m ! q); Some (storeQ m q ll) })"
  by (auto simp: addStep_def objectCall_def split: option.split)

lemma objectCall_commute:
  "addStep (objectCall f) a \<circ> addStep (objectCall f) b = addStep (objectCall f) b \<circ> addStep (objectCall f) a"
proof
  fix om
  have "addStep (objectCall f) a (addStep (objectCall f) b (Some m)) =
      addStep (objectCall f) b (addStep (objectCall f) a (Some m))" for m
  proof (cases "queues m a = None \<or> queues m b = None")
    case True
    then show ?thesis
      by (cases "queues m a"; cases "queues m b")
        (auto simp: addStep_objectCall split: option.split bind_splits)
  next
    case False
    then obtain i j where ij: "queues m a = Some i" "queues m b = Some j" by auto
    show ?thesis
    proof (cases "i = j")
      case True
      with ij show ?thesis
        by (cases "f (qobjs m ! j)") (simp_all add: addStep_objectCall)
    next
      case False
      have upd: "storeQ (storeQ m i x) j y = storeQ (storeQ m j y) i x" for x y
        using False by (simp add: storeQ_def list_update_swap)
      from False ij show ?thesis
        by (cases "f (qobjs m ! i)"; cases "f (qobjs m ! j)") (simp_all add: addStep_objectCall upd)
    qed
  qed
  then show "(addStep (objectCall f) a \<circ> addStep (objectCall f) b) om =
      (addStep (objectCall f) b \<circ> addStep (objectCall f) a) om"
    by (cases om) simp_all
qed

lemma AddMessage_objectCall:
  "(\<lambda>m n. queueManager_AddMessage m n data i) = objectCall (\<lambda>ll. Enqueue ll i data)"
  by (simp add: fun_eq_iff queueManager_AddMessage_def objectCall_def)

lemma BatchAddMessage_objectCall:
  "(\<lambda>m n. queueManager_BatchAddMessage m n data ids) =
     objectCall (\<lambda>ll. if length ids < length data then None
       else BatchEnqueue ll (map (\<lambda>i. \<lparr>mbId = ids ! i, mbData = data ! i\<rparr>) [0..<length data]))"
  by (auto simp: fun_eq_iff queueManager_BatchAddMessage_def objectCall_def split: option.split)

lemma AddMessage_schedule:
  assumes "\<And>ks. mset (s ks) = mset (s' ks)"
  shows "broker_AddMessage s b k data i = broker_AddMessage s' b k data i"
proof -
  have "fanOut (\<lambda>m n. queueManager_AddMessage m n data i) (s ks) m =
      fanOut (\<lambda>m n. queueManager_AddMessage m n data i) (s' ks) m" for ks m
    unfolding AddMessage_objectCall by (rule fanOut_perm[OF objectCall_commute assms])
  then show ?thesis by (simp add: broker_AddMessage_def split: option.split)
qed

lemma BatchAddMessage_schedule:
  assumes "\<And>ks. mset (s ks) = mset (s' ks)"
  shows "broker_BatchAddMessage s b k data ids = broker_BatchAddMessage s' b k data ids"
proof -
  have "fanOut (\<lambda>m n. queueManager_BatchAddMessage m n data ids) (s ks) m =
      fanOut (\<lambda>m n. queueManager_BatchAddMessage m n data ids) (s' ks) m" for ks m
    unfolding BatchAddMessage_objectCall by (rule fanOut_perm[OF objectCall_commute assms])
  then show ?thesis by (simp add: broker_BatchAddMessage_def split: option.split)
qed

section \<open>Map orders\<close>

lemma mapOrder_mset: "mapOrder ks r \<Longrightarrow> mapOrder ks' r \<Longrightarrow> mset ks = mset ks'"
  by (auto simp: mapOrder_def set_eq_iff_mset_eq_distinct[symmetric])

lemma DeleteRoutingKey_order:
  assumes "mapOrder o1 (routing b)" "mapOrder o2 (routing b)"
  shows "broker_DeleteRoutingKey o1 b k n = broker_DeleteRoutingKey o2 b k n"
proof -
  have "length (filter (\<lambda>k. n \<in> set (routeOf (routing b) k)) o1) =
      length (filter (\<lambda>k. n \<in> set (routeOf (routing b) k)) o2)"
    using mapOrder_mset[OF assms] by (simp add: length_filter_mset)
  then have c: "countRoutes o1 (routing b) n 0 = countRoutes o2 (routing b) n 0"
    by (simp add: countRoutes_min)
  show ?thesis by (simp only: broker_DeleteRoutingKey_def c)
qed

definition oneRoute :: "(string \<rightharpoonup> string list) \<Rightarrow> string \<Rightarrow> bool" where
  "oneRoute r n \<longleftrightarrow> (\<forall>k k'. n \<in> set (routeOf r k) \<longrightarrow> n \<in> set (routeOf r k') \<longrightarrow> k = k')"

lemma DeleteQueue_missing:
  assumes "\<not> queueManager_Exists (manager b) n"
  shows "broker_DeleteQueue order b n =
    (if \<exists>k\<in>set order. n \<in> set (routeOf (routing b) k) then Some ErrQueueMissing else None, b)"
proof -
  have "broker_DeleteQueue_loop order b n =
    (if \<exists>k\<in>set order. n \<in> set (routeOf (routing b) k) then Some ErrQueueMissing else None, b)"
    using assms
    by (induction order) (auto simp: cutAt_indexFunc routeOf_def queueManager_Delete_def
        queueManager_Exists_def split: option.splits)
  then show ?thesis by (simp add: broker_DeleteQueue_def)
qed

lemma DeleteQueue_order:
  assumes "mapOrder o1 (routing b)" "mapOrder o2 (routing b)" "oneRoute (routing b) n"
  shows "broker_DeleteQueue o1 b n = broker_DeleteQueue o2 b n"
proof (cases "queueManager_Exists (manager b) n \<and> routed b n")
  case True
  then have q: "queueManager_Exists (manager b) n" "routed b n" by auto
  from DeleteQueue_one_route[OF assms(1) q] obtain k1 ks1 where 1: "routing b k1 = Some ks1"
    "n \<in> set ks1" "broker_DeleteQueue o1 b n =
      (None, b\<lparr>manager := (manager b)\<lparr>queues := (queues (manager b))(n := None)\<rparr>,
              routing := (routing b)(k1 \<mapsto> removeFirst (\<lambda>v. v = n) ks1)\<rparr>)" by blast
  from DeleteQueue_one_route[OF assms(2) q] obtain k2 ks2 where 2: "routing b k2 = Some ks2"
    "n \<in> set ks2" "broker_DeleteQueue o2 b n =
      (None, b\<lparr>manager := (manager b)\<lparr>queues := (queues (manager b))(n := None)\<rparr>,
              routing := (routing b)(k2 \<mapsto> removeFirst (\<lambda>v. v = n) ks2)\<rparr>)" by blast
  have "k1 = k2" using assms(3) 1(1,2) 2(1,2) by (auto simp: oneRoute_def routeOf_def)
  with 1 2 show ?thesis by simp
next
  case False
  show ?thesis
  proof (cases "routed b n")
    case True
    with False have n: "\<not> queueManager_Exists (manager b) n" by blast
    have "set o1 = set o2" using assms(1,2) by (simp add: mapOrder_def)
    then show ?thesis by (simp add: DeleteQueue_missing[OF n])
  qed (simp add: DeleteQueue_unrouted)
qed

section \<open>Accounts\<close>

lemma mset_accounts_delete: "mset (GetAccounts (deleteUsername a u)) = mset (GetAccounts a) - {#u#}"
proof (cases "firstIndex (\<lambda>d. spUsername d = u) (credentials a)")
  case None
  then have "u \<notin> set (GetAccounts a)" by (auto simp: firstIndex_None GetAccounts_def)
  with None show ?thesis by (simp add: deleteUsername_def)
next
  case (Some i)
  note i = firstIndex_Some[OF Some]
  then have "credentials a ! i \<in># mset (credentials a)" by simp
  with i Some show ?thesis
    by (simp add: deleteUsername_def GetAccounts_def mset_swapRemove image_mset_Diff)
qed

lemma mset_accounts_add:
  "mset (GetAccounts (a\<lparr>credentials := credentials a @ [c]\<rparr>)) = add_mset (spUsername c) (mset (GetAccounts a))"
  by (simp add: GetAccounts_def)

text \<open>The usernames after each operation do not depend on the random bytes.\<close>

lemma accounts_CreateUser:
  assumes "key (toBytes p) buf (hashStrength a) 8 1 32 = Inr h"
  shows "mset (GetAccounts (snd (CreateUser key (Inr buf) a u p))) =
    (if u \<in># mset (GetAccounts a) then mset (GetAccounts a) else add_mset u (mset (GetAccounts a)))"
  using assms GetAccounts_iff[of u a] by (auto simp: CreateUser_def mset_accounts_add)

lemma accounts_ChangePassword:
  "mset (GetAccounts (snd (ChangePassword key rnd a u old new))) = mset (GetAccounts a)"
proof (cases "u \<in># mset (GetAccounts a)")
  case True
  then show ?thesis
    by (auto simp: ChangePassword_def Let_def mset_accounts_add mset_accounts_delete
        split: option.split sum.split)
next
  case False
  then have "getUserCredentials a u = None" using GetAccounts_iff[of u a] by simp
  then show ?thesis by (simp add: ChangePassword_def)
qed

lemma accounts_DeleteUser:
  "mset (GetAccounts (snd (authManager_DeleteUser a u))) =
    (if u \<in># mset (GetAccounts a) \<and> size (mset (GetAccounts a)) \<noteq> 1
     then mset (GetAccounts a) - {#u#} else mset (GetAccounts a))"
proof -
  have "size (mset (GetAccounts a)) = length (credentials a)" by (simp add: GetAccounts_def)
  moreover have "mset (GetAccounts (a\<lparr>sessions := sh\<rparr>)) = mset (GetAccounts a)" for sh
    by (simp add: GetAccounts_def)
  ultimately show ?thesis using GetAccounts_iff[of u a]
    by (auto simp: authManager_DeleteUser_def sessionHandler_DeleteUser_def mset_accounts_delete)
qed

text \<open>The cost parameter of the key derivation never changes.\<close>

lemma strength_ops:
  "hashStrength (snd (CreateUser key rnd a u p)) = hashStrength a"
  "hashStrength (snd (ChangePassword key rnd a u old new)) = hashStrength a"
  "hashStrength (snd (authManager_DeleteUser a u)) = hashStrength a"
proof -
  have "hashStrength (deleteUsername x u) = hashStrength x" for x by (simp add: deleteUsername_def split: option.split)
  then show "hashStrength (snd (CreateUser key rnd a u p)) = hashStrength a"
    "hashStrength (snd (ChangePassword key rnd a u old new)) = hashStrength a"
    "hashStrength (snd (authManager_DeleteUser a u)) = hashStrength a"
    by (simp_all add: CreateUser_def ChangePassword_def authManager_DeleteUser_def Let_def split: option.split sum.split prod.split)
qed

section \<open>Agreement of replicas\<close>

text \<open>
  Two replicas agree when they have the same queues (nodes and pointers included), routes and roles,
  and the same usernames; salts, hashes and sessions may differ. The cost parameter is the one that
  \<open>NewAuthManager\<close> sets.
\<close>

definition agree :: "syblineFSM \<Rightarrow> syblineFSM \<Rightarrow> bool" where
  "agree b b' \<longleftrightarrow> fBroker b = fBroker b' \<and> fRoles b = fRoles b' \<and>
     hashStrength (fAuth b) = 32768 \<and> hashStrength (fAuth b') = 32768 \<and>
     mset (GetAccounts (fAuth b)) = mset (GetAccounts (fAuth b'))"

text \<open>
  What the model relies on: map ranges visit every key once, every goroutine runs once, the random source
  does not fail, and the key derivation does not fail for the parameters that the code passes: a cost of
  32768, which is a power of two, and 8, 1 and 32.
\<close>

definition envOk :: "env \<Rightarrow> bool" where
  "envOk e \<longleftrightarrow>
     (\<forall>r. finite (dom r) \<longrightarrow> mapOrder (eOrder e r) r) \<and> (\<forall>ks. mset (eSched e ks) = mset ks) \<and>
     (\<exists>buf. eRnd e = Inr buf) \<and> (\<forall>pw salt. \<exists>h. eKey e pw salt 32768 8 1 32 = Inr h)"

abbreviation agreeOut :: "outcome \<Rightarrow> outcome \<Rightarrow> bool" where
  "agreeOut \<equiv> rel_option (\<lambda>(r, b) (r', b'). agree b b')"

lemma agree_checked:
  assumes "agree b b'" "\<And>p. agreeOut (k p) (k' p)"
  shows "agreeOut (checked b dec perm k) (checked b' dec perm k')"
  using assms by (auto simp: checked_def failed_def split: sum.split)

lemma agree_refl_bind:
  assumes "m = m'" "\<And>x. agreeOut (f x) (f' x)"
  shows "agreeOut (m \<bind> f) (m' \<bind> f')"
  using assms by (cases m) auto

lemma agree_finished:
  "agree b b' \<Longrightarrow> agreeOut (finished b e) (finished b' e')" "agree b b' \<Longrightarrow> agreeOut (failed b x) (failed b' x')"
  by (simp_all add: finished_def failed_def)

lemma agree_sets:
  assumes "agree b b'"
  shows "agree (b\<lparr>fBroker := br\<rparr>) (b'\<lparr>fBroker := br\<rparr>)" "agree (b\<lparr>fRoles := r\<rparr>) (b'\<lparr>fRoles := r\<rparr>)"
    "agree (setQm b m) (setQm b' m)"
    "mset (GetAccounts a) = mset (GetAccounts a') \<Longrightarrow> hashStrength a = hashStrength (fAuth b) \<Longrightarrow>
      hashStrength a' = hashStrength (fAuth b') \<Longrightarrow> agree (b\<lparr>fAuth := a\<rparr>) (b'\<lparr>fAuth := a'\<rparr>)"
  using assms by (simp_all add: agree_def setQm_def)

lemma batchAdd_schedule:
  assumes "\<And>ks. mset (eSched e ks) = mset (eSched e' ks)"
  shows "batchAdd e br errs ms = batchAdd e' br errs ms"
  by (induction ms arbitrary: br errs) (simp_all add: BatchAddMessage_schedule[OF assms])

text \<open>The commands for which replicas agree: all but the deletion of a queue with several routes.\<close>

definition replicable :: "codec \<Rightarrow> syblineFSM \<Rightarrow> CommandPayload \<Rightarrow> bool" where
  "replicable cd b p \<longleftrightarrow>
     (cpOp p = DELETE_QUEUE \<longrightarrow>
        (case decDeleteQueue cd (cpData p) of
           Inl err \<Rightarrow> True | Inr q \<Rightarrow> oneRoute (routing (fBroker b)) (dqQueueName q)))"

lemma agree_broker_ops:
  assumes ag: "agree b b'" and fin: "finite (dom (routing (fBroker b)))" and env: "envOk e" "envOk e'"
  shows "agreeOut (apply_CREATE_QUEUE cd b p) (apply_CREATE_QUEUE cd b' p)"
    "agreeOut (apply_SUBMIT_MESSAGE cd e b p) (apply_SUBMIT_MESSAGE cd e' b' p)"
    "agreeOut (apply_SUBMIT_BATCH_MESSAGE cd e b p) (apply_SUBMIT_BATCH_MESSAGE cd e' b' p)"
    "agreeOut (apply_ADD_ROUTING_KEY cd b p) (apply_ADD_ROUTING_KEY cd b' p)"
    "agreeOut (apply_DELETE_ROUTING_KEY cd e b p) (apply_DELETE_ROUTING_KEY cd e' b' p)"
proof -
  from ag have same: "fBroker b' = fBroker b" "fRoles b' = fRoles b" by (simp_all add: agree_def)
  from env have sched: "\<And>ks. mset (eSched e ks) = mset (eSched e' ks)" by (simp add: envOk_def)
  from env fin have order: "mapOrder (eOrder e (routing (fBroker b))) (routing (fBroker b))"
    "mapOrder (eOrder e' (routing (fBroker b))) (routing (fBroker b))" by (simp_all add: envOk_def)
  note put = agree_finished(1)[OF agree_sets(1)[OF ag]]
  show "agreeOut (apply_CREATE_QUEUE cd b p) (apply_CREATE_QUEUE cd b' p)"
    unfolding apply_defs same by (intro agree_checked ag) (simp add: put split: prod.split)
  show "agreeOut (apply_SUBMIT_MESSAGE cd e b p) (apply_SUBMIT_MESSAGE cd e' b' p)"
    unfolding apply_defs same
    by (intro agree_checked agree_refl_bind ag AddMessage_schedule sched) (simp add: put split: prod.split)
  show "agreeOut (apply_ADD_ROUTING_KEY cd b p) (apply_ADD_ROUTING_KEY cd b' p)"
    unfolding apply_defs same by (intro agree_checked ag) (simp add: put split: prod.split)
  show "agreeOut (apply_DELETE_ROUTING_KEY cd e b p) (apply_DELETE_ROUTING_KEY cd e' b' p)"
    unfolding apply_defs same
    by (intro agree_checked agree_refl_bind ag DeleteRoutingKey_order order) (simp add: put split: prod.split)
  have "agreeOut (batchAdd e (fBroker b) [] ms \<bind> (\<lambda>(errs, br). finished (b\<lparr>fBroker := br\<rparr>) (joinErrors errs)))
      (batchAdd e' (fBroker b) [] ms \<bind> (\<lambda>(errs, br). finished (b'\<lparr>fBroker := br\<rparr>) (joinErrors errs)))" for ms
    by (intro agree_refl_bind batchAdd_schedule sched) (simp add: put split: prod.split)
  then show "agreeOut (apply_SUBMIT_BATCH_MESSAGE cd e b p) (apply_SUBMIT_BATCH_MESSAGE cd e' b' p)"
    unfolding apply_defs same using agree_finished(2)[OF ag] by (simp split: sum.split option.split)
qed

lemma agree_DELETE_QUEUE:
  assumes ag: "agree b b'" and fin: "finite (dom (routing (fBroker b)))" and env: "envOk e" "envOk e'"
    and one: "replicable cd b p" "cpOp p = DELETE_QUEUE"
  shows "agreeOut (apply_DELETE_QUEUE cd e b p) (apply_DELETE_QUEUE cd e' b' p)"
proof (cases "decDeleteQueue cd (cpData p)")
  case (Inl err)
  then show ?thesis using agree_finished(2)[OF ag] by (simp add: apply_DELETE_QUEUE_def checked_def)
next
  case (Inr q)
  from ag have same: "fBroker b' = fBroker b" "fRoles b' = fRoles b" by (simp_all add: agree_def)
  from env fin have order: "mapOrder (eOrder e (routing (fBroker b))) (routing (fBroker b))"
    "mapOrder (eOrder e' (routing (fBroker b))) (routing (fBroker b))" by (simp_all add: envOk_def)
  from one Inr have "oneRoute (routing (fBroker b)) (dqQueueName q)" by (simp add: replicable_def)
  from DeleteQueue_order[OF order this]
  have d: "broker_DeleteQueue (eOrder e (routing (fBroker b))) (fBroker b) (dqQueueName q) =
      broker_DeleteQueue (eOrder e' (routing (fBroker b))) (fBroker b) (dqQueueName q)" .
  note put = agree_finished(1)[OF agree_sets(1)[OF ag]]
  show ?thesis unfolding apply_DELETE_QUEUE_def same checked_def Inr
    using agree_finished(2)[OF ag] put by (simp add: d split: sum.split prod.split)
qed

lemma agree_consumer_ops:
  assumes ag: "agree b b'"
  shows "agreeOut (apply_GET_MESSAGES cd b p) (apply_GET_MESSAGES cd b' p)"
    "agreeOut (apply_ACK cd b p) (apply_ACK cd b' p)" "agreeOut (apply_NACK cd b p) (apply_NACK cd b' p)"
    "agreeOut (apply_BATCH_ACK cd b p) (apply_BATCH_ACK cd b' p)"
    "agreeOut (apply_BATCH_NACK cd b p) (apply_BATCH_NACK cd b' p)"
proof -
  from ag have same: "fBroker b' = fBroker b" "fRoles b' = fRoles b" by (simp_all add: agree_def)
  note put = agree_finished(1)[OF agree_sets(3)[OF ag]]
  show "agreeOut (apply_GET_MESSAGES cd b p) (apply_GET_MESSAGES cd b' p)"
    unfolding apply_defs same
    by (intro agree_checked agree_refl_bind ag refl) (simp add: agree_sets(3)[OF ag] split: prod.split sum.split)
  show "agreeOut (apply_ACK cd b p) (apply_ACK cd b' p)" "agreeOut (apply_NACK cd b p) (apply_NACK cd b' p)"
    "agreeOut (apply_BATCH_ACK cd b p) (apply_BATCH_ACK cd b' p)"
    "agreeOut (apply_BATCH_NACK cd b p) (apply_BATCH_NACK cd b' p)"
    unfolding apply_defs same
    by (intro agree_checked agree_refl_bind ag refl; simp add: put split: prod.split)+
qed

lemma accounts_CreateUser_env:
  assumes "envOk x" "hashStrength a = 32768"
  shows "mset (GetAccounts (snd (CreateUser (eKey x) (eRnd x) a u pw))) =
      (if u \<in># mset (GetAccounts a) then mset (GetAccounts a) else add_mset u (mset (GetAccounts a)))"
proof -
  from assms obtain buf h where "eRnd x = Inr buf" "eKey x (toBytes pw) buf (hashStrength a) 8 1 32 = Inr h"
    unfolding envOk_def assms(2) by blast
  with accounts_CreateUser[of "eKey x" pw buf a h u] show ?thesis by simp
qed

lemma agree_CREATE_ACCOUNT:
  assumes ag: "agree b b'" and env: "envOk e" "envOk e'"
  shows "agreeOut (apply_CREATE_ACCOUNT cd e b p) (apply_CREATE_ACCOUNT cd e' b' p)"
proof -
  from ag have same: "fRoles b' = fRoles b"
    and cost: "hashStrength (fAuth b) = 32768" "hashStrength (fAuth b') = 32768"
    and acc: "mset (GetAccounts (fAuth b')) = mset (GetAccounts (fAuth b))" by (simp_all add: agree_def)
  have acct: "mset (GetAccounts (snd (CreateUser (eKey e) (eRnd e) (fAuth b) u pw))) =
      mset (GetAccounts (snd (CreateUser (eKey e') (eRnd e') (fAuth b') u pw)))" for u pw
    by (simp only: accounts_CreateUser_env[OF env(1) cost(1)] accounts_CreateUser_env[OF env(2) cost(2)] acc)
  show ?thesis unfolding apply_CREATE_ACCOUNT_def same
  proof (intro agree_checked ag)
    fix u :: UserCreds
    show "agreeOut (case CreateUser (eKey e) (eRnd e) (fAuth b) (ucUsername u) (ucPassword u) of
          (err, a) \<Rightarrow> finished (b\<lparr>fAuth := a\<rparr>) err)
        (case CreateUser (eKey e') (eRnd e') (fAuth b') (ucUsername u) (ucPassword u) of
          (err, a) \<Rightarrow> finished (b'\<lparr>fAuth := a\<rparr>) err)"
      using acct[of "ucUsername u" "ucPassword u"] strength_ops(1)[of "eKey e" "eRnd e" "fAuth b" "ucUsername u" "ucPassword u"]
        strength_ops(1)[of "eKey e'" "eRnd e'" "fAuth b'" "ucUsername u" "ucPassword u"]
      by (auto intro!: agree_finished agree_sets(4)[OF ag] split: prod.split)
  qed
qed

lemma agree_account_ops:
  assumes ag: "agree b b'"
  shows "agreeOut (apply_CHANGE_PASSWORD cd e b p) (apply_CHANGE_PASSWORD cd e' b' p)"
    "agreeOut (apply_DELETE_USER cd b p) (apply_DELETE_USER cd b' p)"
    "agreeOut (apply_CREATE_ROLE cd b p) (apply_CREATE_ROLE cd b' p)"
    "agreeOut (apply_ASSIGN_ROLE cd b p) (apply_ASSIGN_ROLE cd b' p)"
    "agreeOut (apply_UNASSIGN_ROLE cd b p) (apply_UNASSIGN_ROLE cd b' p)"
proof -
  from ag have same: "fBroker b' = fBroker b" "fRoles b' = fRoles b"
    and acc: "mset (GetAccounts (fAuth b')) = mset (GetAccounts (fAuth b))" by (simp_all add: agree_def)
  have ex: "UserExists (fAuth b') u = UserExists (fAuth b) u" for u
    using acc GetAccounts_iff[of u "fAuth b"] GetAccounts_iff[of u "fAuth b'"]
    by (metis UserExists_iff set_mset_mset)
  show "agreeOut (apply_CHANGE_PASSWORD cd e b p) (apply_CHANGE_PASSWORD cd e' b' p)"
    unfolding apply_defs same
  proof (intro agree_checked ag)
    fix u :: ChangeCredentials
    let ?x = "ChangePassword (eKey e) (eRnd e) (fAuth b) (ccUsername u) (ccOldPassword u) (ccNewPassword u)"
    let ?y = "ChangePassword (eKey e') (eRnd e') (fAuth b') (ccUsername u) (ccOldPassword u) (ccNewPassword u)"
    have "mset (GetAccounts (snd ?x)) = mset (GetAccounts (snd ?y))" by (simp add: accounts_ChangePassword acc)
    moreover have "hashStrength (snd ?x) = hashStrength (fAuth b)" "hashStrength (snd ?y) = hashStrength (fAuth b')"
      by (rule strength_ops)+
    ultimately show "agreeOut
        (case ?x of (Inl err, a) \<Rightarrow> Some (\<lparr>rData = Flag False, rErr = Some err\<rparr>, b\<lparr>fAuth := a\<rparr>)
          | (Inr data, a) \<Rightarrow> Some (\<lparr>rData = Flag data, rErr = None\<rparr>, b\<lparr>fAuth := a\<rparr>))
        (case ?y of (Inl err, a) \<Rightarrow> Some (\<lparr>rData = Flag False, rErr = Some err\<rparr>, b'\<lparr>fAuth := a\<rparr>)
          | (Inr data, a) \<Rightarrow> Some (\<lparr>rData = Flag data, rErr = None\<rparr>, b'\<lparr>fAuth := a\<rparr>))"
      by (cases ?x; cases ?y) (auto intro!: agree_sets(4)[OF ag] split: sum.split)
  qed
  show "agreeOut (apply_DELETE_USER cd b p) (apply_DELETE_USER cd b' p)"
    unfolding apply_defs same
  proof (intro agree_checked ag)
    fix u :: UserInformation
    have "mset (GetAccounts (snd (authManager_DeleteUser (fAuth b) (uiUsername u)))) =
        mset (GetAccounts (snd (authManager_DeleteUser (fAuth b') (uiUsername u))))"
      by (simp only: accounts_DeleteUser acc)
    then show "agreeOut (case authManager_DeleteUser (fAuth b) (uiUsername u) of
          (err, a) \<Rightarrow> finished (b\<lparr>fAuth := a\<rparr>) err)
        (case authManager_DeleteUser (fAuth b') (uiUsername u) of
          (err, a) \<Rightarrow> finished (b'\<lparr>fAuth := a\<rparr>) err)"
      using strength_ops(3)[of "fAuth b" "uiUsername u"] strength_ops(3)[of "fAuth b'" "uiUsername u"]
      by (auto intro!: agree_finished agree_sets(4)[OF ag] split: prod.split)
  qed
  note put = agree_finished(1)[OF agree_sets(2)[OF ag]] agree_finished(2)[OF ag]
  show "agreeOut (apply_CREATE_ROLE cd b p) (apply_CREATE_ROLE cd b' p)"
    "agreeOut (apply_ASSIGN_ROLE cd b p) (apply_ASSIGN_ROLE cd b' p)"
    "agreeOut (apply_UNASSIGN_ROLE cd b p) (apply_UNASSIGN_ROLE cd b' p)"
    unfolding apply_defs same ex by (intro agree_checked ag; simp add: put split: prod.split)+
qed

lemma dispatch_agree:
  assumes "agree b b'" "finite (dom (routing (fBroker b)))" "envOk e" "envOk e'" "replicable cd b p"
  shows "agreeOut (dispatch cd e b p) (dispatch cd e' b' p)"
  unfolding dispatch_def Let_def
  using agree_broker_ops[OF assms(1-4)] agree_DELETE_QUEUE[OF assms] agree_consumer_ops[OF assms(1)]
    agree_CREATE_ACCOUNT[OF assms(1,3,4)] agree_account_ops[OF assms(1)] agree_finished(2)[OF assms(1)]
  by simp

section \<open>Agreement along a log\<close>

text \<open>The routing map stays finite.\<close>

definition finRoutes :: "syblineFSM \<Rightarrow> bool" where
  "finRoutes b \<longleftrightarrow> finite (dom (routing (fBroker b)))"

abbreviation finBroker :: "broker \<Rightarrow> bool" where
  "finBroker br \<equiv> finite (dom (routing br))"

lemma finBroker_ops:
  assumes "finBroker br"
  shows "finBroker (snd (broker_CreateQueue br n k sz limit dlq))" "finBroker (snd (broker_AddRouteKey br k n))"
    "finBroker (snd (broker_DeleteQueue order br n))" "keeps finBroker (broker_DeleteRoutingKey order br k n)"
    "keeps finBroker (broker_AddMessage sched br k data i)"
    "keeps finBroker (broker_BatchAddMessage sched br k datas ids)"
proof -
  have add: "finBroker (addRoute x k n)" if "finBroker x" for x k n
    using that by (simp add: addRoute_def split: option.split)
  show "finBroker (snd (broker_CreateQueue br n k sz limit dlq))" "finBroker (snd (broker_AddRouteKey br k n))"
    using assms by (simp_all add: broker_CreateQueue_def broker_AddRouteKey_def add split: prod.split option.split)
  have "finBroker (snd (broker_DeleteQueue_loop order br n))"
    using assms by (induction order) (simp_all add: Let_def split: prod.split option.split)
  then show "finBroker (snd (broker_DeleteQueue order br n))" by (simp add: broker_DeleteQueue_def)
  show "keeps finBroker (broker_DeleteRoutingKey order br k n)"
    using assms by (auto simp: broker_DeleteRoutingKey_def keeps_def Let_def bind_Some_iff
        split: option.splits if_splits)
  show "keeps finBroker (broker_AddMessage sched br k data i)"
    "keeps finBroker (broker_BatchAddMessage sched br k datas ids)"
    using assms by (auto simp: broker_AddMessage_def broker_BatchAddMessage_def keeps_def bind_Some_iff
        split: option.splits if_splits)
qed

lemma finBroker_batchAdd: "finBroker br \<Longrightarrow> keeps finBroker (batchAdd e br errs ms)"
proof (induction ms arbitrary: br errs)
  case (Cons d ms)
  then show ?case by (auto intro!: keeps_bind[OF finBroker_ops(6)])
qed simp

lemma finRoutes_parts [simp]:
  "finRoutes (b\<lparr>fRoles := r\<rparr>) = finRoutes b" "finRoutes (b\<lparr>fAuth := a\<rparr>) = finRoutes b"
  "finRoutes (setQm b m) = finRoutes b" "finRoutes (b\<lparr>fBroker := br\<rparr>) = finBroker br"
  by (simp_all add: finRoutes_def setQm_def)

lemma dispatch_finRoutes:
  assumes "finRoutes b"
  shows "keeps finRoutes (dispatch cd e b p)"
proof -
  note fin = finBroker_ops[OF assms[unfolded finRoutes_def]]
  have 1: "keeps finRoutes (apply_CREATE_QUEUE cd b p)" "keeps finRoutes (apply_ADD_ROUTING_KEY cd b p)"
    "keeps finRoutes (apply_DELETE_QUEUE cd e b p)" unfolding apply_defs
    by (intro keeps_checked assms keeps_call[where I = finBroker, OF fin(1)]
        keeps_call[where I = finBroker, OF fin(2)] keeps_call[where I = finBroker, OF fin(3)]; simp)+
  have 2: "keeps finRoutes (apply_SUBMIT_MESSAGE cd e b p)" "keeps finRoutes (apply_DELETE_ROUTING_KEY cd e b p)"
    unfolding apply_defs by (intro keeps_checked assms keeps_bind[OF fin(4)] keeps_bind[OF fin(5)]; simp)+
  have "keeps finRoutes (batchAdd e (fBroker b) [] ms \<bind> (\<lambda>(errs, br). finished (b\<lparr>fBroker := br\<rparr>) (joinErrors errs)))" for ms
    by (rule keeps_bind[OF finBroker_batchAdd]) (use assms in \<open>simp_all add: finRoutes_def\<close>)
  then have 3: "keeps finRoutes (apply_SUBMIT_BATCH_MESSAGE cd e b p)"
    unfolding apply_defs using assms by (simp split: sum.split option.split)
  have 4: "keeps finRoutes (apply_ACK cd b p)" "keeps finRoutes (apply_NACK cd b p)"
    "keeps finRoutes (apply_BATCH_ACK cd b p)" "keeps finRoutes (apply_BATCH_NACK cd b p)"
    "keeps finRoutes (apply_GET_MESSAGES cd b p)" unfolding apply_defs
    by (intro keeps_checked assms keeps_bind[OF keeps_any]; simp add: assms split: sum.split)+
  have 5: "keeps finRoutes (apply_CREATE_ACCOUNT cd e b p)" "keeps finRoutes (apply_CHANGE_PASSWORD cd e b p)"
    "keeps finRoutes (apply_DELETE_USER cd b p)" "keeps finRoutes (apply_CREATE_ROLE cd b p)"
    "keeps finRoutes (apply_ASSIGN_ROLE cd b p)" "keeps finRoutes (apply_UNASSIGN_ROLE cd b p)"
    unfolding apply_defs by (intro keeps_checked assms; simp add: assms split: prod.split sum.split)+
  from 1 2 3 4 5 assms show ?thesis unfolding dispatch_def Let_def by simp
qed

text \<open>All commands of a run are ones that replicas agree on.\<close>

fun runReplicable :: "codec \<Rightarrow> (nat \<Rightarrow> env) \<Rightarrow> nat \<Rightarrow> syblineFSM \<Rightarrow> CommandPayload list \<Rightarrow> bool" where
  "runReplicable cd es i b [] = True"
| "runReplicable cd es i b (p # ps) \<longleftrightarrow>
     replicable cd b p \<and>
     (case dispatch cd (es i) b p of None \<Rightarrow> True | Some (res, b') \<Rightarrow> runReplicable cd es (Suc i) b' ps)"

lemma run_agree:
  assumes "agree b b'" "finRoutes b" "\<And>i. envOk (es i)" "\<And>i. envOk (es' i)" "runReplicable cd es i b ps"
  shows "rel_option agree (runCommands cd es i b ps) (runCommands cd es' i b' ps)"
  using assms(1,2,5)
proof (induction ps arbitrary: i b b')
  case (Cons p ps)
  have d: "agreeOut (dispatch cd (es i) b p) (dispatch cd (es' i) b' p)"
    using dispatch_agree[OF Cons.prems(1) _ assms(3)[of i] assms(4)[of i]] Cons.prems(2,3)
    by (simp add: finRoutes_def)
  show ?case
  proof (cases "dispatch cd (es i) b p")
    case None
    with d have "dispatch cd (es' i) b' p = None" by (simp add: option.rel_sel)
    with None show ?thesis by simp
  next
    case (Some x)
    obtain r b1 where x: "x = (r, b1)" by (cases x)
    with d Some obtain r' b1' where s: "dispatch cd (es' i) b' p = Some (r', b1')" "agree b1 b1'"
      by (auto simp: rel_option_Some_left)
    have "finRoutes b1" using keepsD[OF dispatch_finRoutes[OF Cons.prems(2)]] Some x by simp
    with Cons.IH[OF s(2)] Cons.prems(3) Some x s(1) show ?thesis by simp
  qed
qed simp

end
