(* ===== verification/BrokerProperties.thy ===== *)
theory BrokerProperties
  imports FsmReplicas QueueProperties
begin

text \<open>
  Properties of the queue manager and the broker: negative acknowledgement without a dead letter
  queue, delivery by routing key, routes, creation and deletion of queues.
\<close>

section \<open>Concrete managers and brokers\<close>

text \<open>A broker with one queue, made by the program's own operations.\<close>

definition oneQueue :: "string \<Rightarrow> string \<Rightarrow> bool \<Rightarrow> u32 \<Rightarrow> broker" where
  "oneQueue n k dlq limit = snd (broker_CreateQueue (NewBroker (NewQueueManager 100)) n k 5 limit dlq)"

lemma oneQueue_ok: "brokerOk (oneQueue n k dlq limit)"
  unfolding oneQueue_def by (intro broker_ok(1) brokerOk_new managed_new)

lemma oneQueue_content:
  assumes "n \<noteq> []" "k \<noteq> []"
  shows "content (manager (oneQueue n k dlq limit)) n (newAq 5 limit 100 (if dlq then PtrQueue 0 else PtrNil))"
proof -
  let ?c = "queueManager_CreateQueue (NewQueueManager 100) n 5 limit dlq"
  have c: "?c = (None, snd ?c)" using assms by (simp add: queueManager_CreateQueue_def NewQueueManager_def Let_def)
  have "manager (oneQueue n k dlq limit) = snd ?c"
    using assms(2) c by (cases ?c) (auto simp: oneQueue_def broker_CreateQueue_def NewBroker_def)
  with CreateQueue_content(1)[OF managed_new c] show ?thesis
    by (cases dlq) (simp_all add: NewQueueManager_def)
qed

lemma oneQueue_routing:
  assumes "n \<noteq> []" "k \<noteq> []"
  shows "routing (oneQueue n k dlq limit) = [k \<mapsto> [n]]" "queueManager_Exists (manager (oneQueue n k dlq limit)) n"
proof -
  show "queueManager_Exists (manager (oneQueue n k dlq limit)) n"
    using oneQueue_content[OF assms] by (auto simp: content_def queueManager_Exists_def)
  show "routing (oneQueue n k dlq limit) = [k \<mapsto> [n]]"
    using assms by (simp add: oneQueue_def broker_CreateQueue_def NewBroker_def addRoute_def
        queueManager_CreateQueue_def NewQueueManager_def Let_def)
qed

section \<open>Negative acknowledgement without a dead letter queue\<close>

text \<open>
  C12: A queue that was created without a dead letter queue cannot expire a message: at the fetch limit
  a negative acknowledgement by the consumer that holds the message does not return, because
  \<open>CreateQueue\<close> passes a pointer to a nil interface value and \<open>handleThresholdExpire\<close> calls it.
\<close>

theorem nack_at_limit_without_dlq_panics:
  assumes "managed m" "content m n q" "adl q = PtrNil"
    and "find (\<lambda>e. eid e = i) (items q) = Some e" "eowner e = c" "alimit q \<le> efetched e + 1"
  shows "queueManager_Nack m n c i = None"
proof -
  from assms(2) obtain k where "queues m n = Some k" by (auto simp: content_def)
  then obtain dl where d: "dlqContent m n dl" using managed_dlqContent[OF assms(1)] by blast
  have "aqNack q dl c i = None" using assms(3-6) by (simp add: aqNack_def aqDeadLetter_def)
  with Nack_panics[OF assms(2) d] show ?thesis by simp
qed

text \<open>Witness for C12: create, submit, fetch, give back with fetch limit 1.\<close>

theorem nack_at_limit_without_dlq_panics_witness:
  "\<exists>m1 m2 msgs. queueManager_AddMessage (manager (oneQueue ''q'' ''k'' False 1)) ''q'' [11] [1] = Some (None, m1) \<and>
     queueManager_GetMessage m1 ''q'' 1 [7] 50 = Some (Inr msgs, m2) \<and> queueManager_Nack m2 ''q'' [7] [1] = None"
proof -
  have ok: "managed (manager (oneQueue ''q'' ''k'' False 1))"
    using oneQueue_ok by (simp add: brokerOk_def)
  have c: "content (manager (oneQueue ''q'' ''k'' False 1)) ''q'' (newAq 5 1 100 PtrNil)"
    using oneQueue_content[of "''q''" "''k''" False 1] by simp
  from AddMessage_content[OF ok c, of "[11]" "[1]"] obtain m1 where
    m1: "queueManager_AddMessage (manager (oneQueue ''q'' ''k'' False 1)) ''q'' [11] [1] = Some (None, m1)"
      "managed m1" "content m1 ''q'' (aqEnqueue (newAq 5 1 100 PtrNil) [1] [11])" by blast
  from GetMessage_content[OF m1(2,3), of 1 "[7]" 50] obtain m2 msgs where
    m2: "queueManager_GetMessage m1 ''q'' 1 [7] 50 = Some (Inr msgs, m2)" "managed m2"
      "content m2 ''q'' (aqDequeue (aqEnqueue (newAq 5 1 100 PtrNil) [1] [11]) 1 [7] 50)" by blast
  have "queueManager_Nack m2 ''q'' [7] [1] = None"
    by (rule nack_at_limit_without_dlq_panics[OF m2(2,3),
          where e = "(newEntry [1] [11])\<lparr>eowner := [7], etime := 50\<rparr>"])
      (simp_all add: aq_defs grab.simps entryFree_def available_def lockEntry_def)
  with m1(1) m2(1) show ?thesis by blast
qed

section \<open>Delivery\<close>

text \<open>
  C13: Delivery. A message with data, sent with a routing key that has queues, returns no error, keeps
  the broker well-formed, and puts the message into every queue of the key, once per occurrence of
  its name, as long as the queue is not full; all other queues keep their content. This holds for
  every order in which the goroutines run.
\<close>

theorem message_reaches_routed_queues:
  assumes "brokerOk b" "routing b k = Some ks" "data \<noteq> []" "mset (sched ks) = mset ks"
  shows "\<exists>b'. broker_AddMessage sched b k data i = Some (None, b') \<and> routing b' = routing b \<and>
    managed (manager b') \<and>
    (\<forall>n q. content (manager b) n q \<longrightarrow>
       content (manager b') n (((\<lambda>q. aqEnqueue q i data) ^^ count_list ks n) q))"
proof -
  have m: "managed (manager b)" using assms(1) by (simp add: brokerOk_def)
  have cnt: "count_list (sched ks) n = count_list ks n" for n
    using assms(4) by (metis count_mset)
  from single.fanOut_delivers[OF m, of data i "sched ks"] assms(2,3) show ?thesis
    by (auto simp: broker_AddMessage_def cnt)
qed

theorem message_reaches_routed_queues_witness:
  "\<exists>b'. broker_AddMessage rev (oneQueue ''q'' ''k'' False 3) ''k'' [11] [1] = Some (None, b') \<and>
     content (manager b') ''q'' (aqEnqueue (newAq 5 3 100 PtrNil) [1] [11])"
proof -
  have r: "routing (oneQueue ''q'' ''k'' False 3) ''k'' = Some [''q'']" by (simp add: oneQueue_routing)
  from message_reaches_routed_queues[OF oneQueue_ok r, of "[11]" rev "[1]"]
    oneQueue_content[of "''q''" "''k''" False 3] show ?thesis by fastforce
qed

text \<open>
  The order of the goroutines does not matter: any two schedules of the same calls give the same
  result and the same broker, node by node.
\<close>

theorem goroutine_order_irrelevant:
  assumes "\<And>ks. mset (s ks) = mset (s' ks)"
  shows "broker_AddMessage s b k data i = broker_AddMessage s' b k data i \<and>
    broker_BatchAddMessage s b k datas ids = broker_BatchAddMessage s' b k datas ids"
  using AddMessage_schedule[OF assms] BatchAddMessage_schedule[OF assms] by auto

theorem goroutine_order_irrelevant_witness:
  "broker_AddMessage rev (oneQueue ''q'' ''k'' False 3) ''k'' [11] [1] =
     broker_AddMessage id (oneQueue ''q'' ''k'' False 3) ''k'' [11] [1]"
  using goroutine_order_irrelevant[of rev id "oneQueue ''q'' ''k'' False 3" "''k''" "[11]" "[1]" "[]" "[]"] by simp

section \<open>Routes\<close>

text \<open>
  C14: The invariant of the broker: well-formed queues, no two names for one queue object, dead letter
  pointers to existing queues, and sorted routes. Creating and deleting queues and routes, submitting single
  messages and batches, fetching, acknowledging and giving back messages keep it.
\<close>

theorem broker_invariant:
  assumes "brokerOk b"
  shows "brokerOk (snd (broker_CreateQueue b n k sz limit dlq)) \<and> brokerOk (snd (broker_AddRouteKey b k n)) \<and>
    brokerOk (snd (broker_DeleteQueue order b n)) \<and> keeps brokerOk (broker_DeleteRoutingKey order b k n) \<and>
    keeps brokerOk (broker_AddMessage sched b k data i) \<and>
    keeps brokerOk (broker_BatchAddMessage sched b k datas ids) \<and>
    keeps (\<lambda>m. brokerOk (b\<lparr>manager := m\<rparr>)) (consumerManager_GetMessages (manager b) n amt c now) \<and>
    keeps (\<lambda>m. brokerOk (b\<lparr>manager := m\<rparr>)) (consumerManager_Ack (manager b) n i c) \<and>
    keeps (\<lambda>m. brokerOk (b\<lparr>manager := m\<rparr>)) (consumerManager_Nack (manager b) n i c)"
proof -
  have m: "managed (manager b)" "brokerOk (b\<lparr>manager := m\<rparr>) \<longleftrightarrow> managed m" for m using assms by (simp_all add: brokerOk_def)
  note queue = managed_GetMessage[OF m(1)] managed_Ack[OF m(1)] managed_Nack[OF m(1)]
  have "keeps managed (consumerManager_GetMessages (manager b) n amt c now)"
    by (simp add: consumerManager_GetMessages_def queue(1) m(1))
  with queue show ?thesis
    using broker_ok[OF assms] brokerOk_AddMessage[OF assms] brokerOk_BatchAddMessage[OF assms]
    by (simp add: keeps_def m(2) consumerManager_Ack_def consumerManager_Nack_def)
qed

theorem broker_invariant_witness:
  "brokerOk (snd (broker_AddRouteKey (oneQueue ''q'' ''k'' True 3) ''a'' ''q''))"
  using broker_invariant[OF oneQueue_ok, where n = "''q''" and k = "''a''"] by blast

text \<open>
  C15: A queue never loses its last route by \<open>DeleteRoutingKey\<close>: whatever it returns, every queue that
  was routed before is routed after it.
\<close>

theorem delete_routing_key_keeps_routed:
  assumes "mapOrder order (routing b)" "broker_DeleteRoutingKey order b k n = Some (e, b')" "routed b n'"
  shows "routed b' n'"
  using DeleteRoutingKey_routed[OF assms] .

text \<open>Witness for C15: the queue has two routes, one of them is removed.\<close>

definition twoRoutes :: broker where
  "twoRoutes = snd (broker_AddRouteKey (oneQueue ''q'' ''k'' False 3) ''a'' ''q'')"

lemma twoRoutes_facts:
  "routing twoRoutes = [''k'' \<mapsto> [''q''], ''a'' \<mapsto> [''q'']]" "queueManager_Exists (manager twoRoutes) ''q''"
  "manager twoRoutes = manager (oneQueue ''q'' ''k'' False 3)"
  using oneQueue_routing[of "''q''" "''k''" False 3]
  by (simp_all add: twoRoutes_def broker_AddRouteKey_def addRoute_def)

lemma twoRoutes_order: "mapOrder [''k'', ''a''] (routing twoRoutes)" "mapOrder [''a'', ''k''] (routing twoRoutes)"
  by (auto simp: mapOrder_def twoRoutes_facts(1))

theorem delete_routing_key_keeps_routed_witness:
  "\<exists>b'. broker_DeleteRoutingKey [''k'', ''a''] twoRoutes ''k'' ''q'' = Some (None, b') \<and> routed b' ''q''"
proof -
  have "broker_DeleteRoutingKey [''k'', ''a''] twoRoutes ''k'' ''q'' =
      Some (None, twoRoutes\<lparr>routing := (routing twoRoutes)(''k'' \<mapsto> [])\<rparr>)"
    by (simp add: broker_DeleteRoutingKey_def twoRoutes_facts(1,2) routeOf_def indexFunc_def cutAt_def)
  moreover have "routed twoRoutes ''q''" by (rule routedI[of _ "''k''" "[''q'']"]) (simp_all add: twoRoutes_facts(1))
  ultimately show ?thesis using delete_routing_key_keeps_routed[OF twoRoutes_order(1)] by blast
qed

text \<open>
  \<open>DeleteRoutingKey\<close> panics on a wrong key: when the queue exists, the key exists but does not have
  the queue, and the queue is not under exactly one other key, the call does not return; the index
  \<open>-1\<close> is used as a slice bound.
\<close>

theorem delete_routing_key_panics:
  assumes "k \<noteq> []" "n \<noteq> []" "queueManager_Exists (manager b) n" "routing b k = Some ks" "n \<notin> set ks"
    and "countRoutes order (routing b) n 0 \<noteq> 1"
  shows "broker_DeleteRoutingKey order b k n = None"
proof -
  have "cutAt ks (indexFunc ks (\<lambda>c. c = n)) = None" using assms(5) by (auto simp: cutAt_indexFunc)
  with assms show ?thesis by (simp add: broker_DeleteRoutingKey_def)
qed

text \<open>Witness: another queue's key, with a queue that has two routes.\<close>

theorem delete_routing_key_panics_witness:
  "broker_DeleteRoutingKey [''k'', ''a'', ''z''] (twoRoutes\<lparr>routing := (routing twoRoutes)(''z'' \<mapsto> [''p''])\<rparr>) ''z'' ''q'' = None"
  by (rule delete_routing_key_panics[where ks = "[''p'']"]) (simp_all add: twoRoutes_facts(1,2) routeOf_def)

section \<open>Creation and deletion\<close>

text \<open>
  Deleting a queue leaves its other routes behind, and they deliver again. When a queue with two
  routes is deleted and a queue with the same name is created under a new key, a message sent with
  one of the old keys goes to the new queue.
\<close>

theorem stale_route_delivers:
  assumes ok: "brokerOk b" and ord: "mapOrder order (routing b)" and ex: "queueManager_Exists (manager b) n"
    and two: "n \<in> set (routeOf (routing b) k1)" "n \<in> set (routeOf (routing b) k2)" "k1 \<noteq> k2"
    and new: "n \<noteq> []" "k \<noteq> []" "k \<noteq> k1" "k \<noteq> k2" "sz \<noteq> 0" "data \<noteq> []"
  shows "\<exists>b1 b2 b3 k' dl. broker_DeleteQueue order b n = (None, b1) \<and> \<not> queueManager_Exists (manager b1) n \<and>
    broker_CreateQueue b1 n k sz limit dlq = (None, b2) \<and> k' \<in> {k1, k2} \<and>
    broker_AddMessage id b2 k' data i = Some (None, b3) \<and>
    (\<exists>j. content (manager b3) n (((\<lambda>q. aqEnqueue q i data) ^^ Suc j) (newAq sz limit (managerTTL (manager b)) dl)))"
proof -
  have rt: "routed b n" using two(1) by (auto simp: routed_def)
  from DeleteQueue_one_route[OF ord ex rt] obtain kd ks where kd: "routing b kd = Some ks" "n \<in> set ks"
    and del: "broker_DeleteQueue order b n = (None, b\<lparr>manager := (manager b)\<lparr>queues := (queues (manager b))(n := None)\<rparr>,
              routing := (routing b)(kd \<mapsto> removeFirst (\<lambda>v. v = n) ks)\<rparr>)" (is "_ = (None, ?b1)") by blast
  obtain k' where k': "k' \<in> {k1, k2}" "k' \<noteq> kd" using two(3) by auto
  then have old: "n \<in> set (routeOf (routing ?b1) k')" "k' \<noteq> k" using two(1,2) new(3,4) by auto
  have ok1: "brokerOk ?b1" using broker_ok(3)[OF ok, of order n] del by simp
  let ?c = "queueManager_CreateQueue (manager ?b1) n sz limit dlq"
  have c: "?c = (None, snd ?c)" using new(1,5) by (simp add: queueManager_CreateQueue_def Let_def)
  let ?b2 = "addRoute (?b1\<lparr>manager := snd ?c\<rparr>) k n"
  have cr: "broker_CreateQueue ?b1 n k sz limit dlq = (None, ?b2)"
    unfolding broker_CreateQueue_def by (subst c) (use new(2) in simp)
  have ok2: "brokerOk ?b2" using broker_ok(1)[OF ok1, of n k sz limit dlq] cr by simp
  have r2: "n \<in> set (routeOf (routing ?b2) k')" using old by (auto simp: addRoute_def routeOf_def split: option.splits)
  then obtain ks' where ks': "routing ?b2 k' = Some ks'" "n \<in> set ks'" by (rule routeOfE)
  from CreateQueue_content(1)[OF _ c] ok1 obtain dl where
    ct: "content (manager ?b2) n (newAq sz limit (managerTTL (manager b)) dl)" by (auto simp: brokerOk_def)
  have m2: "managed (manager ?b2)" using ok2 by (simp add: brokerOk_def)
  from single.fanOut_delivers[OF m2, of data i ks'] ks'(1) new(6) obtain b3 where
    b3: "broker_AddMessage id ?b2 k' data i = Some (None, b3)"
      "content (manager b3) n (((\<lambda>q. aqEnqueue q i data) ^^ count_list ks' n) (newAq sz limit (managerTTL (manager b)) dl))"
    using ct by (auto simp: broker_AddMessage_def)
  obtain j where "count_list ks' n = Suc j" using ks'(2) by (metis count_list_0_iff not0_implies_Suc)
  with del cr b3 k'(1) show ?thesis by (fastforce simp: queueManager_Exists_def)
qed


theorem stale_route_delivers_witness:
  "\<exists>b1 b2 b3 k' dl. broker_DeleteQueue [''k'', ''a''] twoRoutes ''q'' = (None, b1) \<and>
    \<not> queueManager_Exists (manager b1) ''q'' \<and> broker_CreateQueue b1 ''q'' ''new'' 5 3 False = (None, b2) \<and>
    k' \<in> {''k'', ''a''} \<and> broker_AddMessage id b2 k' [11] [1] = Some (None, b3) \<and>
    (\<exists>j. content (manager b3) ''q''
       (((\<lambda>q. aqEnqueue q [1] [11]) ^^ Suc j) (newAq 5 3 (managerTTL (manager twoRoutes)) dl)))"
proof -
  have "brokerOk twoRoutes" unfolding twoRoutes_def by (rule broker_ok(2)[OF oneQueue_ok])
  then show ?thesis
    by (rule stale_route_delivers[OF _ twoRoutes_order(1)]) (simp_all add: twoRoutes_facts(1,2) routeOf_def)
qed

text \<open>
  Replicas diverge on the deletion of a queue with two routes. Which route loses the name depends
  on the order in which the map is visited, so two replicas that visit it in different orders end with
  different routes.
\<close>

theorem delete_queue_order_dependent:
  assumes ord: "mapOrder (k1 # o1) (routing b)" "mapOrder (k2 # o2) (routing b)"
    and ex: "queueManager_Exists (manager b) n"
    and two: "routing b k1 = Some ks1" "n \<in> set ks1" "routing b k2 = Some ks2" "n \<in> set ks2" "k1 \<noteq> k2"
  shows "routing (snd (broker_DeleteQueue (k1 # o1) b n)) \<noteq> routing (snd (broker_DeleteQueue (k2 # o2) b n))"
proof -
  obtain y where y: "queues (manager b) n = Some y" using ex by (auto simp: queueManager_Exists_def)
  have "routing (snd (broker_DeleteQueue (k1 # o1) b n)) k1 = Some (removeFirst (\<lambda>v. v = n) ks1)"
    using y two(1,2) by (simp add: broker_DeleteQueue_def cutAt_indexFunc queueManager_Delete_def)
  moreover have "routing (snd (broker_DeleteQueue (k2 # o2) b n)) k1 = Some ks1"
    using y two by (simp add: broker_DeleteQueue_def cutAt_indexFunc queueManager_Delete_def)
  moreover have "removeFirst (\<lambda>v. v = n) ks1 \<noteq> ks1"
    using length_removeFirst[of ks1 "\<lambda>v. v = n"] two(2) by (metis n_not_Suc_n)
  ultimately show ?thesis by auto
qed

theorem delete_queue_order_dependent_witness:
  "routing (snd (broker_DeleteQueue [''k'', ''a''] twoRoutes ''q'')) \<noteq>
   routing (snd (broker_DeleteQueue [''a'', ''k''] twoRoutes ''q''))"
  by (rule delete_queue_order_dependent[where ?ks1.0 = "[''q'']" and ?ks2.0 = "[''q'']",
        OF twoRoutes_order twoRoutes_facts(2)]) (simp_all add: twoRoutes_facts(1))

text \<open>
  Creating a queue with a dead letter queue replaces a queue that already has the derived name: its
  messages can no longer be fetched, the name now stands for an empty queue. All queues with other
  names keep their content.
\<close>

theorem create_with_dlq_replaces_queue:
  assumes "managed m" "queues m n = None" "n \<noteq> []" "sz \<noteq> 0" "content m (n @ ''-dlq'') q"
  shows "\<exists>m'. queueManager_CreateQueue m n sz limit True = (None, m') \<and> managed m' \<and>
    content m' (n @ ''-dlq'') (newAq sz limit (managerTTL m) NilPtr) \<and>
    (\<forall>n' q'. n' \<noteq> n \<longrightarrow> n' \<noteq> n @ ''-dlq'' \<longrightarrow> content m n' q' \<longrightarrow> content m' n' q')"
proof -
  obtain m' where c: "queueManager_CreateQueue m n sz limit True = (None, m')"
    using assms(2-4) by (simp add: queueManager_CreateQueue_def Let_def)
  with CreateQueue_managed[OF assms(1), of n sz limit True] have "managed m'" by simp
  with c CreateQueue_content(2,4)[OF assms(1) c] show ?thesis by auto
qed

text \<open>Witness: the replaced queue holds a message.\<close>

theorem create_with_dlq_replaces_queue_witness:
  "\<exists>m m'. content m (''q'' @ ''-dlq'') (aqEnqueue (newAq 5 3 100 PtrNil) [1] [11]) \<and>
     queueManager_CreateQueue m ''q'' 5 3 True = (None, m') \<and>
     content m' (''q'' @ ''-dlq'') (newAq 5 3 100 NilPtr)"
proof -
  let ?m = "manager (oneQueue (''q'' @ ''-dlq'') ''k'' False 3)"
  have ok: "managed ?m" using oneQueue_ok by (simp add: brokerOk_def)
  have ct: "content ?m (''q'' @ ''-dlq'') (newAq 5 3 100 PtrNil)"
    using oneQueue_content[of "''q'' @ ''-dlq''" "''k''" False 3] by simp
  have ttl: "managerTTL ?m = 100" "queues ?m ''q'' = None"
    by (simp_all add: oneQueue_def broker_CreateQueue_def NewBroker_def queueManager_CreateQueue_def
        NewQueueManager_def)
  from AddMessage_content[OF ok ct, of "[11]" "[1]"] obtain m where
    m: "queueManager_AddMessage ?m (''q'' @ ''-dlq'') [11] [1] = Some (None, m)" "managed m"
      "content m (''q'' @ ''-dlq'') (aqEnqueue (newAq 5 3 100 PtrNil) [1] [11])" "others {''q'' @ ''-dlq''} ?m m"
    by blast
  have "managerTTL m = 100" using m(1) ttl(1)
    by (auto simp: queueManager_AddMessage_def bind_Some_iff split: option.splits)
  moreover have "queues m ''q'' = None" using m(4) ttl(2) by (simp add: others_def)
  ultimately show ?thesis
    using create_with_dlq_replaces_queue[OF m(2) _ _ _ m(3), of 5 3] m(3) by fastforce
qed

end
