(* ===== verification/RbacProperties.thy ===== *)
theory RbacProperties
  imports RbacInv
begin

text \<open>
  The properties of roles and permissions: how the roles of a user decide, what a permission string and a
  role definition mean, and how roles are deleted.
\<close>

section \<open>The order of a role definition\<close>

text \<open>
  What one entry of a role definition appends to the admin permissions, and whether it is accepted; both
  are independent of the role built so far.
\<close>

definition adminOf :: "string \<times> json \<Rightarrow> AdminPermission list" where
  "adminOf entry =
     (case snd entry of
        JString perm \<Rightarrow>
          (case CreateRole_action (emptyRole [] []) (fst entry) perm of Inl _ \<Rightarrow> [] | Inr rol \<Rightarrow> AdminPermissions rol)
      | _ \<Rightarrow> [])"

definition accepted :: "string \<times> json \<Rightarrow> bool" where
  "accepted entry \<longleftrightarrow>
     (case snd entry of JString perm \<Rightarrow> \<not> isl (CreateRole_action (emptyRole [] []) (fst entry) perm) | _ \<Rightarrow> False)"

text \<open>The map of an action after a role definition: the last entry for the action decides.\<close>

definition permOf :: "string \<Rightarrow> permMap \<Rightarrow> (string \<times> json) list \<Rightarrow> permMap" where
  "permOf action m entries =
     (case map_of entries action of Some (JString perm) \<Rightarrow> projr (parsePermissions perm) | _ \<Rightarrow> m)"

lemma CreateRole_action_isl:
  "isl (CreateRole_action rol a p) = isl (CreateRole_action rol' a p)"
  by (simp add: CreateRole_action_def addAdmin_def setPerm_def split: sum.split)

lemma CreateRole_action_fields:
  assumes "CreateRole_action rol a p = Inr r"
  shows "Name r = Name rol" "RawJSON r = RawJSON rol"
    "GetMessages r = (if a = ''GetMessages'' then projr (parsePermissions p) else GetMessages rol)"
    "SubmitMessage r = (if a = ''SubmitMessage'' then projr (parsePermissions p) else SubmitMessage rol)"
    "SubmitBatchedMessages r =
       (if a = ''SubmitBatchedMessages'' then projr (parsePermissions p) else SubmitBatchedMessages rol)"
    "AckPerm r = (if a = ''Ack'' then projr (parsePermissions p) else AckPerm rol)"
    "BatchAckPerm r = (if a = ''BatchAck'' then projr (parsePermissions p) else BatchAckPerm rol)"
    "AdminPermissions r = AdminPermissions rol @ adminOf (a, JString p)"
  using assms
  by (simp_all add: CreateRole_action_def addAdmin_def setPerm_def adminOf_def emptyRole_def
      split: if_splits sum.splits) auto

lemma CreateRole_loop_ok:
  "\<not> isl (CreateRole_loop rol entries) \<longleftrightarrow> (\<forall>x\<in>set entries. accepted x)"
proof (induction rol entries rule: CreateRole_loop.induct)
  case (2 rol a j entries)
  show ?case
  proof (cases j)
    case (JString p)
    have "accepted (a, JString p) \<longleftrightarrow> \<not> isl (CreateRole_action rol a p)"
      using CreateRole_action_isl[of rol a p "emptyRole [] []"] by (simp add: accepted_def)
    then show ?thesis using 2[OF JString] JString by (cases "CreateRole_action rol a p") auto
  qed (auto simp: accepted_def)
qed simp

lemma CreateRole_loop_fields:
  assumes "CreateRole_loop rol entries = Inr r" "distinct (map fst entries)"
  shows "Name r = Name rol \<and> RawJSON r = RawJSON rol \<and>
    GetMessages r = permOf ''GetMessages'' (GetMessages rol) entries \<and>
    SubmitMessage r = permOf ''SubmitMessage'' (SubmitMessage rol) entries \<and>
    SubmitBatchedMessages r = permOf ''SubmitBatchedMessages'' (SubmitBatchedMessages rol) entries \<and>
    AckPerm r = permOf ''Ack'' (AckPerm rol) entries \<and>
    BatchAckPerm r = permOf ''BatchAck'' (BatchAckPerm rol) entries \<and>
    AdminPermissions r = AdminPermissions rol @ concat (map adminOf entries)"
  using assms
proof (induction rol entries rule: CreateRole_loop.induct)
  case (1 rol)
  then show ?case by (simp add: permOf_def)
next
  case (2 rol a j entries)
  then obtain p where p: "j = JString p" by (cases j) simp_all
  with "2.prems"(1) obtain rol' where j: "j = JString p" "CreateRole_action rol a p = Inr rol'"
      "CreateRole_loop rol' entries = Inr r"
    by (cases "CreateRole_action rol a p") simp_all
  have step: "permOf x (if a = x then projr (parsePermissions p) else m) entries = permOf x m ((a, j) # entries)" for x m
  proof (cases "a = x")
    case True
    with "2.prems"(2) have "map_of entries x = None" by (auto simp: map_of_eq_None_iff image_iff)
    with True j(1) show ?thesis by (simp add: permOf_def)
  qed (simp add: permOf_def)
  from "2.IH"[OF j] "2.prems"(2) CreateRole_action_fields[OF j(2)] show ?case
    by (simp add: j(1) flip: step[unfolded j(1)])
qed

lemma CreateRole_loop_order:
  assumes "CreateRole_loop rol entries = Inr r" "distinct (map fst entries)" "mset entries' = mset entries"
  shows "\<exists>r'. CreateRole_loop rol entries' = Inr r' \<and> mset (AdminPermissions r') = mset (AdminPermissions r) \<and>
    r' = r\<lparr>AdminPermissions := AdminPermissions r'\<rparr>"
proof -
  have st: "set entries' = set entries" using assms(3) by (rule mset_eq_setD)
  have "mset (map fst entries') = mset (map fst entries)" using assms(3) by (metis mset_map)
  then have d: "distinct (map fst entries')" using assms(2) by (metis mset_eq_imp_distinct_iff)
  have mo: "map_of entries' = map_of entries" using st assms(2) d by (metis map_of_inject_set)
  have "\<not> isl (CreateRole_loop rol entries')" using CreateRole_loop_ok[of rol] assms(1) st by (metis sum.disc(2))
  then obtain r' where r': "CreateRole_loop rol entries' = Inr r'" by (cases "CreateRole_loop rol entries'") auto
  have "mset (concat (map adminOf xs)) = (\<Sum>x\<in>#mset xs. mset (adminOf x))" for xs
    by (induction xs) simp_all
  then have "mset (concat (map adminOf entries')) = mset (concat (map adminOf entries))" using assms(3) by simp
  with CreateRole_loop_fields[OF assms(1,2)] CreateRole_loop_fields[OF r' d] r' show ?thesis
    by (simp add: permOf_def mo)
qed

section \<open>Properties\<close>

text \<open>
  C16: A user may do an admin action exactly when one of the roles of the user allows it and no role
  denies it. The deny constant is the one after the allow constant. A user without roles is refused with
  an error.
\<close>

theorem admin_permission_iff:
  "HasAdminPermission r u p = Inr True \<longleftrightarrow>
     (\<exists>rs. users r u = Some rs \<and> (\<forall>rol\<in>set rs. p + 1 \<notin> set (AdminPermissions rol)) \<and>
           (\<exists>rol\<in>set rs. p \<in> set (AdminPermissions rol)))"
  by (rule HasAdminPermission_iff)

text \<open>Users with built-in roles: a root user who is also denied, an administrator and a consumer.\<close>

definition demoRoles :: roleManager where
  "demoRoles = NewRoleManager\<lparr>users :=
     [''root'' \<mapsto> [roleROOT], ''bad'' \<mapsto> [roleROOT, roleDENY], ''eve'' \<mapsto> [roleCONSUMER]]\<rparr>"

theorem admin_permission_iff_witness:
  "HasAdminPermission demoRoles ''root'' ALLOW_CREATE_QUEUE = Inr True \<and>
   HasAdminPermission demoRoles ''bad'' ALLOW_CREATE_QUEUE \<noteq> Inr True \<and>
   HasAdminPermission demoRoles ''eve'' ALLOW_CREATE_QUEUE \<noteq> Inr True"
  unfolding admin_permission_iff
  by (simp add: demoRoles_def roleROOT_def roleDENY_def roleCONSUMER_def allAdmin_def denyAdmin_def)

lemma actionMap_ack: "actionMap (rol\<lparr>AckPerm := m\<rparr>) ACK_ACTION = Some m"
  by (simp add: actionMap_def)

text \<open>
  C17: A user may do a message action on an entity exactly when one role allows it and no role denies it,
  where the wildcard entry of a role decides before its entry for the entity. So, against the documentation,
  which says that denies take precedence, a deny of the entity is without effect in a role that allows
  everything: a user with only such a role may do the action.
\<close>

theorem message_permission_iff:
  "(HasPermission r u entity p = Inr True \<longleftrightarrow>
     (\<exists>rs. users r u = Some rs \<and> (\<forall>rol\<in>set rs. roleVerdict rol entity p \<noteq> Some False) \<and>
           (\<exists>rol\<in>set rs. roleVerdict rol entity p = Some True))) \<and>
   (\<forall>rol m. users r u = Some [rol] \<and> actionMap rol p = Some m \<and> m ALL_ENTITIES = Some True \<and> m entity = Some False \<longrightarrow>
     HasPermission r u entity p = Inr True)"
  by (auto simp: HasPermission_iff roleVerdict_def)

text \<open>Witness for C17: three users of the demonstration, and a role whose permission string the parser accepts.\<close>

theorem message_permission_iff_witness:
  "HasPermission demoRoles ''eve'' ''q'' GET_MESSAGES_ACTION = Inr True \<and>
   HasPermission demoRoles ''eve'' ''q'' SUBMIT_MESSAGE_ACTION \<noteq> Inr True \<and>
   HasPermission demoRoles ''bad'' ''q'' GET_MESSAGES_ACTION \<noteq> Inr True \<and>
   (\<exists>m. parsePermissions ''allow:*,deny:q'' = Inr m \<and>
     HasPermission (NewRoleManager\<lparr>users := [''u'' \<mapsto> [(emptyRole ''r'' [])\<lparr>AckPerm := m\<rparr>]]\<rparr>) ''u'' ''q'' ACK_ACTION = Inr True)"
proof (intro conjI)
  show "HasPermission demoRoles ''eve'' ''q'' GET_MESSAGES_ACTION = Inr True"
    "HasPermission demoRoles ''eve'' ''q'' SUBMIT_MESSAGE_ACTION \<noteq> Inr True"
    "HasPermission demoRoles ''bad'' ''q'' GET_MESSAGES_ACTION \<noteq> Inr True"
    unfolding message_permission_iff[THEN conjunct1]
    by (simp_all add: demoRoles_def roleROOT_def roleDENY_def roleCONSUMER_def roleVerdict_def actionMap_def
        anyAllow_def anyDeny_def)
  let ?m = "[''*'' \<mapsto> True, ''q'' \<mapsto> False] :: string \<rightharpoonup> bool"
  let ?r = "NewRoleManager\<lparr>users := [''u'' \<mapsto> [(emptyRole ''r'' [])\<lparr>AckPerm := ?m\<rparr>]]\<rparr>"
  have "parsePermissions ''allow:*,deny:q'' = Inr ?m" by (simp add: parsePermissions_def Let_def)
  moreover have "HasPermission ?r ''u'' ''q'' ACK_ACTION = Inr True"
    using message_permission_iff[of ?r "''u''" "''q''" ACK_ACTION, THEN conjunct2] by (auto simp: actionMap_ack)
  ultimately show "\<exists>m. parsePermissions ''allow:*,deny:q'' = Inr m \<and>
      HasPermission (NewRoleManager\<lparr>users := [''u'' \<mapsto> [(emptyRole ''r'' [])\<lparr>AckPerm := m\<rparr>]]\<rparr>) ''u'' ''q'' ACK_ACTION = Inr True"
    by blast
qed

text \<open>
  C18: A permission string that lists verdicts for entities (no commas or colons in their names) is
  parsed to the map of those verdicts, where the last entry for an entity wins.
\<close>

theorem permission_string_roundtrip:
  assumes "ps \<noteq> []" "\<forall>p\<in>set ps. plainEntity (fst p)"
  shows "parsePermissions (showPerms ps) = Inr (map_of (rev ps))"
  using assms by (rule parsePermissions_show)

theorem permission_string_roundtrip_witness:
  "parsePermissions ''allow:a,deny:b,deny:a'' = Inr [''a'' \<mapsto> False, ''b'' \<mapsto> False]"
proof -
  have "parsePermissions (showPerms [(''a'', True), (''b'', False), (''a'', False)]) =
      Inr (map_of (rev [(''a'', True), (''b'', False), (''a'', False)]))"
    by (rule permission_string_roundtrip) (simp_all add: plainEntity_def)
  then show ?thesis by (simp add: showPerm_def fun_upd_twist)
qed

text \<open>
  C19: A role definition means the same on every replica: whatever order the decoded map of actions is
  visited in, the definition is accepted or not alike, the maps of the role are the same, and the admin
  permissions are the same up to order.
\<close>

theorem create_role_order:
  assumes "unmarshal s = Inr d" "unmarshal' s = Inr d'" "map_of d' ''role'' = map_of d ''role''"
    and "map_of d ''actions'' = Some (JObject entries)" "map_of d' ''actions'' = Some (JObject entries')"
    and "distinct (map fst entries)" "mset entries' = mset entries"
  shows "isl (CreateRole unmarshal' r s) = isl (CreateRole unmarshal r s) \<and>
    (\<forall>rol. CreateRole unmarshal r s = Inr rol \<longrightarrow>
       (\<exists>rol'. CreateRole unmarshal' r s = Inr rol' \<and>
          mset (AdminPermissions rol') = mset (AdminPermissions rol) \<and>
          rol' = rol\<lparr>AdminPermissions := AdminPermissions rol'\<rparr>))"
proof -
  have "set entries' = set entries" using assms(7) by (rule mset_eq_setD)
  then have isl: "isl (CreateRole_loop rol entries') = isl (CreateRole_loop rol entries)" for rol
    using CreateRole_loop_ok[of rol entries] CreateRole_loop_ok[of rol entries'] by blast
  have len: "length entries' = length entries" using assms(7) by (metis size_mset)
  show ?thesis
  proof (intro conjI allI impI)
    show "isl (CreateRole unmarshal' r s) = isl (CreateRole unmarshal r s)"
      by (auto simp: CreateRole_def assms(1-5) isl len split: option.splits json.splits)
    fix rol assume "CreateRole unmarshal r s = Inr rol"
    then show "\<exists>rol'. CreateRole unmarshal' r s = Inr rol' \<and>
        mset (AdminPermissions rol') = mset (AdminPermissions rol) \<and>
        rol' = rol\<lparr>AdminPermissions := AdminPermissions rol'\<rparr>"
      using CreateRole_loop_order[OF _ assms(6,7)]
      by (auto simp: CreateRole_def assms(1-5) len split: option.splits json.splits if_splits)
  qed
qed

lemma admin_update_keeps_ack: "rol' = rol\<lparr>AdminPermissions := as\<rparr> \<Longrightarrow> AckPerm rol' = AckPerm rol"
  by simp

theorem create_role_order_witness:
  "\<exists>rol rol'. CreateRole (\<lambda>_. Inr [(''role'', JString ''ops''), (''actions'', JObject
        [(''Ack'', JString ''allow:q''), (''CreateUser'', JString ''deny''), (''DeleteRole'', JString ''allow'')])])
        NewRoleManager ''ops.json'' = Inr rol \<and> AdminPermissions rol = [DENY_CREATE_USER, ALLOW_DELETE_ROLE] \<and>
     CreateRole (\<lambda>_. Inr [(''actions'', JObject
        [(''DeleteRole'', JString ''allow''), (''CreateUser'', JString ''deny''), (''Ack'', JString ''allow:q'')]),
        (''role'', JString ''ops'')]) NewRoleManager ''ops.json'' = Inr rol' \<and>
     AckPerm rol' = AckPerm rol"
proof -
  let ?rol = "(emptyRole ''ops'' ''ops.json'')\<lparr>AckPerm := [''q'' \<mapsto> True], AdminPermissions := [DENY_CREATE_USER, ALLOW_DELETE_ROLE]\<rparr>"
  let ?es = "[(''Ack'', JString ''allow:q''), (''CreateUser'', JString ''deny''), (''DeleteRole'', JString ''allow'')]"
  let ?um = "\<lambda>_ :: string. Inr [(''role'', JString ''ops''), (''actions'', JObject ?es)] :: error + (string \<times> json) list"
  let ?um' = "\<lambda>_ :: string. Inr [(''actions'', JObject (rev ?es)), (''role'', JString ''ops'')] :: error + (string \<times> json) list"
  have c: "CreateRole ?um NewRoleManager ''ops.json'' = Inr ?rol"
    by (simp add: CreateRole_def CreateRole_action_def setPerm_def addAdmin_def parsePermissions_def
        parseAdminPermissions_def emptyRole_def NewRoleManager_roles)
  have "isl (CreateRole ?um' NewRoleManager ''ops.json'') = isl (CreateRole ?um NewRoleManager ''ops.json'') \<and>
    (\<forall>rol. CreateRole ?um NewRoleManager ''ops.json'' = Inr rol \<longrightarrow>
       (\<exists>rol'. CreateRole ?um' NewRoleManager ''ops.json'' = Inr rol' \<and>
          mset (AdminPermissions rol') = mset (AdminPermissions rol) \<and>
          rol' = rol\<lparr>AdminPermissions := AdminPermissions rol'\<rparr>))"
    by (rule create_role_order[where entries = ?es and entries' = "rev ?es", OF refl refl]) simp_all
  with c obtain rol' where "CreateRole ?um' NewRoleManager ''ops.json'' = Inr rol'"
      "rol' = ?rol\<lparr>AdminPermissions := AdminPermissions rol'\<rparr>" by blast
  moreover from this(2) have "AckPerm rol' = AckPerm ?rol" by (rule admin_update_keeps_ack)
  ultimately show ?thesis using c by (intro exI[of _ ?rol] exI[of _ rol'] conjI) simp_all
qed

text \<open>
  Deleting a role takes exactly one copy of it from every user and leaves the other roles. So a user
  to whom the role was assigned twice keeps one copy of the deleted role.
\<close>

theorem delete_role_takes_one_copy:
  assumes "roles r n \<noteq> None"
  shows "fst (DeleteRole r n) = None \<and> \<not> RoleExists (snd (DeleteRole r n)) n \<and>
    (\<forall>u n'. holdsRole (snd (DeleteRole r n)) u n' = holdsRole r u n' - (if n' = n then 1 else 0))"
  using assms DeleteRole_count[OF assms] by (simp add: DeleteRole_def RoleExists_def)

text \<open>Witness: the root role, assigned twice to a user and then deleted, still grants.\<close>

theorem delete_role_takes_one_copy_witness:
  "\<not> RoleExists (snd (DeleteRole (snd (AssignRole (snd (AssignRole NewRoleManager ''u'' ''ROOT'')) ''u'' ''ROOT'')) ''ROOT'')) ''ROOT'' \<and>
   holdsRole (snd (DeleteRole (snd (AssignRole (snd (AssignRole NewRoleManager ''u'' ''ROOT'')) ''u'' ''ROOT'')) ''ROOT'')) ''u'' ''ROOT'' = 1"
proof -
  let ?r = "snd (AssignRole (snd (AssignRole NewRoleManager ''u'' ''ROOT'')) ''u'' ''ROOT'')"
  have "roles ?r ''ROOT'' \<noteq> None" "holdsRole ?r ''u'' ''ROOT'' = 2"
    by (simp_all add: AssignRole_def NewRoleManager_roles holdsRole_def roleROOT_def)
  with delete_role_takes_one_copy[of ?r "''ROOT''"] show ?thesis by simp
qed

end
