(* ===== verification/AuthProperties.thy ===== *)
theory AuthProperties
  imports AuthManager
begin

text \<open>
  The properties of accounts and sessions: logins after account and password changes, how long a session
  lasts, and what logging out and deleting a user leave behind.
\<close>

section \<open>Shared facts\<close>

text \<open>The later logins of the handler and its deletions of users, as steps on the session handler.\<close>

fun sessionStep :: "sessionOp \<Rightarrow> sessionHandler \<Rightarrow> sessionHandler" where
  "sessionStep (Added t u i ttl) r = snd (AddToken r t u i ttl)"
| "sessionStep (Dropped u) r = snd (sessionHandler_DeleteUser r u)"

lemma sessionStep_apply_op: "sessionStep = sess.apply_op"
proof (intro ext)
  fix x r show "sessionStep x r = sess.apply_op x r" by (cases x) simp_all
qed

lemma Login_wrong:
  assumes "getUserCredentials a u = Some c"
    and "key (toBytes p) (spSalt c) (hashStrength a) 8 1 32 \<noteq> Inr (spHash c)"
  shows "\<exists>err. Login key t i now cl a u p = (Inl err, a, [])"
  using assms by (auto simp: Login_def split: sum.split)

text \<open>
  A stand-in for the key derivation, used in the witnesses: the salt followed by the password.
\<close>

definition demoKey :: kdf where
  "demoKey p s n r q l = Inr (s @ p)"

definition demoAuth :: authManager where
  "demoAuth = NewAuthManager NewSessionHandler 60 ''salt''"

definition demoUser :: authManager where
  "demoUser = snd (CreateUser demoKey (Inr [7]) demoAuth ''ann'' ''pw'')"

definition demoUsers :: authManager where
  "demoUsers = snd (CreateUser demoKey (Inr [8]) demoUser ''bob'' ''bpw'')"

lemmas demo_defs = demoAuth_def demoUser_def demoUsers_def demoKey_def NewAuthManager_def NewSessionHandler_def CreateUser_def getUserCredentials_def
  toBytes_def

section \<open>Properties\<close>

text \<open>
  C20: A new account can be used: after the account is created, a login with its password returns the
  token, and the token gives the consumer identifier of the login exactly until it expires. A login with a
  password whose derived key differs is refused and changes nothing.
\<close>

theorem account_login_roundtrip:
  assumes "getUserCredentials a u = None" "key (toBytes p) buf (hashStrength a) 8 1 32 = Inr h"
    and "CreateUser key (Inr buf) a u p = (e, a')" "\<not> hasToken (sessions a) u t"
  shows "e = None \<and>
    (\<exists>a''. Login key t i now cl a' u p = (Inr t, a'', snd (PropagateSessions cl t u i (now + tokenDuration a))) \<and>
       (\<forall>now'. authManager_GetConsumerID a'' now' u t =
          (if now' < now + tokenDuration a then Inr i else Inl ErrNoUserSessionExists))) \<and>
    (\<forall>q. key (toBytes q) buf (hashStrength a) 8 1 32 \<noteq> Inr h \<longrightarrow>
       (\<exists>err. Login key t i now cl a' u q = (Inl err, a', [])))"
proof -
  note c = CreateUser_ok[where key = key, OF assms(1,2), unfolded assms(3) fst_conv snd_conv]
  have "Login key t i now cl a' u p = (Inr t,
      a'\<lparr>sessions := snd (AddToken (sessions a) t u i (now + tokenDuration a))\<rparr>,
      snd (PropagateSessions cl t u i (now + tokenDuration a)))"
    by (subst Login_ok[OF c(2)]) (simp_all add: c(3-5) assms(2))
  moreover note sess.look_add[OF assms(4), of i "now + tokenDuration a"]
  moreover have "\<exists>err. Login key t i now cl a' u q = (Inl err, a', [])"
    if "key (toBytes q) buf (hashStrength a) 8 1 32 \<noteq> Inr h" for q
    by (rule Login_wrong[OF c(2)]) (use that in \<open>simp add: c(4)\<close>)
  ultimately show ?thesis using c(1) by (auto simp: authManager_GetConsumerID_def)
qed

theorem account_login_roundtrip_witness:
  "\<exists>a err. Login demoKey ''tok'' [1] 0 [] demoUser ''ann'' ''pw'' = (Inr ''tok'', a, []) \<and>
     authManager_GetConsumerID a 59 ''ann'' ''tok'' = Inr [1] \<and>
     authManager_GetConsumerID a 60 ''ann'' ''tok'' = Inl ErrNoUserSessionExists \<and>
     Login demoKey ''tok'' [1] 0 [] demoUser ''ann'' ''no'' = (Inl err, demoUser, [])"
proof -
  have h: "demoKey (toBytes ''pw'') [7] (hashStrength demoAuth) 8 1 32 = Inr ([7] @ toBytes ''pw'')"
    and n: "demoKey (toBytes ''no'') [7] (hashStrength demoAuth) 8 1 32 \<noteq> Inr ([7] @ toBytes ''pw'')"
    by (simp_all add: demoKey_def toBytes_def)
  have u: "getUserCredentials demoAuth ''ann'' = None" by (simp add: demo_defs)
  have c: "CreateUser demoKey (Inr [7]) demoAuth ''ann'' ''pw'' = (None, demoUser)" by (simp add: demo_defs)
  have t: "\<not> hasToken (sessions demoAuth) ''ann'' ''tok''" by (simp add: demo_defs hasToken_def)
  have "tokenDuration demoAuth = 60" by (simp add: demo_defs)
  with account_login_roundtrip[where key = demoKey and p = "''pw''" and buf = "[7]" and a = demoAuth
      and h = "[7] @ toBytes ''pw''" and u = "''ann''" and i = "[1]" and now = 0 and cl = "[]", OF u h c t] n
  show ?thesis by (fastforce simp: PropagateSessions_def)
qed

text \<open>
  C21: After a password change the new password logs in, and the old one does not when its key under the
  new salt differs. Every other account keeps its credentials, and usernames stay unique.
\<close>

theorem change_password_effect:
  assumes "accountsOk a" "getUserCredentials a u = Some c"
    and "key (toBytes old) (spSalt c) (hashStrength a) 8 1 32 = Inr (spHash c)"
    and "key (toBytes new) buf (hashStrength a) 8 1 32 = Inr h"
    and "key (toBytes old) buf (hashStrength a) 8 1 32 \<noteq> Inr h"
  shows "\<exists>a'. ChangePassword key (Inr buf) a u old new = (Inr True, a') \<and> accountsOk a' \<and>
    fst (Login key t i now cl a' u new) = Inr t \<and> isl (fst (Login key t i now cl a' u old)) \<and>
    (\<forall>u'. u' \<noteq> u \<longrightarrow> getUserCredentials a' u' = getUserCredentials a u')"
proof -
  let ?r = "ChangePassword key (Inr buf) a u old new"
  note r = ChangePassword_ok[where key = key, OF assms(1-4)]
  have "Login key t i now cl (snd ?r) u new = (Inr t,
      (snd ?r)\<lparr>sessions := snd (AddToken (sessions (snd ?r)) t u i (now + tokenDuration (snd ?r)))\<rparr>,
      snd (PropagateSessions cl t u i (now + tokenDuration (snd ?r))))"
    by (rule Login_ok[OF r(2)]) (simp add: r(4) assms(4))
  moreover have "\<exists>err. Login key t i now cl (snd ?r) u old = (Inl err, snd ?r, [])"
    by (rule Login_wrong[OF r(2)]) (simp add: r(4) assms(5))
  ultimately show ?thesis
    using r(1,3) accountsOk_ops(2)[OF assms(1), of key "Inr buf" u old new]
    by (intro exI[of _ "snd ?r"]) (auto simp: prod_eq_iff)
qed

theorem change_password_effect_witness:
  "\<exists>a'. ChangePassword demoKey (Inr [9]) demoUsers ''ann'' ''pw'' ''new'' = (Inr True, a') \<and>
     fst (Login demoKey ''t'' [1] 0 [] a' ''ann'' ''new'') = Inr ''t'' \<and>
     getUserCredentials a' ''bob'' = getUserCredentials demoUsers ''bob''"
proof -
  let ?c = "\<lparr>spUsername = ''ann'', spSalt = [7], spHash = [7] @ toBytes ''pw''\<rparr>"
  have "accountsOk demoUsers" "getUserCredentials demoUsers ''ann'' = Some ?c"
    by (simp_all add: demo_defs accountsOk_def GetAccounts_def)
  from change_password_effect[OF this, of demoKey "''pw''" "''new''" "[9]" "[9] @ toBytes ''new''" "''t''" "[1]" 0 "[]"]
  show ?thesis by (auto simp: demoKey_def toBytes_def)
qed

text \<open>
  C22: How long a session lasts: once a token is entered for a user, the handler gives its identifier at
  every time before it expires and refuses it from then on, whatever other logins (with the same token,
  too) and deletions of other users happen in between.
\<close>

theorem session_lasts_until_expiry:
  assumes "\<not> hasToken r u t" "\<forall>x\<in>set xs. x \<noteq> Dropped u"
  shows "fst (GetConsumerID (fold sessionStep xs (snd (AddToken r t u i ttl))) now t u) =
    (if now < ttl then Inr i else Inl ErrNoUserSessionExists)"
  using sess.session_lasts[OF assms] by (simp add: sessionStep_apply_op)

theorem session_lasts_until_expiry_witness:
  "fst (GetConsumerID (fold sessionStep [Added ''b'' ''u'' [2] 9, Dropped ''v'', Added ''a'' ''u'' [3] 99]
     (snd (AddToken NewSessionHandler ''a'' ''u'' [1] 50))) 49 ''a'' ''u'') = Inr [1] \<and>
   fst (GetConsumerID (fold sessionStep [Added ''b'' ''u'' [2] 9, Dropped ''v'', Added ''a'' ''u'' [3] 99]
     (snd (AddToken NewSessionHandler ''a'' ''u'' [1] 50))) 50 ''a'' ''u'') = Inl ErrNoUserSessionExists"
  using session_lasts_until_expiry[of NewSessionHandler "''u''" "''a''"
      "[Added ''b'' ''u'' [2] 9, Dropped ''v'', Added ''a'' ''u'' [3] 99]" "[1]" 50]
  by (simp add: hasToken_def NewSessionHandler_def del: fold_simps)



text \<open>
  C24: Deleting a user: with two or more accounts the user is gone, cannot log in and has no session,
  while the other accounts keep their credentials and sessions; the only account cannot be deleted.
\<close>

theorem delete_user_effect:
  assumes "accountsOk a" "getUserCredentials a u = Some c"
  shows "if length (credentials a) = 1
    then authManager_DeleteUser a u = (Some ErrAtLeastOneAccount, a)
    else (\<exists>a'. authManager_DeleteUser a u = (None, a') \<and> accountsOk a' \<and> \<not> UserExists a' u \<and>
      fst (Login key t i now cl a' u p) = Inl FailedToGetSaltPass \<and>
      authManager_GetConsumerID a' now u t = Inl ErrNoUserSessionExists \<and>
      (\<forall>u'. u' \<noteq> u \<longrightarrow> getUserCredentials a' u' = getUserCredentials a u' \<and>
         authManager_GetConsumerID a' now u' t = authManager_GetConsumerID a now u' t))"
proof (cases "length (credentials a) = 1")
  case False
  let ?sh = "snd (sessionHandler_DeleteUser (sessions a) u)" let ?a = "deleteUsername (a\<lparr>sessions := snd (sessionHandler_DeleteUser (sessions a) u)\<rparr>) u"
  have a: "accountsOk (a\<lparr>sessions := ?sh\<rparr>)" "getUserCredentials (a\<lparr>sessions := ?sh\<rparr>) = getUserCredentials a"
    using assms(1) by (simp_all add: accountsOk_def GetAccounts_def getUserCredentials_def fun_eq_iff)
  note d = deleteUsername_mset[OF a(1) a(2)[THEN fun_cong, THEN trans, OF assms(2)]]
  have s: "sessions ?a = ?sh" by (simp add: deleteUsername_def split: option.split)
  have D: "authManager_DeleteUser a u = (None, ?a)"
    using assms(2) False by (simp add: authManager_DeleteUser_def sessionHandler_DeleteUser_def)
  have "fst (Login key t i now cl ?a u p) = Inl FailedToGetSaltPass" using d(3) by (simp add: Login_def)
  moreover have "authManager_GetConsumerID ?a now u t = Inl ErrNoUserSessionExists"
    unfolding authManager_GetConsumerID_def s by (rule sess.look_drop)
  moreover have "authManager_GetConsumerID ?a now u' t = authManager_GetConsumerID a now u' t" if "u' \<noteq> u" for u'
    unfolding authManager_GetConsumerID_def s by (rule sess.look_drop_other) (use that in simp)
  ultimately show ?thesis using False D d(2-4) a(2) by (auto simp: UserExists_iff)
qed (use assms in \<open>simp add: authManager_DeleteUser_def\<close>)

theorem delete_user_effect_witness:
  "\<exists>a'. authManager_DeleteUser demoUsers ''ann'' = (None, a') \<and> \<not> UserExists a' ''ann'' \<and>
     getUserCredentials a' ''bob'' = getUserCredentials demoUsers ''bob'' \<and>
     authManager_DeleteUser demoUser ''ann'' = (Some ErrAtLeastOneAccount, demoUser)"
proof -
  let ?c = "\<lparr>spUsername = ''ann'', spSalt = [7], spHash = [7] @ toBytes ''pw''\<rparr>"
  have one: "accountsOk demoUser" "getUserCredentials demoUser ''ann'' = Some ?c" "length (credentials demoUser) = 1"
    and two: "accountsOk demoUsers" "getUserCredentials demoUsers ''ann'' = Some ?c" "length (credentials demoUsers) \<noteq> 1"
    by (simp_all add: demo_defs accountsOk_def GetAccounts_def)
  from delete_user_effect[OF one(1,2), of demoKey "''t''" "[1]" 0 "[]" "''pw''"] one(3)
  have last: "authManager_DeleteUser demoUser ''ann'' = (Some ErrAtLeastOneAccount, demoUser)" by simp
  from delete_user_effect[OF two(1,2), of demoKey "''t''" "[1]" 0 "[]" "''pw''",
      unfolded if_not_P[OF two(3)]]
  obtain a' where a': "authManager_DeleteUser demoUsers ''ann'' = (None, a')" "\<not> UserExists a' ''ann''"
      "\<forall>u'. u' \<noteq> ''ann'' \<longrightarrow> getUserCredentials a' u' = getUserCredentials demoUsers u'" by blast
  have "getUserCredentials a' ''bob'' = getUserCredentials demoUsers ''bob''" by (rule a'(3)[rule_format]) simp
  with a'(1,2) last show ?thesis by (intro exI[of _ a'] conjI)
qed

end
