(* ===== verification/FsmProperties.thy ===== *)
theory FsmProperties
  imports FsmReplicas RbacProperties AuthProperties
begin

text \<open>
  The properties of the state machine: authorisation of commands, the invariants along the log, which
  commands always return, and the agreement of replicas.
\<close>

section \<open>Commands that return\<close>

definition returns :: "'a option \<Rightarrow> bool" where
  "returns out \<longleftrightarrow> out \<noteq> None"

lemma returns_simps [simp]: "returns (Some x)" "returns (finished b err)" "returns (failed b e)"
  by (simp_all add: returns_def finished_def failed_def)

lemma returns_checked: "(\<And>p. dec = Inr p \<Longrightarrow> returns (k p)) \<Longrightarrow> returns (checked b dec perm k)"
  by (auto simp: checked_def split: sum.split)

lemma returns_bind: "returns x \<Longrightarrow> (\<And>r s. x = Some (r, s) \<Longrightarrow> returns (f r s)) \<Longrightarrow> returns (x \<bind> (\<lambda>(r, s). f r s))"
  by (cases x) (auto simp: returns_def)

lemma returns_put: "x \<noteq> None \<Longrightarrow> returns (x \<bind> (\<lambda>m. Some (f m)))"
  by (cases x) simp_all

text \<open>A batch with an identifier for every message.\<close>

definition wellBatched :: "Messages list \<Rightarrow> bool" where
  "wellBatched ms \<longleftrightarrow> list_all (\<lambda>d. length (msData d) \<le> length (msIds d)) ms"

lemma GetMessage_returns: "managed m \<Longrightarrow> returns (queueManager_GetMessage m n k c now)"
  using GetMessage_content managed_content missing_queue(4)
  by (cases "queues m n") (fastforce simp: returns_def)+

lemma Ack_returns: "managed m \<Longrightarrow> returns (queueManager_Ack m n c i)"
  using Ack_content managed_content missing_queue(5)
  by (cases "queues m n") (fastforce simp: returns_def)+

lemma AddMessage_returns:
  assumes "brokerOk br"
  shows "returns (broker_AddMessage sched br k data i)"
proof -
  have m: "managed (manager br)" using assms by (simp add: brokerOk_def)
  have "fanOut (\<lambda>m n. queueManager_AddMessage m n data i) ks (manager br) \<noteq> None" for ks
    using single.fanOut_delivers[OF m, of data i ks] by blast
  then show ?thesis by (simp add: broker_AddMessage_def returns_put split: option.split)
qed

text \<open>Data and identifiers of a batch, as the messages they are zipped to.\<close>

lemma zipped_batch:
  assumes "length data \<le> length ids"
  obtains ms :: "MessageBatch list" and extra where "data = map mbData ms" "ids = map mbId ms @ extra"
proof
  let ?ms = "map (\<lambda>(i, d). \<lparr>mbId = i, mbData = d\<rparr>) (zip ids data)"
  show "data = map mbData ?ms" using assms by (intro nth_equalityI) simp_all
  have "map mbId ?ms = take (length data) ids" using assms by (intro nth_equalityI) simp_all
  then show "ids = map mbId ?ms @ drop (length data) ids" by simp
qed

lemma BatchAddMessage_returns:
  assumes "brokerOk br" "length data \<le> length ids"
  shows "returns (broker_BatchAddMessage sched br k data ids)"
proof -
  have m: "managed (manager br)" using assms by (simp add: brokerOk_def)
  from assms(2) obtain ms :: "MessageBatch list" and extra where "data = map mbData ms" "ids = map mbId ms @ extra" by (rule zipped_batch)
  then have "fanOut (\<lambda>m n. queueManager_BatchAddMessage m n data ids) ks (manager br) \<noteq> None" for ks
    using batch.fanOut_delivers[OF m, of ms extra ks] by auto
  then show ?thesis by (simp add: broker_BatchAddMessage_def returns_put split: option.split)
qed

lemma batchAdd_returns:
  "brokerOk br \<Longrightarrow> wellBatched ms \<Longrightarrow> returns (batchAdd e br errs ms)"
proof (induction ms arbitrary: br errs)
  case (Cons d ms)
  have "returns (broker_BatchAddMessage (eSched e) br (msRK d) (msData d) (msIds d))"
    using Cons.prems by (intro BatchAddMessage_returns) (simp_all add: wellBatched_def)
  moreover have "brokerOk br'" if "broker_BatchAddMessage (eSched e) br (msRK d) (msData d) (msIds d) = Some (r, br')" for r br'
    using keepsD[OF brokerOk_BatchAddMessage[OF Cons.prems(1)] that] by simp
  ultimately show ?case using Cons by (auto intro!: returns_bind simp: wellBatched_def)
qed simp

text \<open>
  The commands that can panic: those that take back or acknowledge in batches, the negative
  acknowledgement, the removal of a route, and a batch with too few identifiers.
\<close>

definition mayPanic :: "codec \<Rightarrow> CommandPayload \<Rightarrow> bool" where
  "mayPanic cd p \<longleftrightarrow> cpOp p \<in> {NACK, BATCH_ACK, BATCH_NACK, DELETE_ROUTING_KEY} \<or>
     (cpOp p = SUBMIT_BATCH_MESSAGE \<and>
      (case decBatchMessages cd (cpData p) of Inl _ \<Rightarrow> False | Inr ms \<Rightarrow> \<not> wellBatched ms))"

lemma dispatch_returns:
  assumes "fsmOk b" "\<not> mayPanic cd p"
  shows "returns (dispatch cd e b p)"
proof -
  note ok = fsmOk_sel[OF assms(1)]
  have 1: "returns (apply_CREATE_QUEUE cd b p)" "returns (apply_ADD_ROUTING_KEY cd b p)"
    "returns (apply_DELETE_QUEUE cd e b p)" "returns (apply_CREATE_ACCOUNT cd e b p)"
    "returns (apply_CHANGE_PASSWORD cd e b p)" "returns (apply_DELETE_USER cd b p)"
    "returns (apply_CREATE_ROLE cd b p)" "returns (apply_ASSIGN_ROLE cd b p)" "returns (apply_UNASSIGN_ROLE cd b p)"
    unfolding apply_defs by (intro returns_checked; simp split: prod.split sum.split)+
  have 2: "returns (apply_SUBMIT_MESSAGE cd e b p)" unfolding apply_defs
    by (intro returns_checked returns_bind AddMessage_returns ok(1)) simp
  have 3: "returns (apply_ACK cd b p)" unfolding apply_defs consumerManager_Ack_def
    by (intro returns_checked returns_bind Ack_returns ok(2)) simp
  have "returns (consumerManager_GetMessages (qm b) n k c now)" for n k c now
    using GetMessage_returns[OF ok(2)] by (simp add: consumerManager_GetMessages_def)
  then have 4: "returns (apply_GET_MESSAGES cd b p)" unfolding apply_defs
    by (intro returns_checked returns_bind) (simp_all split: sum.split)
  have "returns (batchAdd e (fBroker b) [] ms \<bind> (\<lambda>(errs, br). finished (b\<lparr>fBroker := br\<rparr>) (joinErrors errs)))"
    if "wellBatched ms" for ms
    by (intro returns_bind batchAdd_returns ok(1) that) simp
  then have 5: "returns (apply_SUBMIT_BATCH_MESSAGE cd e b p)" if "cpOp p = SUBMIT_BATCH_MESSAGE"
    using assms(2) that unfolding apply_defs by (auto simp: mayPanic_def split: sum.split option.split)
  from assms(2) have "cpOp p \<noteq> NACK" "cpOp p \<noteq> BATCH_ACK" "cpOp p \<noteq> BATCH_NACK" "cpOp p \<noteq> DELETE_ROUTING_KEY"
    by (auto simp: mayPanic_def)
  with 1 2 3 4 5 show ?thesis unfolding dispatch_def Let_def by simp
qed

section \<open>A state machine for the witnesses\<close>

definition demoFsm :: syblineFSM where
  "demoFsm = \<lparr>fBroker = NewBroker (NewQueueManager 100), fAuth = demoUsers, fRoles = demoRoles\<rparr>"

text \<open>
  A decoder for the witnesses: command 1 creates a queue as the root user, command 2 does so as a user
  without the permission, command 3 submits a message; other payloads are not used.
\<close>

definition demoCodec :: codec where
  "demoCodec =
     \<lparr>decCommand = (\<lambda>d. if d = [1] then Inr \<lparr>cpUsername = ''root'', cpOp = CREATE_QUEUE, cpData = []\<rparr>
        else if d = [2] then Inr \<lparr>cpUsername = ''eve'', cpOp = CREATE_QUEUE, cpData = []\<rparr>
        else Inr \<lparr>cpUsername = ''root'', cpOp = SUBMIT_MESSAGE, cpData = []\<rparr>),
      decBatch = (\<lambda>d. Inr (map (\<lambda>x. [x]) d)),
      decQueueInfo = (\<lambda>_. Inr \<lparr>qiRoutingKey = ''k'', qiName = ''q'', qiSize = 5, qiRetryLimit = 3, qiHasDLQueue = True\<rparr>),
      decMessageInfo = (\<lambda>_. Inr \<lparr>miRk = ''k'', miData = [11], miId = [1]\<rparr>),
      decBatchMessages = (\<lambda>_. Inl MissingAction), decAddRoute = (\<lambda>_. Inl MissingAction),
      decDeleteRoute = (\<lambda>_. Inl MissingAction), decRequest = (\<lambda>_. Inl MissingAction),
      decAckUpdate = (\<lambda>_. Inl MissingAction), decDeleteQueue = (\<lambda>_. Inl MissingAction),
      decUserCreds = (\<lambda>_. Inl MissingAction), decChange = (\<lambda>_. Inl MissingAction),
      decUser = (\<lambda>_. Inl MissingAction), decBatchAck = (\<lambda>_. Inl MissingAction),
      decBatchNack = (\<lambda>_. Inl MissingAction), decRole = (\<lambda>_. Inl MissingAction),
      decRoleUser = (\<lambda>_. Inl MissingAction)\<rparr>"

text \<open>Two replicas: different random bytes, goroutine schedules and map orders.\<close>

definition demoEnv :: "bool \<Rightarrow> env" where
  "demoEnv other =
     \<lparr>eKey = demoKey, eRnd = Inr (if other then [1] else [2]),
      eOrder = (\<lambda>r. (if other then rev else id) (sorted_list_of_set (dom r))),
      eSched = (if other then rev else id)\<rparr>"

lemma demoEnv_ok: "envOk (demoEnv other)"
  by (auto simp: envOk_def demoEnv_def mapOrder_def demoKey_def)

lemma demoFsm_ok: "fsmOk demoFsm"
proof -
  have "brokerOk (NewBroker (NewQueueManager 100))"
    by (rule brokerOk_new[OF managed_new])
  moreover have "accountsOk demoUsers" by (simp add: demo_defs accountsOk_def GetAccounts_def)
  moreover have "namesOk demoRoles" using namesOk_new by (simp add: demoRoles_def namesOk_def)
  ultimately show ?thesis by (simp add: fsmOk_def demoFsm_def)
qed

lemma demoFsm_account: "credentials (fAuth demoFsm) \<noteq> []"
  by (simp add: demoFsm_def demo_defs)

lemma demo_admin: "HasAdminPermission demoRoles ''root'' ALLOW_CREATE_QUEUE = Inr True"
  by (simp add: HasAdminPermission_iff demoRoles_def roleROOT_def allAdmin_def)

lemma demo_create:
  "\<exists>b'. dispatch demoCodec e demoFsm \<lparr>cpUsername = ''root'', cpOp = CREATE_QUEUE, cpData = []\<rparr> =
     Some (\<lparr>rData = NoData, rErr = None\<rparr>, b') \<and> queueManager_Exists (qm b') ''q''"
  by (simp add: dispatch_def apply_CREATE_QUEUE_def checked_def demoCodec_def demoFsm_def demo_admin finished_def
      broker_CreateQueue_def NewBroker_def NewQueueManager_def queueManager_CreateQueue_def Let_def addRoute_def
      queueManager_Exists_def)

section \<open>Properties\<close>

text \<open>
  C25: Authorisation. A command whose user lacks the permission it needs, by the roles at the time it is
  applied, returns an error and changes nothing.
\<close>

theorem unauthorised_command_rejected:
  assumes "decCommand cd d = Inr p" "\<not> authorised cd (fRoles b) p"
  shows "\<exists>err. applySingle cd e b d = Some (\<lparr>rData = NoData, rErr = Some err\<rparr>, b)"
  using dispatch_unauthorised[OF assms(2)] assms(1) by (simp add: applySingle_def rejected_def failed_def)

theorem unauthorised_command_rejected_witness:
  "\<exists>err. applySingle demoCodec (demoEnv True) demoFsm [2] = Some (\<lparr>rData = NoData, rErr = Some err\<rparr>, demoFsm)"
proof (rule unauthorised_command_rejected)
  show "decCommand demoCodec [2] = Inr \<lparr>cpUsername = ''eve'', cpOp = CREATE_QUEUE, cpData = []\<rparr>"
    by (simp add: demoCodec_def)
  show "\<not> authorised demoCodec (fRoles demoFsm) \<lparr>cpUsername = ''eve'', cpOp = CREATE_QUEUE, cpData = []\<rparr>"
    by (simp add: authorised_def adminTable_def demoFsm_def HasAdminPermission_iff demoRoles_def roleCONSUMER_def)
qed

text \<open>
  C26: The invariant of the state machine (well-formed queues and routes, unique usernames, roles stored
  under their names) holds after every log entry without batch acknowledgements.
\<close>

theorem log_entry_keeps_invariant:
  assumes "fsmOk b" "Apply cd es b lg = Some (r, b')"
    and "\<And>ds d p. decBatch cd (lgData lg) = Inr ds \<Longrightarrow> d \<in> set ds \<Longrightarrow> decCommand cd d = Inr p \<Longrightarrow>
      cpOp p \<noteq> BATCH_ACK \<and> cpOp p \<noteq> BATCH_NACK"
  shows "fsmOk b'"
proof (cases "lgIsRaftLog lg \<or> length (lgData lg) = 0 \<or> isl (decBatch cd (lgData lg))")
  case True
  then show ?thesis using assms(1,2) by (auto simp: Apply_def split: sum.splits if_splits)
next
  case False
  then obtain ds where ds: "decBatch cd (lgData lg) = Inr ds" by (cases "decBatch cd (lgData lg)") auto
  have "keeps fsmOk (applySingle cd (es i) x d)" if "fsmOk x" "d \<in> set ds" for x i d
    using dispatch_fsmOk[OF that(1)] assms(3)[OF ds that(2)] that(1)
    by (auto simp: applySingle_def split: sum.split)
  then have "keeps fsmOk (Apply_loop cd es 0 b [] ds)" using assms(1) by (rule Apply_loop_keeps)
  moreover have "\<exists>res. Apply_loop cd es 0 b [] ds = Some (res, b')"
    using assms(2) False ds by (auto simp: Apply_def bind_Some_iff)
  ultimately show ?thesis by (auto dest: keepsD)
qed

theorem log_entry_keeps_invariant_witness:
  "\<exists>res b'. Apply demoCodec (\<lambda>_. demoEnv True) demoFsm \<lparr>lgIsRaftLog = False, lgData = [1]\<rparr> = Some (res, b') \<and>
     queueManager_Exists (qm b') ''q'' \<and> fsmOk b'"
proof -
  from demo_create[of "demoEnv True"] obtain b' where
    b': "dispatch demoCodec (demoEnv True) demoFsm \<lparr>cpUsername = ''root'', cpOp = CREATE_QUEUE, cpData = []\<rparr> =
      Some (\<lparr>rData = NoData, rErr = None\<rparr>, b')" "queueManager_Exists (qm b') ''q''" by blast
  have a: "Apply demoCodec (\<lambda>_. demoEnv True) demoFsm \<lparr>lgIsRaftLog = False, lgData = [1]\<rparr> =
      Some (Inr (Some [\<lparr>rData = NoData, rErr = None\<rparr>]), b')"
    using b'(1) by (simp add: Apply_def applySingle_def demoCodec_def)
  have "fsmOk b'"
    by (rule log_entry_keeps_invariant[OF demoFsm_ok a]) (auto simp: demoCodec_def)
  with a b'(2) show ?thesis by blast
qed

text \<open>There is always an account: no log entry removes the last one.\<close>

theorem log_entry_keeps_account:
  assumes "credentials (fAuth b) \<noteq> []" "Apply cd es b lg = Some (r, b')"
  shows "credentials (fAuth b') \<noteq> []"
proof -
  have "keeps hasAccount (Apply cd es b lg)"
    using assms(1) by (intro Apply_keeps applySingle_keeps apply_hasAccount) (simp_all add: hasAccount_def)
  with assms(2) show ?thesis by (auto simp: hasAccount_def dest: keepsD)
qed

theorem log_entry_keeps_account_witness:
  "\<exists>r b'. Apply demoCodec (\<lambda>_. demoEnv True) demoFsm \<lparr>lgIsRaftLog = False, lgData = [1]\<rparr> = Some (r, b') \<and>
     credentials (fAuth b') \<noteq> []"
proof -
  from demo_create[of "demoEnv True"] obtain b' where
    "dispatch demoCodec (demoEnv True) demoFsm \<lparr>cpUsername = ''root'', cpOp = CREATE_QUEUE, cpData = []\<rparr> =
      Some (\<lparr>rData = NoData, rErr = None\<rparr>, b')" by blast
  then have a: "Apply demoCodec (\<lambda>_. demoEnv True) demoFsm \<lparr>lgIsRaftLog = False, lgData = [1]\<rparr> =
      Some (Inr (Some [\<lparr>rData = NoData, rErr = None\<rparr>]), b')"
    by (simp add: Apply_def applySingle_def demoCodec_def)
  with log_entry_keeps_account[OF demoFsm_account a] show ?thesis by blast
qed

text \<open>
  C27: Replicas agree. Two replicas that agree on queues, routes, roles and usernames and apply the same
  commands still agree afterwards (or both panic), although their random bytes, goroutine schedules and
  map orders differ, as long as every queue that is deleted has one route at most, and the random source and
  the key derivation, called with its fixed cost, do not fail on either of them.
\<close>

theorem replicas_agree:
  assumes "agree b b'" "finRoutes b" "\<And>i. envOk (es i)" "\<And>i. envOk (es' i)" "runReplicable cd es i b ps"
  shows "rel_option agree (runCommands cd es i b ps) (runCommands cd es' i b' ps)"
  using assms by (rule run_agree)

theorem replicas_agree_witness:
  "rel_option agree
     (runCommands demoCodec (\<lambda>_. demoEnv True) 0 demoFsm
        [\<lparr>cpUsername = ''root'', cpOp = CREATE_QUEUE, cpData = []\<rparr>, \<lparr>cpUsername = ''root'', cpOp = SUBMIT_MESSAGE, cpData = []\<rparr>])
     (runCommands demoCodec (\<lambda>_. demoEnv False) 0 (demoFsm\<lparr>fAuth := fAuth demoFsm\<lparr>tokenDuration := 7\<rparr>\<rparr>)
        [\<lparr>cpUsername = ''root'', cpOp = CREATE_QUEUE, cpData = []\<rparr>, \<lparr>cpUsername = ''root'', cpOp = SUBMIT_MESSAGE, cpData = []\<rparr>])"
proof (rule replicas_agree)
  show "agree demoFsm (demoFsm\<lparr>fAuth := fAuth demoFsm\<lparr>tokenDuration := 7\<rparr>\<rparr>)"
    by (simp add: agree_def GetAccounts_def demoFsm_def demo_defs)
  show "finRoutes demoFsm" by (simp add: finRoutes_def demoFsm_def NewBroker_def)
qed (simp_all add: demoEnv_ok replicable_def split: option.split)

text \<open>
  C28: Commands return. In a well-formed state every command returns a result and leaves a well-formed
  state, except the negative acknowledgements, the batch acknowledgement, the removal of a route, and a
  batch with fewer identifiers than messages, which can panic.
\<close>

theorem command_returns:
  assumes "fsmOk b" "\<not> mayPanic cd p"
  shows "\<exists>res b'. dispatch cd e b p = Some (res, b') \<and> fsmOk b'"
proof -
  from dispatch_returns[OF assms, of e] obtain res b' where d: "dispatch cd e b p = Some (res, b')"
    by (auto simp: returns_def)
  have "keeps fsmOk (dispatch cd e b p)"
    using assms(2) by (intro dispatch_fsmOk assms(1)) (auto simp: mayPanic_def)
  with d show ?thesis by (auto dest: keepsD)
qed

theorem command_returns_witness:
  "\<exists>res b'. dispatch demoCodec (demoEnv False) demoFsm \<lparr>cpUsername = ''root'', cpOp = SUBMIT_MESSAGE, cpData = []\<rparr> =
     Some (res, b') \<and> fsmOk b'"
  by (rule command_returns[OF demoFsm_ok]) (simp add: mayPanic_def)

end
