(* ===== verification/Handler.thy ===== *)
theory Handler
  imports FsmReplicas
begin

text \<open>
  The request handler (\<open>pkg/handler/Handler.go\<close>, \<open>validation.go\<close>): it validates a request, finds the
  user in the context, checks the permission and hands a command to \<open>sendCommand\<close>.

  The value of a handler function here is the error it returns early, or the command it sends: the
  operation, the payload and the username. The handler reads the same account and role managers that
  the state machine changes, so its functions take the state of the machine. What \<open>uuid\<close>, SHA-512 and
  the clock give are arguments.
\<close>

section \<open>Validation\<close>

definition validateMessage :: "bytes \<Rightarrow> string \<Rightarrow> error option" where
  "validateMessage data routingKey =
     (if length data = 0 then Some ErrInvalidData
      else if length routingKey = 0 then Some ErrInvalidRoutingKey else None)"

definition validateRequestMessages :: "string \<Rightarrow> u32 \<Rightarrow> error option" where
  "validateRequestMessages queue n =
     (if length queue = 0 then Some HandlerErrInvalidQueueName
      else if n = 0 then Some ErrInvalidAmount else None)"

definition validateCreateQueue :: "string \<Rightarrow> string \<Rightarrow> u32 \<Rightarrow> error option" where
  "validateCreateQueue route name sz =
     (if length route = 0 then Some ErrInvalidRoutingKey
      else if length name = 0 then Some HandlerErrInvalidQueueName
      else if sz = 0 then Some ErrInvalidSize else None)"

definition validateAck :: "string \<Rightarrow> bytes \<Rightarrow> error option" where
  "validateAck queue i =
     (if length queue = 0 then Some HandlerErrInvalidQueueName
      else if length i = 0 then Some ErrInvalidId else None)"

definition validateBatchAck :: "string \<Rightarrow> bytes list \<Rightarrow> error option" where
  "validateBatchAck queue ids =
     (if length queue = 0 then Some HandlerErrInvalidQueueName
      else if length ids = 0 then Some ErrInvalidId else None)"

definition validateChangePassword :: "string \<Rightarrow> string \<Rightarrow> string \<Rightarrow> error option" where
  "validateChangePassword username oldPassword newPassword =
     (if length username = 0 then Some ErrInvalidUsername
      else if length oldPassword = 0 then Some ErrInvalidOldPassword
      else if length newPassword = 0 then Some ErrInvalidNewPassword else None)"

definition validateUsernamePassword :: "string \<Rightarrow> string \<Rightarrow> error option" where
  "validateUsernamePassword username newPassword =
     (if length username = 0 then Some ErrInvalidUsername
      else if length newPassword = 0 then Some ErrInvalidNewPassword else None)"

definition validateRoutingKeyChange :: "string \<Rightarrow> string \<Rightarrow> error option" where
  "validateRoutingKeyChange queue route =
     (if length route = 0 then Some ErrInvalidRoutingKey
      else if length queue = 0 then Some HandlerErrInvalidQueueName else None)"

section \<open>Context and commands\<close>

datatype ctxValue = CtxString string | CtxBytes bytes | CtxOther

type_synonym goContext = "string \<Rightarrow> ctxValue option"

definition getStringFromCtx :: "goContext \<Rightarrow> string \<Rightarrow> error + string" where
  "getStringFromCtx ctx key =
     (case ctx key of Some (CtxString str) \<Rightarrow> Inr str | _ \<Rightarrow> Inl UserCannotBeFound)"

definition getBytesFromCtx :: "goContext \<Rightarrow> string \<Rightarrow> error + bytes" where
  "getBytesFromCtx ctx key =
     (case ctx key of Some (CtxBytes bs) \<Rightarrow> Inr bs | _ \<Rightarrow> Inl UserCannotBeFound)"

text \<open>The payload structs, under the type they are marshalled from.\<close>

datatype sent =
    PAddRoute AddRoute
  | PMessageInfo MessageInfo
  | PRequest RequestMessageData
  | PQueueInfo QueueInfo
  | PAckUpdate AckUpdate
  | PChange ChangeCredentials
  | PDeleteQueue DeleteQueueInfo
  | PDeleteRoute DeleteRoute
  | PUserCreds UserCreds
  | PBatchMessages "Messages list"
  | PUser UserInformation
  | PBatchAck BatchAckUpdate
  | PBatchNack BatchNackUpdate
  | PRole Role
  | PRoleUser RoleUsername

type_synonym command = "error + (Operation \<times> sent \<times> string)"

definition allowed :: "error + bool \<Rightarrow> command \<Rightarrow> command" where
  "allowed permission k = onOk permission (\<lambda>ok. if \<not> ok then Inl NoPermission else k)"

definition asAdmin :: "syblineFSM \<Rightarrow> string \<Rightarrow> AdminPermission \<Rightarrow> command \<Rightarrow> command" where
  "asAdmin b username permission k = allowed (HasAdminPermission (fRoles b) username permission) k"

definition asUser :: "syblineFSM \<Rightarrow> string \<Rightarrow> string \<Rightarrow> Action \<Rightarrow> command \<Rightarrow> command" where
  "asUser b username entity permission k = allowed (HasPermission (fRoles b) username entity permission) k"

text \<open>
  \<open>sendCommand\<close>: the bytes that it gives to the batcher, for the two uses of the marshaller; and what
  it returns for the result that the batcher's channel delivers.
\<close>

definition sendCommand ::
    "(sent \<Rightarrow> error + bytes) \<Rightarrow> (CommandPayload \<Rightarrow> error + bytes) \<Rightarrow> Operation \<Rightarrow> sent \<Rightarrow> string \<Rightarrow>
     error + bytes" where
  "sendCommand marshal marshalCommand payloadType pl username =
     onOk (marshal pl) (\<lambda>jsonBytes.
       marshalCommand \<lparr>cpUsername = username, cpOp = payloadType, cpData = jsonBytes\<rparr>)"

definition commandResult :: "SyblineFSMResult option \<Rightarrow> resultData \<times> error option" where
  "commandResult sybResult =
     (case sybResult of
        None \<Rightarrow> (NoData, Some UnableToProcess)
      | Some r \<Rightarrow> (rData r, rErr r))"

section \<open>Requests\<close>

definition handler_AddRoutingKey :: "syblineFSM \<Rightarrow> goContext \<Rightarrow> string \<Rightarrow> string \<Rightarrow> command" where
  "handler_AddRoutingKey b ctx routingKey queue =
     onNil (validateRoutingKeyChange queue routingKey)
       (onOk (getStringFromCtx ctx ''username'') (\<lambda>username.
          asAdmin b username ALLOW_ADD_ROUTING_KEY
            (Inr (ADD_ROUTING_KEY, PAddRoute \<lparr>arQueueName = queue, arRouteName = routingKey\<rparr>, username))))"

definition handler_SubmitMessage ::
    "bytes \<Rightarrow> syblineFSM \<Rightarrow> goContext \<Rightarrow> string \<Rightarrow> bytes \<Rightarrow> command" where
  "handler_SubmitMessage uuid b ctx routingKey data =
     onNil (validateMessage data routingKey)
       (onOk (getStringFromCtx ctx ''username'') (\<lambda>username.
          asUser b username routingKey SUBMIT_MESSAGE_ACTION
            (Inr (SUBMIT_MESSAGE, PMessageInfo \<lparr>miRk = routingKey, miData = data, miId = uuid\<rparr>, username))))"

definition handler_GetMessages :: "i64 \<Rightarrow> syblineFSM \<Rightarrow> goContext \<Rightarrow> string \<Rightarrow> u32 \<Rightarrow> command" where
  "handler_GetMessages nowUnix b ctx queue n =
     onNil (validateRequestMessages queue n)
       (onOk (getStringFromCtx ctx ''username'') (\<lambda>username.
          onOk (getBytesFromCtx ctx ''consumerID'') (\<lambda>consumerID.
            asUser b username queue GET_MESSAGES_ACTION
              (Inr (GET_MESSAGES,
                 PRequest \<lparr>rmQueueName = queue, rmAmount = n, rmConsumerID = consumerID, rmTime = nowUnix\<rparr>,
                 username)))))"

text \<open>What \<open>GetMessages\<close> returns: the cast of any other result gives no messages.\<close>

definition handler_GetMessages_result :: "resultData \<times> error option \<Rightarrow> error + Message list" where
  "handler_GetMessages_result res =
     (case res of
        (d, Some err) \<Rightarrow> Inl err
      | (Msgs ms, None) \<Rightarrow> Inr ms
      | (d, None) \<Rightarrow> Inr [])"

definition handler_CreateQueue ::
    "syblineFSM \<Rightarrow> goContext \<Rightarrow> string \<Rightarrow> string \<Rightarrow> u32 \<Rightarrow> u32 \<Rightarrow> bool \<Rightarrow> command" where
  "handler_CreateQueue b ctx routingKey name sz retryLimit hasDLQueue =
     onNil (validateCreateQueue routingKey name sz)
       (onOk (getStringFromCtx ctx ''username'') (\<lambda>username.
          asAdmin b username ALLOW_CREATE_QUEUE
            (Inr (CREATE_QUEUE,
               PQueueInfo \<lparr>qiRoutingKey = routingKey, qiName = name, qiSize = sz,
                           qiRetryLimit = retryLimit, qiHasDLQueue = hasDLQueue\<rparr>,
               username))))"

definition ackRequest ::
    "(bytes \<Rightarrow> error option) \<Rightarrow> Operation \<Rightarrow> syblineFSM \<Rightarrow> goContext \<Rightarrow> string \<Rightarrow> bytes \<Rightarrow> command" where
  "ackRequest uuidFromBytes op b ctx queue i =
     onNil (validateAck queue i)
       (onNil (uuidFromBytes i)
         (onOk (getStringFromCtx ctx ''username'') (\<lambda>username.
            onOk (getBytesFromCtx ctx ''consumerID'') (\<lambda>consumerID.
              asUser b username queue ACK_ACTION
                (Inr (op, PAckUpdate \<lparr>auQueueName = queue, auId = i, auConsumerID = consumerID\<rparr>, username))))))"

definition handler_Ack ::
    "(bytes \<Rightarrow> error option) \<Rightarrow> syblineFSM \<Rightarrow> goContext \<Rightarrow> string \<Rightarrow> bytes \<Rightarrow> command" where
  "handler_Ack uuidFromBytes b ctx queue i = ackRequest uuidFromBytes ACK b ctx queue i"

definition handler_Nack ::
    "(bytes \<Rightarrow> error option) \<Rightarrow> syblineFSM \<Rightarrow> goContext \<Rightarrow> string \<Rightarrow> bytes \<Rightarrow> command" where
  "handler_Nack uuidFromBytes b ctx queue i = ackRequest uuidFromBytes NACK b ctx queue i"

definition handler_Login ::
    "(bytes \<Rightarrow> bytes) \<Rightarrow> string \<Rightarrow> kdf \<Rightarrow> string \<Rightarrow> bytes \<Rightarrow> int \<Rightarrow>
     (PropagateSessionRequest \<Rightarrow> error option) list \<Rightarrow> authManager \<Rightarrow> string \<Rightarrow> string \<Rightarrow>
     (error + string) \<times> authManager \<times> PropagateSessionRequest list" where
  "handler_Login sha512 salt key token i now clients a username password =
     (if length username = 0 then (Inl ErrInvalidUsername, a, [])
      else if length password = 0 then (Inl ErrInvalidPassword, a, [])
      else Login key token i now clients a username (GenerateHash sha512 password salt))"

text \<open>The parameter \<open>username\<close> is validated and then shadowed by the user of the context.\<close>

definition handler_ChangePassword ::
    "(bytes \<Rightarrow> bytes) \<Rightarrow> string \<Rightarrow> syblineFSM \<Rightarrow> goContext \<Rightarrow> string \<Rightarrow> string \<Rightarrow> string \<Rightarrow> command" where
  "handler_ChangePassword sha512 salt b ctx reqUsername oldPass newPass =
     onNil (validateChangePassword reqUsername oldPass newPass)
       (onOk (getStringFromCtx ctx ''username'') (\<lambda>username.
          asAdmin b username ALLOW_CHANGE_PASSWORD
            (Inr (CHANGE_PASSWORD,
               PChange \<lparr>ccUsername = username, ccOldPassword = GenerateHash sha512 oldPass salt,
                        ccNewPassword = GenerateHash sha512 newPass salt\<rparr>,
               username))))"

definition handler_DeleteQueue :: "syblineFSM \<Rightarrow> goContext \<Rightarrow> string \<Rightarrow> command" where
  "handler_DeleteQueue b ctx queue =
     (if length queue = 0 then Inl HandlerErrInvalidQueueName
      else
        onOk (getStringFromCtx ctx ''username'') (\<lambda>username.
          asAdmin b username ALLOW_DELETE_QUEUE
            (Inr (DELETE_QUEUE, PDeleteQueue \<lparr>dqQueueName = queue\<rparr>, username))))"

definition handler_DeleteRoutingKey :: "syblineFSM \<Rightarrow> goContext \<Rightarrow> string \<Rightarrow> string \<Rightarrow> command" where
  "handler_DeleteRoutingKey b ctx routingKey queue =
     onNil (validateRoutingKeyChange queue routingKey)
       (onOk (getStringFromCtx ctx ''username'') (\<lambda>username.
          asAdmin b username ALLOW_DELETE_ROUTING_KEY
            (Inr (DELETE_ROUTING_KEY, PDeleteRoute \<lparr>dlQueueName = queue, dlRouteName = routingKey\<rparr>, username))))"

definition handler_CreateUser ::
    "(bytes \<Rightarrow> bytes) \<Rightarrow> string \<Rightarrow> syblineFSM \<Rightarrow> goContext \<Rightarrow> string \<Rightarrow> string \<Rightarrow> command" where
  "handler_CreateUser sha512 salt b ctx reqUsername password =
     onNil (validateUsernamePassword reqUsername password)
       (onOk (getStringFromCtx ctx ''username'') (\<lambda>username.
          asAdmin b username ALLOW_CREATE_USER
            (Inr (CREATE_ACCOUNT,
               PUserCreds \<lparr>ucUsername = reqUsername, ucPassword = GenerateHash sha512 password salt\<rparr>,
               username))))"

subsection \<open>Batches of messages\<close>

record MessageSubmit =
  subRoutingKey :: string
  subData :: bytes

record prebatch =
  pbData :: "bytes list"
  pbId :: "bytes list"

text \<open>
  The grouping loop. Every message takes the next fresh identifier; the permission is checked when a
  routing key is seen for the first time.
\<close>

fun groupMessages ::
    "syblineFSM \<Rightarrow> string \<Rightarrow> (nat \<Rightarrow> bytes) \<Rightarrow> nat \<Rightarrow> (string \<rightharpoonup> prebatch) \<Rightarrow> MessageSubmit list \<Rightarrow>
     error + (string \<rightharpoonup> prebatch)" where
  "groupMessages b username uuid i routes [] = Inr routes"
| "groupMessages b username uuid i routes (msg # messages) =
     onNil (validateMessage (subData msg) (subRoutingKey msg))
       (case routes (subRoutingKey msg) of
          Some pb \<Rightarrow>
            groupMessages b username uuid (Suc i)
              (routes(subRoutingKey msg \<mapsto>
                 pb\<lparr>pbData := pbData pb @ [subData msg], pbId := pbId pb @ [uuid i]\<rparr>)) messages
        | None \<Rightarrow>
            onOk (HasPermission (fRoles b) username (subRoutingKey msg) SUBMIT_BATCH_ACTION) (\<lambda>ok.
              if \<not> ok then Inl NoPermission
              else groupMessages b username uuid (Suc i)
                     (routes(subRoutingKey msg \<mapsto> \<lparr>pbData = [subData msg], pbId = [uuid i]\<rparr>)) messages))"

definition handler_SubmitBatchedMessages ::
    "((string \<rightharpoonup> prebatch) \<Rightarrow> string list) \<Rightarrow> (nat \<Rightarrow> bytes) \<Rightarrow> syblineFSM \<Rightarrow> goContext \<Rightarrow>
     MessageSubmit list \<Rightarrow> command" where
  "handler_SubmitBatchedMessages order uuid b ctx messages =
     onOk (getStringFromCtx ctx ''username'') (\<lambda>username.
       onOk (groupMessages b username uuid 0 Map.empty messages) (\<lambda>routes.
         Inr (SUBMIT_BATCH_MESSAGE,
              PBatchMessages
                (List.map_filter
                   (\<lambda>rk. map_option (\<lambda>pb. \<lparr>msRK = rk, msData = pbData pb, msIds = pbId pb\<rparr>) (routes rk))
                   (order routes)),
              username)))"

subsection \<open>Accounts, batches of acknowledgements and roles\<close>

definition handler_IsLeaderNode :: "'s option \<Rightarrow> 's \<Rightarrow> error + bool" where
  "handler_IsLeaderNode raftState leader =
     (case raftState of None \<Rightarrow> Inl ErrRaftNotIntialised | Some s \<Rightarrow> Inr (s = leader))"

definition handler_DeleteUser :: "syblineFSM \<Rightarrow> goContext \<Rightarrow> string \<Rightarrow> command" where
  "handler_DeleteUser b ctx reqUsername =
     (if length reqUsername = 0 then Inl ErrInvalidUsername
      else
        onOk (getStringFromCtx ctx ''username'') (\<lambda>username.
          asAdmin b username ALLOW_DELETE_USER
            (Inr (DELETE_USER, PUser \<lparr>uiUsername = reqUsername\<rparr>, username))))"

definition handler_BatchAck :: "syblineFSM \<Rightarrow> goContext \<Rightarrow> string \<Rightarrow> bytes list \<Rightarrow> command" where
  "handler_BatchAck b ctx queue ids =
     onNil (validateBatchAck queue ids)
       (onOk (getStringFromCtx ctx ''username'') (\<lambda>username.
          asUser b username queue BATCH_ACK_ACTION
            (onOk (getBytesFromCtx ctx ''consumerID'') (\<lambda>consumerID.
               Inr (BATCH_ACK, PBatchAck \<lparr>baQueueName = queue, baIds = ids, baConsumerID = consumerID\<rparr>, username)))))"

text \<open>The operation that \<open>BatchNack\<close> sends is \<open>fsm.BATCH_ACK\<close>.\<close>

definition handler_BatchNack :: "syblineFSM \<Rightarrow> goContext \<Rightarrow> string \<Rightarrow> bytes list \<Rightarrow> command" where
  "handler_BatchNack b ctx queue ids =
     onNil (validateBatchAck queue ids)
       (onOk (getStringFromCtx ctx ''username'') (\<lambda>username.
          asUser b username queue BATCH_ACK_ACTION
            (onOk (getBytesFromCtx ctx ''consumerID'') (\<lambda>consumerID.
               Inr (BATCH_ACK, PBatchNack \<lparr>bnQueueName = queue, bnIds = ids, bnConsumerID = consumerID\<rparr>, username)))))"

definition handler_LogOut ::
    "(DeleteSessionRequest \<Rightarrow> error option) list \<Rightarrow> authManager \<Rightarrow> goContext \<Rightarrow> error option \<times> authManager" where
  "handler_LogOut clients a ctx =
     (case getStringFromCtx ctx ''username'' of
        Inl err \<Rightarrow> (Some err, a)
      | Inr username \<Rightarrow>
          (case getStringFromCtx ctx ''token'' of
             Inl err \<Rightarrow> (Some err, a)
           | Inr token \<Rightarrow> LogOut clients a username token))"

definition handler_CreateRole ::
    "(string \<Rightarrow> error + (string \<times> json) list) \<Rightarrow> syblineFSM \<Rightarrow> goContext \<Rightarrow> string \<Rightarrow> command" where
  "handler_CreateRole unmarshal b ctx role =
     onOk (getStringFromCtx ctx ''username'') (\<lambda>username.
       asAdmin b username ALLOW_CREATE_ROLE
         (onOk (CreateRole unmarshal (fRoles b) role) (\<lambda>roleConvert.
            Inr (CREATE_ROLE, PRole roleConvert, username))))"

definition roleRequest ::
    "error \<Rightarrow> Operation \<Rightarrow> syblineFSM \<Rightarrow> goContext \<Rightarrow> string \<Rightarrow> string \<Rightarrow> command" where
  "roleRequest invalid op b ctx role reqUsername =
     (if length role = 0 \<or> length reqUsername = 0 then Inl invalid
      else if \<not> UserExists (fAuth b) reqUsername then Inl (UserDoesNotExist reqUsername)
      else if \<not> RoleExists (fRoles b) role then Inl (RoleDoesNotExist role)
      else
        onOk (getStringFromCtx ctx ''username'') (\<lambda>username.
          asAdmin b username ALLOW_ASSIGN_ROLE
            (Inr (op, PRoleUser \<lparr>ruRole = role, ruUsername = reqUsername\<rparr>, username))))"

definition handler_AssignRole :: "syblineFSM \<Rightarrow> goContext \<Rightarrow> string \<Rightarrow> string \<Rightarrow> command" where
  "handler_AssignRole b ctx role reqUsername =
     roleRequest InvalidAssignRequest ASSIGN_ROLE b ctx role reqUsername"

text \<open>\<open>UnassignRole\<close> asks for the permission to assign roles.\<close>

definition handler_UnassignRole :: "syblineFSM \<Rightarrow> goContext \<Rightarrow> string \<Rightarrow> string \<Rightarrow> command" where
  "handler_UnassignRole b ctx role reqUsername =
     roleRequest InvalidUnassignRequest UNASSIGN_ROLE b ctx role reqUsername"

lemmas handler_defs [op_defs] =
  handler_AddRoutingKey_def handler_SubmitMessage_def handler_GetMessages_def handler_CreateQueue_def
  handler_Ack_def handler_Nack_def handler_ChangePassword_def handler_DeleteQueue_def
  handler_DeleteRoutingKey_def handler_CreateUser_def handler_DeleteUser_def handler_BatchAck_def
  handler_BatchNack_def handler_CreateRole_def handler_AssignRole_def handler_UnassignRole_def

end
