(* ===== verification/HandlerInv.thy ===== *)
theory HandlerInv
  imports Handler
begin

text \<open>
  How the handler and the state machine fit together: the permission that the handler checks is the
  one that the machine checks again, and a batch of messages is grouped by routing key without loss.
\<close>

section \<open>Encoding\<close>

text \<open>
  What is used of msgpack: a payload that was marshalled from a struct decodes to the same struct, and
  a struct is encoded by the names of its fields, so that a negative batch acknowledgement decodes as
  a batch acknowledgement with the same values.
\<close>

definition asAck :: "BatchNackUpdate \<Rightarrow> BatchAckUpdate" where
  "asAck x = \<lparr>baQueueName = bnQueueName x, baIds = bnIds x, baConsumerID = bnConsumerID x\<rparr>"

definition roundTrip :: "codec \<Rightarrow> (sent \<Rightarrow> error + bytes) \<Rightarrow> bool" where
  "roundTrip cd marshal \<longleftrightarrow>
     (\<forall>x d. marshal (PMessageInfo x) = Inr d \<longrightarrow> decMessageInfo cd d = Inr x) \<and>
     (\<forall>x d. marshal (PRequest x) = Inr d \<longrightarrow> decRequest cd d = Inr x) \<and>
     (\<forall>x d. marshal (PAckUpdate x) = Inr d \<longrightarrow> decAckUpdate cd d = Inr x) \<and>
     (\<forall>x d. marshal (PBatchMessages x) = Inr d \<longrightarrow> decBatchMessages cd d = Inr x) \<and>
     (\<forall>x d. marshal (PBatchAck x) = Inr d \<longrightarrow> decBatchAck cd d = Inr x) \<and>
     (\<forall>x d. marshal (PBatchNack x) = Inr d \<longrightarrow> decBatchAck cd d = Inr (asAck x))"

abbreviation commandOf :: "Operation \<Rightarrow> string \<Rightarrow> bytes \<Rightarrow> CommandPayload" where
  "commandOf op u d \<equiv> \<lparr>cpUsername = u, cpOp = op, cpData = d\<rparr>"

section \<open>Authorisation at both ends\<close>

lemma allowed_Inr: "allowed perm k = Inr y \<longleftrightarrow> perm = Inr True \<and> k = Inr y"
  by (cases perm) (auto simp: allowed_def onOk_def)

lemmas request_simps = onOk_Inr onNil_Inr allowed_Inr asAdmin_def asUser_def ackRequest_def roleRequest_def

section \<open>Batches of messages\<close>

text \<open>The messages for a routing key, with their positions.\<close>

definition picked :: "nat \<Rightarrow> string \<Rightarrow> MessageSubmit list \<Rightarrow> (nat \<times> MessageSubmit) list" where
  "picked i rk msgs = filter (\<lambda>p. subRoutingKey (snd p) = rk) (enumerate i msgs)"

lemma picked_Nil: "picked i rk msgs = [] \<longleftrightarrow> rk \<notin> set (map subRoutingKey msgs)"
  by (induction msgs arbitrary: i) (auto simp: picked_def)

definition extendBatch :: "prebatch option \<Rightarrow> (nat \<Rightarrow> bytes) \<Rightarrow> (nat \<times> MessageSubmit) list \<Rightarrow> prebatch option" where
  "extendBatch old uuid ps =
     (if ps = [] then old
      else Some \<lparr>pbData = (case old of None \<Rightarrow> [] | Some pb \<Rightarrow> pbData pb) @ map (\<lambda>p. subData (snd p)) ps,
                 pbId = (case old of None \<Rightarrow> [] | Some pb \<Rightarrow> pbId pb) @ map (\<lambda>p. uuid (fst p)) ps\<rparr>)"

lemma groupMessages_picked:
  "groupMessages b u uuid i routes msgs = Inr r \<Longrightarrow> r rk = extendBatch (routes rk) uuid (picked i rk msgs)"
proof (induction msgs arbitrary: i routes)
  case (Cons m msgs)
  let ?k = "subRoutingKey m"
  let ?pb = "case routes ?k of None \<Rightarrow> \<lparr>pbData = [subData m], pbId = [uuid i]\<rparr>
    | Some pb \<Rightarrow> pb\<lparr>pbData := pbData pb @ [subData m], pbId := pbId pb @ [uuid i]\<rparr>"
  from Cons.prems have "groupMessages b u uuid (Suc i) (routes(?k \<mapsto> ?pb)) msgs = Inr r"
    by (auto simp: onNil_Inr onOk_Inr split: option.splits if_splits)
  from Cons.IH[OF this] show ?case
    by (cases "?k = rk") (auto simp: picked_def extendBatch_def split: option.splits)
qed (simp add: picked_def extendBatch_def)

lemma groupMessages_permission:
  assumes "groupMessages b u uuid i routes msgs = Inr r" "r rk \<noteq> None" "routes rk = None"
  shows "HasPermission (fRoles b) u rk SUBMIT_BATCH_ACTION = Inr True"
  using assms
proof (induction msgs arbitrary: i routes)
  case (Cons m msgs)
  show ?case
  proof (cases "subRoutingKey m = rk")
    case True
    with Cons.prems show ?thesis by (auto simp: onNil_Inr onOk_Inr split: if_splits)
  next
    case False
    with Cons.prems Cons.IH show ?thesis
      by (auto simp: onNil_Inr onOk_Inr split: option.splits if_splits)
  qed
qed simp

section \<open>Requests\<close>

text \<open>All requests that end in a command, with their arguments.\<close>

datatype request =
    ReqAddRoutingKey string string
  | ReqSubmitMessage bytes string bytes
  | ReqGetMessages i64 string u32
  | ReqCreateQueue string string u32 u32 bool
  | ReqAck string bytes
  | ReqNack string bytes
  | ReqChangePassword string string string
  | ReqDeleteQueue string
  | ReqDeleteRoutingKey string string
  | ReqCreateUser string string
  | ReqSubmitBatch "nat \<Rightarrow> bytes" "MessageSubmit list"
  | ReqDeleteUser string
  | ReqBatchAck string "bytes list"
  | ReqBatchNack string "bytes list"
  | ReqCreateRole string
  | ReqAssignRole string string
  | ReqUnassignRole string string

text \<open>What a handler is given by its libraries: hash, salt, identifier check, JSON decoder, map order.\<close>

record handlerEnv =
  heSha :: "bytes \<Rightarrow> bytes"
  heSalt :: string
  heUuid :: "bytes \<Rightarrow> error option"
  heJson :: "string \<Rightarrow> error + (string \<times> json) list"
  heOrder :: "(string \<rightharpoonup> prebatch) \<Rightarrow> string list"

fun handle :: "handlerEnv \<Rightarrow> syblineFSM \<Rightarrow> goContext \<Rightarrow> request \<Rightarrow> command" where
  "handle he b ctx (ReqAddRoutingKey rk q) = handler_AddRoutingKey b ctx rk q"
| "handle he b ctx (ReqSubmitMessage i rk d) = handler_SubmitMessage i b ctx rk d"
| "handle he b ctx (ReqGetMessages now q n) = handler_GetMessages now b ctx q n"
| "handle he b ctx (ReqCreateQueue rk q sz limit dlq) = handler_CreateQueue b ctx rk q sz limit dlq"
| "handle he b ctx (ReqAck q i) = handler_Ack (heUuid he) b ctx q i"
| "handle he b ctx (ReqNack q i) = handler_Nack (heUuid he) b ctx q i"
| "handle he b ctx (ReqChangePassword u old new) = handler_ChangePassword (heSha he) (heSalt he) b ctx u old new"
| "handle he b ctx (ReqDeleteQueue q) = handler_DeleteQueue b ctx q"
| "handle he b ctx (ReqDeleteRoutingKey rk q) = handler_DeleteRoutingKey b ctx rk q"
| "handle he b ctx (ReqCreateUser u pw) = handler_CreateUser (heSha he) (heSalt he) b ctx u pw"
| "handle he b ctx (ReqSubmitBatch uuid ms) = handler_SubmitBatchedMessages (heOrder he) uuid b ctx ms"
| "handle he b ctx (ReqDeleteUser u) = handler_DeleteUser b ctx u"
| "handle he b ctx (ReqBatchAck q ids) = handler_BatchAck b ctx q ids"
| "handle he b ctx (ReqBatchNack q ids) = handler_BatchNack b ctx q ids"
| "handle he b ctx (ReqCreateRole role) = handler_CreateRole (heJson he) b ctx role"
| "handle he b ctx (ReqAssignRole role u) = handler_AssignRole b ctx role u"
| "handle he b ctx (ReqUnassignRole role u) = handler_UnassignRole b ctx role u"

end
