(* ===== verification/HandlerProperties.thy ===== *)
theory HandlerProperties
  imports HandlerInv FsmProperties
begin

text \<open>
  The properties of the request handler: every command it sends is one that the state machine will
  accept by the same roles, but for the removal of a role from a user; a batch is grouped without loss, and the negative batch acknowledgement is
  applied as an acknowledgement.
\<close>

section \<open>Authorisation of requests\<close>

text \<open>The batch that is sent has the keys of the grouping, each with a permission.\<close>

lemma batch_request_authorised:
  assumes "roundTrip cd marshal" "marshal pl = Inr d"
    and "handler_SubmitBatchedMessages order uuid b ctx ms = Inr (op, pl, u)"
  shows "op = SUBMIT_BATCH_MESSAGE \<and> authorised cd (fRoles b) (commandOf op u d)"
proof -
  from assms(3) obtain r where r: "groupMessages b u uuid 0 Map.empty ms = Inr r" "op = SUBMIT_BATCH_MESSAGE"
    "pl = PBatchMessages (List.map_filter
       (\<lambda>rk. map_option (\<lambda>pb. \<lparr>msRK = rk, msData = pbData pb, msIds = pbId pb\<rparr>) (r rk)) (order r))"
    by (auto simp: handler_SubmitBatchedMessages_def onOk_Inr)
  have "HasPermission (fRoles b) u rk SUBMIT_BATCH_ACTION = Inr True" if "r rk = Some pb" for rk pb
    using groupMessages_permission[OF r(1), of rk] that by simp
  with r assms(1,2) show ?thesis
    by (auto simp: authorised_def adminTable_def actionTable_def entities_def roundTrip_def list_all_iff
        List.map_filter_def)
qed

lemma handle_user: "handle he b ctx req = Inr (op, pl, u) \<Longrightarrow> ctx ''username'' = Some (CtxString u)"
  by (cases req) (auto simp: handler_defs handler_SubmitBatchedMessages_def request_simps getStringFromCtx_def
      split: option.splits ctxValue.splits if_splits)

text \<open>
  For the removal of a role from a user the handler asks for the permission to assign roles, and the state
  machine for the one to unassign them; for all other commands both ask for the same.
\<close>

lemma handle_authorised:
  assumes "roundTrip cd marshal" "marshal pl = Inr d" "handle he b ctx req = Inr (op, pl, u)"
  shows "if op = UNASSIGN_ROLE then HasAdminPermission (fRoles b) u ALLOW_ASSIGN_ROLE = Inr True
    else authorised cd (fRoles b) (commandOf op u d)"
proof (cases req)
  case (ReqSubmitBatch uuid ms)
  with assms(3) have "handler_SubmitBatchedMessages (heOrder he) uuid b ctx ms = Inr (op, pl, u)" by simp
  from batch_request_authorised[OF assms(1,2) this] show ?thesis by auto
qed (use assms in \<open>auto simp: handler_defs request_simps authorised_def adminTable_def actionTable_def
      entities_def roundTrip_def asAck_def split: if_splits\<close>)

section \<open>Properties\<close>

text \<open>
  A marshaller for the witnesses: it encodes the payloads that the decoder of the demonstration knows,
  and a negative batch acknowledgement.
\<close>

definition demoMarshal :: "sent \<Rightarrow> error + bytes" where
  "demoMarshal pl =
     (case pl of
        PMessageInfo x \<Rightarrow> if x = \<lparr>miRk = ''k'', miData = [11], miId = [1]\<rparr> then Inr [] else Inl MissingAction
      | PBatchNack x \<Rightarrow> if x = \<lparr>bnQueueName = ''q'', bnIds = [[1], [2]], bnConsumerID = [7]\<rparr> then Inr [] else Inl MissingAction
      | _ \<Rightarrow> Inl MissingAction)"

definition demoCodec' :: codec where
  "demoCodec' = demoCodec\<lparr>decBatchAck := (\<lambda>_. Inr \<lparr>baQueueName = ''q'', baIds = [[1], [2]], baConsumerID = [7]\<rparr>)\<rparr>"

lemma demo_roundTrip: "roundTrip demoCodec' demoMarshal"
  by (auto simp: roundTrip_def demoMarshal_def demoCodec'_def demoCodec_def asAck_def split: if_splits)

definition demoCtx :: goContext where
  "demoCtx = [''username'' \<mapsto> CtxString ''root'', ''consumerID'' \<mapsto> CtxBytes [7], ''token'' \<mapsto> CtxString ''t'']"

definition demoHe :: handlerEnv where
  "demoHe = \<lparr>heSha = id, heSalt = ''salt'', heUuid = (\<lambda>_. None), heJson = (\<lambda>_. Inr []),
     heOrder = (\<lambda>r. sorted_list_of_set (dom r))\<rparr>"

lemma demo_permission:
  "entity \<in> {''k'', ''q'', ''a''} \<Longrightarrow> p \<in> {SUBMIT_MESSAGE_ACTION, SUBMIT_BATCH_ACTION, BATCH_ACK_ACTION} \<Longrightarrow>
     HasPermission demoRoles ''root'' entity p = Inr True"
  by (auto simp: HasPermission_iff demoRoles_def roleROOT_def roleVerdict_def actionMap_def anyAllow_def)

text \<open>
  The handler and the state machine check the same permissions. A request that the handler turns into
  a command carries the user of the request's context, and the state machine, at the same roles, finds the
  command authorised. The removal of a role from a user is the one request for which this fails.
\<close>

theorem sent_command_authorised:
  assumes "roundTrip cd marshal" "marshal pl = Inr d" "handle he b ctx req = Inr (op, pl, u)" "op \<noteq> UNASSIGN_ROLE"
  shows "ctx ''username'' = Some (CtxString u) \<and> authorised cd (fRoles b) (commandOf op u d)"
  using handle_user[OF assms(3)] handle_authorised[OF assms(1-3)] assms(4) by simp

theorem sent_command_authorised_witness:
  "demoCtx ''username'' = Some (CtxString ''root'') \<and>
   authorised demoCodec' (fRoles demoFsm) (commandOf SUBMIT_MESSAGE ''root'' [])"
proof (rule sent_command_authorised[OF demo_roundTrip])
  show "demoMarshal (PMessageInfo \<lparr>miRk = ''k'', miData = [11], miId = [1]\<rparr>) = Inr []" by (simp add: demoMarshal_def)
  show "handle demoHe demoFsm demoCtx (ReqSubmitMessage [1] ''k'' [11]) =
      Inr (SUBMIT_MESSAGE, PMessageInfo \<lparr>miRk = ''k'', miData = [11], miId = [1]\<rparr>, ''root'')"
    by (simp add: handler_SubmitMessage_def validateMessage_def onNil_def onOk_def getStringFromCtx_def demoCtx_def
        asUser_def allowed_def demoFsm_def demo_permission)
qed simp

text \<open>
  C30: A batch is grouped without loss. The command holds one entry per routing key of the request; its
  data are the messages for that key in their order, each with the identifier that was drawn for it, so the
  state machine has an identifier for every message.
\<close>

theorem batch_grouping:
  assumes "handler_SubmitBatchedMessages order uuid b ctx msgs = Inr (op, PBatchMessages out, u)"
    and "\<And>r. finite (dom r) \<Longrightarrow> mapOrder (order r) r"
  shows "wellBatched out \<and> distinct (map msRK out) \<and> set (map msRK out) = set (map subRoutingKey msgs) \<and>
    (\<forall>m\<in>set out. msData m = map (\<lambda>p. subData (snd p)) (picked 0 (msRK m) msgs) \<and>
       msIds m = map (\<lambda>p. uuid (fst p)) (picked 0 (msRK m) msgs))"
proof -
  let ?f = "\<lambda>r rk. map_option (\<lambda>pb. \<lparr>msRK = rk, msData = pbData pb, msIds = pbId pb\<rparr>) (r rk)"
  from assms(1) obtain r where r: "groupMessages b u uuid 0 Map.empty msgs = Inr r"
    "out = List.map_filter (?f r) (order r)"
    by (auto simp: handler_SubmitBatchedMessages_def onOk_Inr)
  note p = groupMessages_picked[OF r(1)]
  have dom: "dom r = set (map subRoutingKey msgs)"
    by (auto simp: p extendBatch_def picked_Nil dom_def split: if_splits)
  then have ord: "distinct (order r)" "set (order r) = dom r"
    using assms(2)[of r] by (simp_all add: mapOrder_def)
  have rk: "map msRK (List.map_filter (?f r) ks) = ks" if "set ks \<subseteq> dom r" for ks
    using that by (induction ks) (auto simp: List.map_filter_simps split: option.split)
  have out: "map msRK out = order r" using rk[of "order r"] ord r(2) by simp
  have el: "msData m = map (\<lambda>p. subData (snd p)) (picked 0 (msRK m) msgs) \<and>
      msIds m = map (\<lambda>p. uuid (fst p)) (picked 0 (msRK m) msgs)" if "m \<in> set out" for m
    using that by (auto simp: r(2) List.map_filter_def p extendBatch_def split: if_splits)
  then have "wellBatched out" by (auto simp: wellBatched_def list_all_iff)
  with el out ord dom show ?thesis by simp
qed

text \<open>Witness for C30: three messages for two routing keys.\<close>

theorem batch_grouping_witness:
  "\<exists>out. handler_SubmitBatchedMessages (heOrder demoHe) (\<lambda>i. [of_nat i]) demoFsm demoCtx
       [\<lparr>subRoutingKey = ''k'', subData = [1]\<rparr>, \<lparr>subRoutingKey = ''a'', subData = [2]\<rparr>, \<lparr>subRoutingKey = ''k'', subData = [3]\<rparr>] =
       Inr (SUBMIT_BATCH_MESSAGE, PBatchMessages out, ''root'') \<and>
     wellBatched out \<and> set (map msRK out) = {''k'', ''a''}"
proof -
  let ?ms = "[\<lparr>subRoutingKey = ''k'', subData = [1]\<rparr>, \<lparr>subRoutingKey = ''a'', subData = [2]\<rparr>, \<lparr>subRoutingKey = ''k'', subData = [3]\<rparr>]"
  have "\<exists>out. handler_SubmitBatchedMessages (heOrder demoHe) (\<lambda>i. [of_nat i]) demoFsm demoCtx ?ms =
      Inr (SUBMIT_BATCH_MESSAGE, PBatchMessages out, ''root'')"
    by (simp add: handler_SubmitBatchedMessages_def validateMessage_def onNil_def onOk_def getStringFromCtx_def
        demoCtx_def demoFsm_def demo_permission)
  then obtain out where out: "handler_SubmitBatchedMessages (heOrder demoHe) (\<lambda>i. [of_nat i]) demoFsm demoCtx ?ms =
      Inr (SUBMIT_BATCH_MESSAGE, PBatchMessages out, ''root'')" by blast
  have "mapOrder (heOrder demoHe r) r" if "finite (dom r)" for r
    using that by (simp add: demoHe_def mapOrder_def)
  from batch_grouping[OF out this] have "wellBatched out" "set (map msRK out) = {''k'', ''a''}" by auto
  with out show ?thesis by blast
qed

text \<open>
  C31: A negative batch acknowledgement acknowledges. The command that the handler sends for it is applied
  as a batch acknowledgement of the same messages by the same consumer: they are removed instead of being
  given back.
\<close>

theorem batch_nack_request_acknowledges:
  assumes "roundTrip cd marshal" "handler_BatchNack b ctx q ids = Inr (op, pl, u)" "marshal pl = Inr d"
  shows "\<exists>c. ctx ''consumerID'' = Some (CtxBytes c) \<and>
    dispatch cd e b (commandOf op u d) =
      do { (err, m) \<leftarrow> consumerManager_BatchAck (qm b) q ids c; finished (setQm b m) err }"
proof -
  from assms(2) obtain c where c: "op = BATCH_ACK" "pl = PBatchNack \<lparr>bnQueueName = q, bnIds = ids, bnConsumerID = c\<rparr>"
    "getBytesFromCtx ctx ''consumerID'' = Inr c" "HasPermission (fRoles b) u q BATCH_ACK_ACTION = Inr True"
    by (auto simp: handler_BatchNack_def request_simps)
  have "ctx ''consumerID'' = Some (CtxBytes c)"
    using c(3) by (auto simp: getBytesFromCtx_def split: option.splits ctxValue.splits)
  moreover have "decBatchAck cd d = Inr \<lparr>baQueueName = q, baIds = ids, baConsumerID = c\<rparr>"
    using assms(1,3) c(2) by (auto simp: roundTrip_def asAck_def)
  ultimately show ?thesis
    using c(1,4) by (simp add: dispatch_def apply_BATCH_ACK_def checked_def)
qed

theorem batch_nack_request_acknowledges_witness:
  "\<exists>pl. handler_BatchNack demoFsm demoCtx ''q'' [[1], [2]] = Inr (BATCH_ACK, pl, ''root'') \<and>
     dispatch demoCodec' (demoEnv True) demoFsm (commandOf BATCH_ACK ''root'' []) =
       do { (err, m) \<leftarrow> consumerManager_BatchAck (qm demoFsm) ''q'' [[1], [2]] [7]; finished (setQm demoFsm m) err }"
proof -
  let ?pl = "PBatchNack \<lparr>bnQueueName = ''q'', bnIds = [[1], [2]], bnConsumerID = [7]\<rparr>"
  have h: "handler_BatchNack demoFsm demoCtx ''q'' [[1], [2]] = Inr (BATCH_ACK, ?pl, ''root'')"
    by (simp add: handler_BatchNack_def validateBatchAck_def onNil_def onOk_def getStringFromCtx_def getBytesFromCtx_def
        demoCtx_def asUser_def allowed_def demoFsm_def demo_permission)
  have "demoMarshal ?pl = Inr []" by (simp add: demoMarshal_def)
  from batch_nack_request_acknowledges[OF demo_roundTrip h this, of "demoEnv True"] h show ?thesis
    by (auto simp: demoCtx_def)
qed

end
