(* ===== verification/Batcher.thy ===== *)
theory Batcher
  imports FsmRuns
begin

text \<open>
  The batcher (\<open>pkg/fsm/batcher.go\<close>).
  Requests are collected in a slice; a full slice, or a timer, sends it through raft as one log entry, and
  every result goes to the channel of the request with the same index.

  Raft is third-party code: \<open>app\<close> gives, for its state and the bytes of a log, what \<open>ApplyLog\<close> returns
  (an error, a value that cannot be cast, or the results) and its new state; it has no value when the state
  machine that raft calls panics, which ends the process. \<open>mar\<close> is the msgpack encoder.
  A slice of channels is named by a number, a channel by that number and its index. \<open>None\<close> as the result
  of an operation means that it panics, or blocks on a full channel.
\<close>

section \<open>State\<close>

record DataIndex =
  diData :: bytes
  diId :: nat

record batcher =
  inputChan :: "DataIndex list"
  nextFreeIndex :: nat
  dataSlice :: "bytes option list"
  batchLength :: nat
  outputChans :: nat
  freshChans :: nat
  waitCount :: nat
  chanBuf :: "nat \<Rightarrow> nat \<Rightarrow> SyblineFSMResult option list"

type_synonym marshaller = "bytes option list \<Rightarrow> error + bytes"
type_synonym 's raftApply = "'s \<Rightarrow> bytes \<Rightarrow> ((error + SyblineFSMResult list option) \<times> 's) option"

definition NewBatcher :: "nat \<Rightarrow> batcher" where
  "NewBatcher n =
     \<lparr>inputChan = [], nextFreeIndex = 0, dataSlice = replicate n None, batchLength = n,
      outputChans = 0, freshChans = 1, waitCount = 0, chanBuf = (\<lambda>_ _. [])\<rparr>"

section \<open>Operations\<close>

text \<open>A send on a channel of capacity one, of the slice \<open>g\<close>.\<close>

definition chanSend :: "nat \<Rightarrow> nat \<Rightarrow> SyblineFSMResult option \<Rightarrow> batcher \<Rightarrow> batcher option" where
  "chanSend g i v b =
     (if i < batchLength b \<and> chanBuf b g i = []
      then Some (b\<lparr>chanBuf := (chanBuf b)(g := (chanBuf b g)(i := [v]))\<rparr>) else None)"

fun sendAll :: "nat \<Rightarrow> nat \<Rightarrow> SyblineFSMResult option list \<Rightarrow> batcher \<Rightarrow> batcher option" where
  "sendAll g i [] b = Some b"
| "sendAll g i (v # vs) b = do { b' \<leftarrow> chanSend g i v b; sendAll g (Suc i) vs b' }"

definition sendLogs ::
    "marshaller \<Rightarrow> 's raftApply \<Rightarrow> 's \<Rightarrow> bytes option list \<Rightarrow> nat \<Rightarrow> batcher \<Rightarrow> ('s \<times> batcher) option" where
  "sendLogs mar app s datas outputs b =
     (case mar datas of
        Inl err \<Rightarrow> do { b' \<leftarrow> sendAll outputs 0 (replicate (length datas) None) b; Some (s, b') }
      | Inr marshalledSlice \<Rightarrow>
          (case app s marshalledSlice of
             None \<Rightarrow> None
           | Some (Inr (Some sybResult), s') \<Rightarrow> do { b' \<leftarrow> sendAll outputs 0 (map Some sybResult) b; Some (s', b') }
           | Some (_, s') \<Rightarrow> do { b' \<leftarrow> sendAll outputs 0 (replicate (length datas) None) b; Some (s', b') }))"

text \<open>Both goroutines start a new slice of data and of channels before they send the old one.\<close>

definition swapBatch :: "batcher \<Rightarrow> batcher" where
  "swapBatch b =
     b\<lparr>nextFreeIndex := 0, dataSlice := replicate (batchLength b) None,
       outputChans := freshChans b, freshChans := Suc (freshChans b)\<rparr>"

definition waitDone :: "batcher \<Rightarrow> batcher option" where
  "waitDone b = (if waitCount b = 0 then None else Some (b\<lparr>waitCount := waitCount b - 1\<rparr>))"

text \<open>One turn of the first goroutine of \<open>ProcessLogs\<close>, for an input channel that is not empty.\<close>

definition processInput ::
    "marshaller \<Rightarrow> 's raftApply \<Rightarrow> 's \<Rightarrow> batcher \<Rightarrow> ('s \<times> batcher) option" where
  "processInput mar app s b =
     (case inputChan b of
        [] \<Rightarrow> None
      | data # rest \<Rightarrow>
          if diId data < length (dataSlice b) then
            let b1 = b\<lparr>inputChan := rest, dataSlice := (dataSlice b)[diId data := Some (diData data)]\<rparr> in
            if int (diId data) \<noteq> int (batchLength b1) - 1 then
              do { b2 \<leftarrow> waitDone b1; Some (s, b2) }
            else
              do { (s', b2) \<leftarrow> sendLogs mar app s (dataSlice b1) (outputChans b1) (swapBatch b1);
                   b3 \<leftarrow> waitDone b2;
                   Some (s', b3) }
          else None)"

text \<open>One turn of the second goroutine, when the timer fires.\<close>

definition processTimer ::
    "marshaller \<Rightarrow> 's raftApply \<Rightarrow> 's \<Rightarrow> batcher \<Rightarrow> ('s \<times> batcher) option" where
  "processTimer mar app s b =
     (if dataSlice b = [] then None
      else if dataSlice b ! 0 = None then Some (s, b)
      else if nextFreeIndex b \<le> length (dataSlice b)
      then sendLogs mar app s (take (nextFreeIndex b) (dataSlice b)) (outputChans b) (swapBatch b)
      else None)"

text \<open>
  \<open>SendLog\<close> up to the wait, under the lock that all senders share, and after the wait; the result is the
  channel it returns.
\<close>

definition SendLog_begin :: "bytes \<Rightarrow> batcher \<Rightarrow> (nat \<times> batcher) option" where
  "SendLog_begin data b =
     (let currentIndex = nextFreeIndex b in
      if length (inputChan b) < batchLength b then
        Some (currentIndex,
          b\<lparr>nextFreeIndex := (currentIndex + 1) mod batchLength b, waitCount := waitCount b + 1,
            inputChan := inputChan b @ [\<lparr>diData = data, diId = currentIndex\<rparr>]\<rparr>)
      else None)"

definition SendLog_end :: "nat \<Rightarrow> batcher \<Rightarrow> (nat \<times> nat) option" where
  "SendLog_end currentIndex b =
     (if waitCount b = 0 \<and> currentIndex < batchLength b then Some (outputChans b, currentIndex) else None)"

section \<open>All interleavings\<close>

text \<open>
  \<open>SendLog\<close> holds a lock that only senders take, and the timer holds one that only the goroutines take, so
  their accesses to \<open>nextFreeIndex\<close> interleave. \<open>SendLog\<close> reads the index, reads it again to compute the next
  one, and stores it; the rest up to the wait touches nothing that the timer touches.
\<close>

definition SendLog_next :: "batcher \<Rightarrow> nat" where
  "SendLog_next b = (nextFreeIndex b + 1) mod batchLength b"

definition SendLog_send :: "bytes \<Rightarrow> nat \<Rightarrow> nat \<Rightarrow> batcher \<Rightarrow> batcher option" where
  "SendLog_send data currentIndex nxt b =
     (if length (inputChan b) < batchLength b then
        Some (b\<lparr>nextFreeIndex := nxt, waitCount := waitCount b + 1,
                 inputChan := inputChan b @ [\<lparr>diData = data, diId = currentIndex\<rparr>]\<rparr>)
      else None)"

text \<open>
  The timer reads the index, if there is something to send, and later resets it; what follows up to the
  release of its lock touches nothing that a sender changes. \<open>None\<close> is an index out of range.
\<close>

definition processTimer_begin :: "batcher \<Rightarrow> nat option option" where
  "processTimer_begin b =
     (if dataSlice b = [] then None
      else Some (if dataSlice b ! 0 = None then None else Some (nextFreeIndex b)))"

definition processTimer_end ::
    "marshaller \<Rightarrow> 's raftApply \<Rightarrow> 's \<Rightarrow> nat \<Rightarrow> batcher \<Rightarrow> ('s \<times> batcher) option" where
  "processTimer_end mar app s currentIndex b =
     (if currentIndex \<le> length (dataSlice b)
      then sendLogs mar app s (take currentIndex (dataSlice b)) (outputChans b) (swapBatch b)
      else None)"

text \<open>Without interference the parts are the whole.\<close>

lemma SendLog_parts:
  "SendLog_begin d b = map_option (Pair (nextFreeIndex b)) (SendLog_send d (nextFreeIndex b) (SendLog_next b) b)"
  by (simp add: SendLog_begin_def SendLog_send_def SendLog_next_def Let_def)

lemma processTimer_parts:
  "processTimer mar app s b =
     do { r \<leftarrow> processTimer_begin b; case r of None \<Rightarrow> Some (s, b) | Some cur \<Rightarrow> processTimer_end mar app s cur b }"
  by (auto simp: processTimer_def processTimer_begin_def processTimer_end_def)

text \<open>
  The senders, the two goroutines and raft together: how far the sender is that holds the lock, with its index,
  the next one it has computed and its data; the index that the timer has read while it holds its lock; and
  the channels that senders have got, with their data.
\<close>

datatype sendPhase = Indexed nat bytes | Computed nat nat bytes | Pending nat bytes

record 's bsys =
  bt :: batcher
  raftSt :: 's
  sender :: "sendPhase option"
  firing :: "nat option"
  got :: "(bytes \<times> nat \<times> nat) list"

inductive bstep :: "marshaller \<Rightarrow> 's raftApply \<Rightarrow> 's bsys \<Rightarrow> 's bsys \<Rightarrow> bool" for mar app where
  enter: "sender \<sigma> = None \<Longrightarrow> bstep mar app \<sigma> (\<sigma>\<lparr>sender := Some (Indexed (nextFreeIndex (bt \<sigma>)) d)\<rparr>)"
| compute: "sender \<sigma> = Some (Indexed cur d) \<Longrightarrow>
    bstep mar app \<sigma> (\<sigma>\<lparr>sender := Some (Computed cur (SendLog_next (bt \<sigma>)) d)\<rparr>)"
| send: "sender \<sigma> = Some (Computed cur nxt d) \<Longrightarrow> SendLog_send d cur nxt (bt \<sigma>) = Some b \<Longrightarrow>
    bstep mar app \<sigma> (\<sigma>\<lparr>bt := b, sender := Some (Pending cur d)\<rparr>)"
| input: "firing \<sigma> = None \<Longrightarrow> processInput mar app (raftSt \<sigma>) (bt \<sigma>) = Some (s, b) \<Longrightarrow>
    bstep mar app \<sigma> (\<sigma>\<lparr>bt := b, raftSt := s\<rparr>)"
| fire: "firing \<sigma> = None \<Longrightarrow> processTimer_begin (bt \<sigma>) = Some r \<Longrightarrow> bstep mar app \<sigma> (\<sigma>\<lparr>firing := r\<rparr>)"
| flush: "firing \<sigma> = Some cur \<Longrightarrow> processTimer_end mar app (raftSt \<sigma>) cur (bt \<sigma>) = Some (s, b) \<Longrightarrow>
    bstep mar app \<sigma> (\<sigma>\<lparr>bt := b, raftSt := s, firing := None\<rparr>)"
| finish: "sender \<sigma> = Some (Pending cur d) \<Longrightarrow> SendLog_end cur (bt \<sigma>) = Some ch \<Longrightarrow>
    bstep mar app \<sigma> (\<sigma>\<lparr>sender := None, got := got \<sigma> @ [(d, ch)]\<rparr>)"

inductive_cases bstepE: "bstep mar app \<sigma> \<tau>"

definition startSys :: "nat \<Rightarrow> 's \<Rightarrow> 's bsys" where
  "startSys n s = \<lparr>bt = NewBatcher n, raftSt = s, sender = None, firing = None, got = []\<rparr>"

inductive breach :: "marshaller \<Rightarrow> 's raftApply \<Rightarrow> nat \<Rightarrow> 's \<Rightarrow> 's bsys \<Rightarrow> bool" for mar app n s where
  start: "breach mar app n s (startSys n s)"
| step: "breach mar app n s \<sigma> \<Longrightarrow> bstep mar app \<sigma> \<tau> \<Longrightarrow> breach mar app n s \<tau>"

section \<open>The invariant\<close>

definition batcherOk :: "nat \<Rightarrow> batcher \<Rightarrow> bool" where
  "batcherOk n b \<longleftrightarrow>
     0 < n \<and> batchLength b = n \<and> length (dataSlice b) = n \<and> nextFreeIndex b < n \<and>
     outputChans b < freshChans b \<and> (\<forall>g i. outputChans b \<le> g \<longrightarrow> chanBuf b g i = []) \<and>
     (\<forall>g i. length (chanBuf b g i) \<le> 1)"

text \<open>What the lock and the wait group guarantee: one pending entry at most, the one of the sender.\<close>

fun pendingOk :: "nat \<Rightarrow> sendPhase option \<Rightarrow> batcher \<Rightarrow> bool" where
  "pendingOk n None b \<longleftrightarrow> inputChan b = [] \<and> waitCount b = 0"
| "pendingOk n (Some (Indexed cur d)) b \<longleftrightarrow> cur < n \<and> inputChan b = [] \<and> waitCount b = 0"
| "pendingOk n (Some (Computed cur nxt d)) b \<longleftrightarrow> cur < n \<and> nxt < n \<and> inputChan b = [] \<and> waitCount b = 0"
| "pendingOk n (Some (Pending cur d)) b \<longleftrightarrow> cur < n \<and>
     (inputChan b = [\<lparr>diData = d, diId = cur\<rparr>] \<and> waitCount b = 1 \<or> inputChan b = [] \<and> waitCount b = 0)"

definition sysOk :: "nat \<Rightarrow> 's bsys \<Rightarrow> bool" where
  "sysOk n \<sigma> \<longleftrightarrow> batcherOk n (bt \<sigma>) \<and> pendingOk n (sender \<sigma>) (bt \<sigma>) \<and> (\<forall>cur. firing \<sigma> = Some cur \<longrightarrow> cur < n)"

text \<open>
  What is used of raft and of the state machine: a log of some entries is answered by that many results
  at most.
\<close>

definition resultsFit :: "marshaller \<Rightarrow> 's raftApply \<Rightarrow> bool" where
  "resultsFit mar app \<longleftrightarrow>
     (\<forall>datas m s res s'. mar datas = Inr m \<longrightarrow> app s m = Some (Inr (Some res), s') \<longrightarrow> length res \<le> length datas)"

text \<open>
  When the state machine panics, told by \<open>pan\<close> for its state and a log: on a batch, on the batch that the next
  entry completes, on the batch that the timer is about to send; and a system in which the goroutine whose turn
  it is sends such a batch.
\<close>

definition panicsOn :: "marshaller \<Rightarrow> ('s \<Rightarrow> bytes \<Rightarrow> bool) \<Rightarrow> 's \<Rightarrow> bytes option list \<Rightarrow> bool" where
  "panicsOn mar pan s datas \<longleftrightarrow> (case mar datas of Inl err \<Rightarrow> False | Inr m \<Rightarrow> pan s m)"

definition inputPanics :: "marshaller \<Rightarrow> ('s \<Rightarrow> bytes \<Rightarrow> bool) \<Rightarrow> 's \<Rightarrow> batcher \<Rightarrow> bool" where
  "inputPanics mar pan s b \<longleftrightarrow>
     (case inputChan b of
        [] \<Rightarrow> False
      | data # rest \<Rightarrow> Suc (diId data) = batchLength b \<and> panicsOn mar pan s ((dataSlice b)[diId data := Some (diData data)]))"

definition timerPanics :: "marshaller \<Rightarrow> ('s \<Rightarrow> bytes \<Rightarrow> bool) \<Rightarrow> 's \<Rightarrow> nat \<Rightarrow> batcher \<Rightarrow> bool" where
  "timerPanics mar pan s cur b \<longleftrightarrow> panicsOn mar pan s (take cur (dataSlice b))"

definition crashing :: "marshaller \<Rightarrow> ('s \<Rightarrow> bytes \<Rightarrow> bool) \<Rightarrow> 's bsys \<Rightarrow> bool" where
  "crashing mar pan \<sigma> \<longleftrightarrow>
     (case firing \<sigma> of
        None \<Rightarrow> inputPanics mar pan (raftSt \<sigma>) (bt \<sigma>)
      | Some cur \<Rightarrow> timerPanics mar pan (raftSt \<sigma>) cur (bt \<sigma>))"

definition raftPanics :: "'s raftApply \<Rightarrow> 's \<Rightarrow> bytes \<Rightarrow> bool" where
  "raftPanics app s m \<longleftrightarrow> app s m = None"

lemma panics_mono:
  assumes "\<And>s m. pan s m \<Longrightarrow> pan' s m"
  shows "panicsOn mar pan s datas \<Longrightarrow> panicsOn mar pan' s datas" "inputPanics mar pan s b \<Longrightarrow> inputPanics mar pan' s b"
    "timerPanics mar pan s cur b \<Longrightarrow> timerPanics mar pan' s cur b" "crashing mar pan \<sigma> \<Longrightarrow> crashing mar pan' \<sigma>"
  using assms by (auto simp: panicsOn_def inputPanics_def timerPanics_def crashing_def split: sum.splits list.splits option.splits)

lemma sendAll_ok:
  assumes "i + length vs \<le> batchLength b" "\<forall>j\<ge>i. chanBuf b g j = []"
  shows "\<exists>f. sendAll g i vs b = Some (b\<lparr>chanBuf := (chanBuf b)(g := f)\<rparr>) \<and>
    (\<forall>j. f j = (if i \<le> j \<and> j < i + length vs then [vs ! (j - i)] else chanBuf b g j))"
  using assms
proof (induction vs arbitrary: i b)
  case Nil
  then show ?case by (intro exI[of _ "chanBuf b g"]) simp
next
  case (Cons v vs)
  let ?b = "b\<lparr>chanBuf := (chanBuf b)(g := (chanBuf b g)(i := [v]))\<rparr>"
  have "chanSend g i v b = Some ?b" using Cons.prems by (simp add: chanSend_def)
  moreover have "\<exists>f. sendAll g (Suc i) vs ?b = Some (?b\<lparr>chanBuf := (chanBuf ?b)(g := f)\<rparr>) \<and>
      (\<forall>j. f j = (if Suc i \<le> j \<and> j < Suc i + length vs then [vs ! (j - Suc i)] else chanBuf ?b g j))"
    using Cons.prems by (intro Cons.IH) simp_all
  ultimately obtain f where f: "sendAll g i (v # vs) b = Some (b\<lparr>chanBuf := (chanBuf b)(g := f)\<rparr>)"
    "\<forall>j. f j = (if Suc i \<le> j \<and> j < Suc i + length vs then [vs ! (j - Suc i)] else chanBuf ?b g j)" by auto
  have "f j = (if i \<le> j \<and> j < i + length (v # vs) then [(v # vs) ! (j - i)] else chanBuf b g j)" for j
    using f(2) by (cases "j = i") (auto simp: nth_Cons' Suc_le_eq)
  with f(1) show ?case by blast
qed

lemma sendAll_swapped:
  assumes "batcherOk n b" "length vs \<le> n"
  shows "\<exists>b'. sendAll (outputChans b) 0 vs (swapBatch b) = Some b' \<and> batcherOk n b' \<and>
    b' = (swapBatch b)\<lparr>chanBuf := chanBuf b'\<rparr> \<and>
    (\<forall>j<length vs. chanBuf b' (outputChans b) j = [vs ! j])"
proof -
  note ok = assms(1)[unfolded batcherOk_def]
  have "\<forall>j\<ge>0. chanBuf (swapBatch b) (outputChans b) j = []" "0 + length vs \<le> batchLength (swapBatch b)"
    using ok assms(2) by (simp_all add: swapBatch_def)
  from sendAll_ok[OF this(2,1)] obtain f where
    f: "sendAll (outputChans b) 0 vs (swapBatch b) =
        Some ((swapBatch b)\<lparr>chanBuf := (chanBuf (swapBatch b))(outputChans b := f)\<rparr>)"
      "\<forall>j. f j = (if j < length vs then [vs ! j] else chanBuf (swapBatch b) (outputChans b) j)" by auto
  have "batcherOk n ((swapBatch b)\<lparr>chanBuf := (chanBuf (swapBatch b))(outputChans b := f)\<rparr>)"
    using ok f(2) by (auto simp: batcherOk_def swapBatch_def)
  with f show ?thesis by (intro exI conjI) (auto simp: swapBatch_def)
qed

text \<open>The turns of the goroutines give a well-formed batcher, unless the state machine panics on the batch they send.\<close>

lemma sendLogs_ok:
  assumes "batcherOk n b" "length datas \<le> n" "resultsFit mar app"
  shows "case sendLogs mar app s datas (outputChans b) (swapBatch b) of
      None \<Rightarrow> panicsOn mar (raftPanics app) s datas
    | Some (s', b') \<Rightarrow> \<not> panicsOn mar (raftPanics app) s datas \<and> batcherOk n b' \<and> b' = (swapBatch b)\<lparr>chanBuf := chanBuf b'\<rparr>"
proof -
  note all = sendAll_swapped[OF assms(1)]
  from all[of "replicate (length datas) None"] assms(2) obtain b1 where
    b1: "sendAll (outputChans b) 0 (replicate (length datas) None) (swapBatch b) = Some b1" "batcherOk n b1"
      "b1 = (swapBatch b)\<lparr>chanBuf := chanBuf b1\<rparr>" by auto
  show ?thesis
  proof (cases "mar datas")
    case (Inl err)
    with b1 show ?thesis by (simp add: sendLogs_def panicsOn_def)
  next
    case (Inr m)
    consider "app s m = None" | res s' where "app s m = Some (Inr (Some res), s')"
      | s' where "app s m = Some (Inr None, s')" | err s' where "app s m = Some (Inl err, s')"
      by (metis not_None_eq old.sum.exhaust surj_pair)
    then show ?thesis
    proof cases
      case 1
      with Inr show ?thesis by (auto simp: sendLogs_def panicsOn_def raftPanics_def)
    next
      case (2 res s')
      with assms(2,3) Inr have "length (map Some res) \<le> n" by (force simp: resultsFit_def)
      from all[OF this] obtain b2 where "sendAll (outputChans b) 0 (map Some res) (swapBatch b) = Some b2"
        "batcherOk n b2" "b2 = (swapBatch b)\<lparr>chanBuf := chanBuf b2\<rparr>" by auto
      with Inr 2 show ?thesis by (simp add: sendLogs_def panicsOn_def raftPanics_def)
    qed (use Inr b1 in \<open>simp_all add: sendLogs_def panicsOn_def raftPanics_def\<close>)
  qed
qed

lemma swapped_fields:
  assumes "b' = (swapBatch x)\<lparr>chanBuf := c\<rparr>"
  shows "waitCount b' = waitCount x" "inputChan b' = inputChan x" "nextFreeIndex b' = 0"
    "outputChans b' = freshChans x" "dataSlice b' = replicate (batchLength x) None" "batchLength b' = batchLength x"
    "freshChans b' = Suc (freshChans x)"
  unfolding assms by (simp_all add: swapBatch_def)

lemma batcherOk_fields:
  "batcherOk n (b\<lparr>inputChan := x\<rparr>) = batcherOk n b" "batcherOk n (b\<lparr>waitCount := w\<rparr>) = batcherOk n b"
  "batcherOk n b \<Longrightarrow> cur < n \<Longrightarrow> batcherOk n (b\<lparr>dataSlice := (dataSlice b)[cur := Some d]\<rparr>)"
  by (simp_all add: batcherOk_def)

lemma processInput_ok:
  assumes "batcherOk n b" "inputChan b = [\<lparr>diData = d, diId = cur\<rparr>]" "cur < n" "waitCount b = 1" "resultsFit mar app"
  shows "case processInput mar app s b of
      None \<Rightarrow> inputPanics mar (raftPanics app) s b
    | Some (s', b') \<Rightarrow> \<not> inputPanics mar (raftPanics app) s b \<and> batcherOk n b' \<and> inputChan b' = [] \<and> waitCount b' = 0"
proof -
  let ?b = "b\<lparr>inputChan := [], dataSlice := (dataSlice b)[cur := Some d]\<rparr>"
  have ok: "batcherOk n ?b" using assms(1) by (simp add: batcherOk_def)
  have l: "length (dataSlice b) = n" "batchLength b = n" using assms(1) by (simp_all add: batcherOk_def)
  have turn: "processInput mar app s b =
    (if int cur \<noteq> int n - 1 then do { b2 \<leftarrow> waitDone ?b; Some (s, b2) }
     else do { (s', b2) \<leftarrow> sendLogs mar app s (dataSlice ?b) (outputChans ?b) (swapBatch ?b); b3 \<leftarrow> waitDone b2; Some (s', b3) })"
    using assms(2,3) l by (simp add: processInput_def Let_def)
  have panics: "inputPanics mar (raftPanics app) s b \<longleftrightarrow> int cur = int n - 1 \<and> panicsOn mar (raftPanics app) s (dataSlice ?b)"
    using assms(2) l by (auto simp: inputPanics_def)
  show ?thesis
  proof (cases "int cur = int n - 1")
    case False
    with ok assms(4) panics show ?thesis by (simp add: turn waitDone_def batcherOk_fields)
  next
    case True
    have "length (dataSlice ?b) \<le> n" using l by simp
    note sent = sendLogs_ok[OF ok this assms(5), of s]
    show ?thesis
    proof (cases "sendLogs mar app s (dataSlice ?b) (outputChans ?b) (swapBatch ?b)")
      case None
      with True sent panics show ?thesis by (simp add: turn)
    next
      case (Some x)
      then obtain s' b' where x: "sendLogs mar app s (dataSlice ?b) (outputChans ?b) (swapBatch ?b) = Some (s', b')" by (cases x) auto
      with sent have b': "\<not> panicsOn mar (raftPanics app) s (dataSlice ?b)" "batcherOk n b'" "b' = (swapBatch ?b)\<lparr>chanBuf := chanBuf b'\<rparr>" by simp_all
      have "waitCount b' = 1" "inputChan b' = []" using swapped_fields(1,2)[OF b'(3)] assms(4) by simp_all
      with True x b'(1,2) panics show ?thesis by (simp add: turn waitDone_def batcherOk_fields)
    qed
  qed
qed

lemma processTimer_end_ok:
  assumes "batcherOk n b" "resultsFit mar app" "cur < n"
  shows "case processTimer_end mar app s cur b of
      None \<Rightarrow> timerPanics mar (raftPanics app) s cur b
    | Some (s', b') \<Rightarrow> \<not> timerPanics mar (raftPanics app) s cur b \<and> batcherOk n b' \<and> inputChan b' = inputChan b \<and> waitCount b' = waitCount b"
proof -
  have l: "cur \<le> length (dataSlice b)" "length (take cur (dataSlice b)) \<le> n" using assms(1,3) by (auto simp: batcherOk_def)
  from sendLogs_ok[OF assms(1) l(2) assms(2), of s] l(1) show ?thesis
    by (auto simp: processTimer_end_def timerPanics_def dest: swapped_fields split: option.splits)
qed

lemma sysOk_start: "0 < n \<Longrightarrow> sysOk n (startSys n s)"
  by (simp add: sysOk_def startSys_def NewBatcher_def batcherOk_def)

lemma pendingOk_cong:
  "inputChan b' = inputChan b \<Longrightarrow> waitCount b' = waitCount b \<Longrightarrow> pendingOk n who b' = pendingOk n who b"
  by (cases "(n, who, b)" rule: pendingOk.cases) auto

lemma pending_input:
  assumes "pendingOk n who b" "inputChan b \<noteq> []"
  obtains cur d where "who = Some (Pending cur d)" "cur < n" "inputChan b = [\<lparr>diData = d, diId = cur\<rparr>]" "waitCount b = 1"
  using assms by (cases "(n, who, b)" rule: pendingOk.cases) auto

text \<open>What an access to the index gives is an index of the batch.\<close>

lemma batcherOk_index: "batcherOk n b \<Longrightarrow> nextFreeIndex b < n" "batcherOk n b \<Longrightarrow> SendLog_next b < n"
  by (simp_all add: batcherOk_def SendLog_next_def)

lemma sysOk_step:
  assumes "sysOk n \<sigma>" "resultsFit mar app" "bstep mar app \<sigma> \<tau>"
  shows "sysOk n \<tau>"
proof -
  from assms(1) have ok: "batcherOk n (bt \<sigma>)" "pendingOk n (sender \<sigma>) (bt \<sigma>)" "\<And>cur. firing \<sigma> = Some cur \<Longrightarrow> cur < n"
    by (simp_all add: sysOk_def)
  from assms(3) show ?thesis
  proof (cases rule: bstep.cases)
    case (send cur nxt d b)
    with ok show ?thesis by (auto simp: sysOk_def SendLog_send_def batcherOk_def split: if_splits)
  next
    case (input s b)
    then have "inputChan (bt \<sigma>) \<noteq> []" by (auto simp: processInput_def)
    with ok(2) obtain cur d where c: "sender \<sigma> = Some (Pending cur d)" "cur < n"
      "inputChan (bt \<sigma>) = [\<lparr>diData = d, diId = cur\<rparr>]" "waitCount (bt \<sigma>) = 1" by (rule pending_input)
    from processInput_ok[OF ok(1) c(3,2,4) assms(2), of "raftSt \<sigma>"] input c(1,2) ok(3) show ?thesis
      by (auto simp: sysOk_def)
  next
    case (flush cur s b)
    from processTimer_end_ok[OF ok(1) assms(2) ok(3)[OF flush(2)], of "raftSt \<sigma>"] flush
    have b: "batcherOk n b" "inputChan b = inputChan (bt \<sigma>)" "waitCount b = waitCount (bt \<sigma>)" by auto
    with flush(1) ok(2) pendingOk_cong[OF b(2,3)] show ?thesis by (simp add: sysOk_def)
  qed (use ok batcherOk_index in \<open>auto simp: sysOk_def processTimer_begin_def SendLog_end_def split: if_splits\<close>)
qed

lemma sysOk_reachable:
  assumes "breach mar app n s \<sigma>" "0 < n" "resultsFit mar app"
  shows "sysOk n \<sigma>"
  using assms by (induction rule: breach.induct) (auto intro: sysOk_start sysOk_step)

text \<open>
  In a well-formed state a goroutine fails to finish its turn exactly when it sends a batch on which the state
  machine panics, and a sender can go on.
\<close>

lemma sysOk_progress:
  assumes "sysOk n \<sigma>" "resultsFit mar app"
  shows "inputChan (bt \<sigma>) \<noteq> [] \<Longrightarrow> processInput mar app (raftSt \<sigma>) (bt \<sigma>) = None \<longleftrightarrow> inputPanics mar (raftPanics app) (raftSt \<sigma>) (bt \<sigma>)"
    "processTimer_begin (bt \<sigma>) \<noteq> None"
    "firing \<sigma> = Some cur \<Longrightarrow> processTimer_end mar app (raftSt \<sigma>) cur (bt \<sigma>) = None \<longleftrightarrow> timerPanics mar (raftPanics app) (raftSt \<sigma>) cur (bt \<sigma>)"
    "sender \<sigma> = Some (Computed cur nxt d) \<Longrightarrow> SendLog_send d cur nxt (bt \<sigma>) \<noteq> None"
    "sender \<sigma> = Some (Pending cur d) \<Longrightarrow> inputChan (bt \<sigma>) = [] \<Longrightarrow> SendLog_end cur (bt \<sigma>) \<noteq> None"
proof -
  from assms(1) have ok: "batcherOk n (bt \<sigma>)" "pendingOk n (sender \<sigma>) (bt \<sigma>)" "\<And>cur. firing \<sigma> = Some cur \<Longrightarrow> cur < n"
    by (simp_all add: sysOk_def)
  show "processInput mar app (raftSt \<sigma>) (bt \<sigma>) = None \<longleftrightarrow> inputPanics mar (raftPanics app) (raftSt \<sigma>) (bt \<sigma>)" if "inputChan (bt \<sigma>) \<noteq> []"
  proof -
    from ok(2) that obtain cur d where c: "cur < n" "inputChan (bt \<sigma>) = [\<lparr>diData = d, diId = cur\<rparr>]" "waitCount (bt \<sigma>) = 1"
      by (rule pending_input)
    from processInput_ok[OF ok(1) c(2,1,3) assms(2), of "raftSt \<sigma>"] show ?thesis by (auto split: option.splits)
  qed
  show "processTimer_begin (bt \<sigma>) \<noteq> None" using ok(1) by (auto simp: processTimer_begin_def batcherOk_def)
  show "processTimer_end mar app (raftSt \<sigma>) cur (bt \<sigma>) = None \<longleftrightarrow> timerPanics mar (raftPanics app) (raftSt \<sigma>) cur (bt \<sigma>)" if "firing \<sigma> = Some cur"
    using processTimer_end_ok[OF ok(1) assms(2) ok(3)[OF that], of "raftSt \<sigma>"] by (auto split: option.splits)
  show "SendLog_send d cur nxt (bt \<sigma>) \<noteq> None" if "sender \<sigma> = Some (Computed cur nxt d)"
    using ok that by (simp add: SendLog_send_def batcherOk_def)
  show "SendLog_end cur (bt \<sigma>) \<noteq> None" if "sender \<sigma> = Some (Pending cur d)" "inputChan (bt \<sigma>) = []"
    using ok that by (auto simp: SendLog_end_def batcherOk_def)
qed

text \<open>
  A sender that has entered can always be brought to its end, unless the state machine panics on a batch that is sent on the way: the
  timer finishes its turn, the sender sends, the first goroutine takes the entry, and the sender returns. The
  lemmas take these steps backwards.
\<close>

definition canReturn :: "marshaller \<Rightarrow> 's raftApply \<Rightarrow> 's bsys \<Rightarrow> bool" where
  "canReturn mar app \<sigma> \<longleftrightarrow>
     (\<exists>\<tau>. (bstep mar app)\<^sup>*\<^sup>* \<sigma> \<tau> \<and> (sender \<tau> = None \<and> firing \<tau> = None \<or> crashing mar (raftPanics app) \<tau>))"

lemma canReturn_done: "sender \<sigma> = None \<Longrightarrow> firing \<sigma> = None \<Longrightarrow> canReturn mar app \<sigma>"
  by (auto simp: canReturn_def)

lemma canReturn_panic: "crashing mar (raftPanics app) \<sigma> \<Longrightarrow> canReturn mar app \<sigma>"
  by (auto simp: canReturn_def)

lemma canReturn_step:
  assumes "sysOk n \<sigma>" "resultsFit mar app" "bstep mar app \<sigma> \<tau>" "sysOk n \<tau> \<Longrightarrow> canReturn mar app \<tau>"
  shows "canReturn mar app \<sigma>"
  using assms(4)[OF sysOk_step[OF assms(1-3)]] assms(3)
  unfolding canReturn_def by (blast intro: converse_rtranclp_into_rtranclp)

lemma canReturn_taken:
  assumes "sysOk n \<sigma>" "resultsFit mar app" "firing \<sigma> = None" "sender \<sigma> = Some (Pending cur d)" "inputChan (bt \<sigma>) = []"
  shows "canReturn mar app \<sigma>"
proof -
  from sysOk_progress(5)[OF assms(1,2,4,5)] obtain ch where "SendLog_end cur (bt \<sigma>) = Some ch" by blast
  from canReturn_step[OF assms(1,2) bstep.finish[OF assms(4) this] canReturn_done] assms(3) show ?thesis by simp
qed

lemma canReturn_pending:
  assumes "sysOk n \<sigma>" "resultsFit mar app" "firing \<sigma> = None" "sender \<sigma> = Some (Pending cur d)"
  shows "canReturn mar app \<sigma>"
proof (cases "inputChan (bt \<sigma>) = []")
  case True
  then show ?thesis by (rule canReturn_taken[OF assms])
next
  case False
  have ok: "batcherOk n (bt \<sigma>)" "inputChan (bt \<sigma>) = [\<lparr>diData = d, diId = cur\<rparr>]" "cur < n" "waitCount (bt \<sigma>) = 1"
    using assms(1,4) False by (auto simp: sysOk_def)
  show ?thesis
  proof (cases "processInput mar app (raftSt \<sigma>) (bt \<sigma>)")
    case None
    with processInput_ok[OF ok assms(2), of "raftSt \<sigma>"] show ?thesis
      using assms(3) by (simp add: canReturn_panic crashing_def)
  next
    case (Some x)
    then obtain s b where b: "processInput mar app (raftSt \<sigma>) (bt \<sigma>) = Some (s, b)" by (cases x) auto
    with processInput_ok[OF ok assms(2), of "raftSt \<sigma>"] have "inputChan b = []" by simp
    with canReturn_step[OF assms(1,2) bstep.input[OF assms(3) b]] canReturn_taken[OF _ assms(2)] assms(3,4)
    show ?thesis by simp
  qed
qed

lemma canReturn_computed:
  assumes "sysOk n \<sigma>" "resultsFit mar app" "firing \<sigma> = None" "sender \<sigma> = Some (Computed cur nxt d)"
  shows "canReturn mar app \<sigma>"
proof -
  from sysOk_progress(4)[OF assms(1,2,4)] obtain b where "SendLog_send d cur nxt (bt \<sigma>) = Some b" by blast
  from canReturn_step[OF assms(1,2) bstep.send[OF assms(4) this]] canReturn_pending[OF _ assms(2)] assms(3)
  show ?thesis by simp
qed

lemma canReturn_unlocked:
  assumes "sysOk n \<sigma>" "resultsFit mar app" "firing \<sigma> = None"
  shows "canReturn mar app \<sigma>"
proof (cases "sender \<sigma>")
  case None
  then show ?thesis using assms(3) by (rule canReturn_done)
next
  case (Some ph)
  then show ?thesis
  proof (cases ph)
    case (Indexed cur d)
    with Some have "sender \<sigma> = Some (Indexed cur d)" by simp
    from canReturn_step[OF assms(1,2) bstep.compute[OF this]] canReturn_computed[OF _ assms(2)] assms(3) show ?thesis by simp
  qed (use assms canReturn_computed canReturn_pending in auto)
qed

lemma sysOk_canReturn:
  assumes "sysOk n \<sigma>" "resultsFit mar app"
  shows "canReturn mar app \<sigma>"
proof (cases "firing \<sigma>")
  case None
  then show ?thesis by (rule canReturn_unlocked[OF assms])
next
  case (Some cur)
  show ?thesis
  proof (cases "crashing mar (raftPanics app) \<sigma>")
    case False
    with sysOk_progress(3)[OF assms Some] Some obtain s b where
      "processTimer_end mar app (raftSt \<sigma>) cur (bt \<sigma>) = Some (s, b)" by (auto simp: crashing_def)
    from canReturn_step[OF assms bstep.flush[OF Some this]] canReturn_unlocked[OF _ assms(2)] show ?thesis by simp
  qed (rule canReturn_panic)
qed

section \<open>Batches without interference\<close>

text \<open>Senders one after another, with the first goroutine taking every entry in turn.\<close>

fun sendMany ::
    "marshaller \<Rightarrow> 's raftApply \<Rightarrow> 's \<Rightarrow> bytes list \<Rightarrow> batcher \<Rightarrow> ((nat \<times> nat) list \<times> 's \<times> batcher) option" where
  "sendMany mar app s [] b = Some ([], s, b)"
| "sendMany mar app s (d # ds) b =
     do { (cur, b1) \<leftarrow> SendLog_begin d b;
          (s1, b2) \<leftarrow> processInput mar app s b1;
          ch \<leftarrow> SendLog_end cur b2;
          (chs, s2, b3) \<leftarrow> sendMany mar app s1 ds b2;
          Some (ch # chs, s2, b3) }"

lemma sendMany_length: "sendMany mar app s ds b = Some (chs, s', b') \<Longrightarrow> length chs = length ds"
  by (induction ds arbitrary: s b chs) (auto simp: bind_Some_iff)

text \<open>Such a sequence of senders, and a turn of the timer, are among the interleavings.\<close>

definition quietSys :: "batcher \<Rightarrow> 's \<Rightarrow> (bytes \<times> nat \<times> nat) list \<Rightarrow> 's bsys" where
  "quietSys b s g = \<lparr>bt = b, raftSt = s, sender = None, firing = None, got = g\<rparr>"

lemma startSys_quiet: "startSys n s = quietSys (NewBatcher n) s []"
  by (simp add: startSys_def quietSys_def)

lemma SendLog_steps:
  assumes "SendLog_begin d b = Some (cur, b1)" "processInput mar app s b1 = Some (s1, b2)" "SendLog_end cur b2 = Some ch"
  shows "(bstep mar app)\<^sup>*\<^sup>* (quietSys b s g) (quietSys b2 s1 (g @ [(d, ch)]))"
proof -
  let ?at = "\<lambda>b s ph. \<lparr>bt = b, raftSt = s, sender = Some ph, firing = None, got = g\<rparr>"
  from assms(1) have cur: "cur = nextFreeIndex b" "SendLog_send d cur (SendLog_next b) b = Some b1" by (auto simp: SendLog_parts)
  have "bstep mar app (quietSys b s g) (?at b s (Indexed cur d))"
    using bstep.enter[of "quietSys b s g" mar app d] cur(1) by (simp add: quietSys_def)
  moreover have "bstep mar app (?at b s (Indexed cur d)) (?at b s (Computed cur (SendLog_next b) d))"
    using bstep.compute[of "?at b s (Indexed cur d)" cur d mar app] by simp
  moreover have "bstep mar app (?at b s (Computed cur (SendLog_next b) d)) (?at b1 s (Pending cur d))"
    using bstep.send[of "?at b s (Computed cur (SendLog_next b) d)" cur "SendLog_next b" d b1 mar app] cur(2) by simp
  moreover have "bstep mar app (?at b1 s (Pending cur d)) (?at b2 s1 (Pending cur d))"
    using bstep.input[of "?at b1 s (Pending cur d)" mar app s1 b2] assms(2) by simp
  moreover have "bstep mar app (?at b2 s1 (Pending cur d)) (quietSys b2 s1 (g @ [(d, ch)]))"
    using bstep.finish[of "?at b2 s1 (Pending cur d)" cur d ch mar app] assms(3) by (simp add: quietSys_def)
  ultimately show ?thesis by (meson converse_rtranclp_into_rtranclp r_into_rtranclp)
qed

lemma sendMany_steps:
  "sendMany mar app s ds b = Some (chs, s', b') \<Longrightarrow>
   (bstep mar app)\<^sup>*\<^sup>* (quietSys b s g) (quietSys b' s' (g @ zip ds chs))"
proof (induction ds arbitrary: s b g chs)
  case (Cons d ds)
  then obtain cur b1 s1 b2 ch chs1 where
    c: "SendLog_begin d b = Some (cur, b1)" "processInput mar app s b1 = Some (s1, b2)" "SendLog_end cur b2 = Some ch"
      "sendMany mar app s1 ds b2 = Some (chs1, s', b')" "chs = ch # chs1" by (auto simp: bind_Some_iff)
  from SendLog_steps[where mar = mar and app = app, OF c(1-3)] Cons.IH[OF c(4)] c(5) show ?case
    by (metis append.assoc append_Cons append_Nil rtranclp_trans zip_Cons_Cons)
qed simp

lemma timer_steps:
  assumes "processTimer mar app s b = Some (s', b')"
  shows "(bstep mar app)\<^sup>*\<^sup>* (quietSys b s g) (quietSys b' s' g)"
proof -
  from assms obtain r where r: "processTimer_begin b = Some r"
    and e: "(case r of None \<Rightarrow> Some (s, b) | Some cur \<Rightarrow> processTimer_end mar app s cur b) = Some (s', b')"
    by (auto simp: processTimer_parts bind_Some_iff)
  show ?thesis
  proof (cases r)
    case None
    with e show ?thesis by simp
  next
    case (Some cur)
    let ?f = "\<lparr>bt = b, raftSt = s, sender = None, firing = Some cur, got = g\<rparr>"
    have "bstep mar app (quietSys b s g) ?f" using bstep.fire[of "quietSys b s g" r mar app] r Some by (simp add: quietSys_def)
    moreover have "bstep mar app ?f (quietSys b' s' g)"
      using bstep.flush[of ?f cur mar app s' b'] e Some by (simp add: quietSys_def)
    ultimately show ?thesis by (meson converse_rtranclp_into_rtranclp r_into_rtranclp)
  qed
qed

text \<open>A batcher that holds the entries \<open>pre\<close> and no pending sender.\<close>

definition holdsBatch :: "nat \<Rightarrow> bytes list \<Rightarrow> batcher \<Rightarrow> bool" where
  "holdsBatch n pre b \<longleftrightarrow> batcherOk n b \<and> length pre < n \<and> nextFreeIndex b = length pre \<and>
     dataSlice b = map Some pre @ replicate (n - length pre) None \<and> inputChan b = [] \<and> waitCount b = 0"

lemma filled_slot:
  assumes "length pre < n"
  shows "(map Some pre @ replicate (n - length pre) None)[length pre := Some d] =
    map Some (pre @ [d]) @ replicate (n - length (pre @ [d])) None"
proof -
  have r: "replicate (n - length pre) None = None # replicate (n - Suc (length pre)) None"
    using assms by (metis Suc_diff_Suc replicate_Suc)
  show ?thesis unfolding r by (simp add: list_update_append)
qed

lemma send_one:
  assumes "holdsBatch n pre b" "Suc (length pre) < n"
  shows "\<exists>b1 b2. SendLog_begin d b = Some (length pre, b1) \<and> processInput mar app s b1 = Some (s, b2) \<and>
    SendLog_end (length pre) b2 = Some (outputChans b, length pre) \<and> holdsBatch n (pre @ [d]) b2 \<and>
    outputChans b2 = outputChans b"
proof -
  let ?b1 = "b\<lparr>nextFreeIndex := Suc (length pre), waitCount := 1, inputChan := [\<lparr>diData = d, diId = length pre\<rparr>]\<rparr>"
  let ?b2 = "b\<lparr>nextFreeIndex := Suc (length pre), waitCount := 0, inputChan := [],
      dataSlice := map Some (pre @ [d]) @ replicate (n - length (pre @ [d])) None\<rparr>"
  note h = assms(1)[unfolded holdsBatch_def batcherOk_def]
  have "SendLog_begin d b = Some (length pre, ?b1)" using h assms(2) by (simp add: SendLog_begin_def Let_def)
  moreover have "processInput mar app s ?b1 = Some (s, ?b2)"
    using h assms(2) filled_slot[of pre n d] by (simp add: processInput_def waitDone_def Let_def)
  moreover have "holdsBatch n (pre @ [d]) ?b2" using h assms(2) by (auto simp: holdsBatch_def batcherOk_def)
  ultimately show ?thesis using h by (intro exI conjI) (assumption | simp add: SendLog_end_def)+
qed

lemma send_many:
  assumes "holdsBatch n pre b" "length pre + length ds < n"
  shows "\<exists>b'. sendMany mar app s ds b = Some (map (\<lambda>i. (outputChans b, length pre + i)) [0..<length ds], s, b') \<and>
    holdsBatch n (pre @ ds) b' \<and> outputChans b' = outputChans b"
  using assms
proof (induction ds arbitrary: pre b)
  case (Cons d ds)
  then have "Suc (length pre) < n" by simp
  from send_one[OF Cons.prems(1) this, of d mar app s] obtain b1 b2 where
    b: "SendLog_begin d b = Some (length pre, b1)" "processInput mar app s b1 = Some (s, b2)"
      "SendLog_end (length pre) b2 = Some (outputChans b, length pre)" "holdsBatch n (pre @ [d]) b2"
      "outputChans b2 = outputChans b" by blast
  from Cons.IH[OF b(4)] Cons.prems(2) b(5) obtain b' where
    "sendMany mar app s ds b2 = Some (map (\<lambda>i. (outputChans b, length (pre @ [d]) + i)) [0..<length ds], s, b')"
    "holdsBatch n ((pre @ [d]) @ ds) b'" "outputChans b' = outputChans b" by auto
  moreover have "map (\<lambda>i. (outputChans b, length pre + i)) [0..<length (d # ds)] =
      (outputChans b, length pre) # map (\<lambda>i. (outputChans b, length (pre @ [d]) + i)) [0..<length ds]"
    by (simp add: upt_rec[of 0] map_Suc_upt[symmetric] del: upt_Suc)
  ultimately show ?case using b(1-3) by (intro exI[of _ b']) simp
qed (simp add: exI)


lemma sendLogs_results:
  assumes "batcherOk n b" "mar datas = Inr m" "app s m = Some (Inr (Some res), s')" "length res \<le> n"
  shows "\<exists>b'. sendLogs mar app s datas (outputChans b) (swapBatch b) = Some (s', b') \<and> batcherOk n b' \<and>
    b' = (swapBatch b)\<lparr>chanBuf := chanBuf b'\<rparr> \<and> (\<forall>j<length res. chanBuf b' (outputChans b) j = [Some (res ! j)])"
  using sendAll_swapped[OF assms(1), of "map Some res"] assms(2-4) by (auto simp: sendLogs_def)

lemma holdsBatch_swapped:
  assumes "batcherOk n b'" "b' = (swapBatch b)\<lparr>chanBuf := c\<rparr>" "batcherOk n b" "inputChan b = []" "waitCount b = 0"
  shows "holdsBatch n [] b'"
  using assms(1,3-5) swapped_fields[OF assms(2)] by (simp add: holdsBatch_def batcherOk_def)

lemma timer_sends:
  assumes "holdsBatch n ds b" "ds \<noteq> []" "mar (map Some ds) = Inr m" "app s m = Some (Inr (Some res), s')" "length res = length ds"
  shows "\<exists>b'. processTimer mar app s b = Some (s', b') \<and> holdsBatch n [] b' \<and>
    (\<forall>j<length ds. chanBuf b' (outputChans b) j = [Some (res ! j)])"
proof -
  note h = assms(1)[unfolded holdsBatch_def]
  have ok: "batcherOk n b" and t: "take (nextFreeIndex b) (dataSlice b) = map Some ds" using h by simp_all
  have "length res \<le> n" using h assms(5) by simp
  from sendLogs_results[where mar = mar and app = app, OF ok assms(3,4) this] obtain b' where
    b': "sendLogs mar app s (map Some ds) (outputChans b) (swapBatch b) = Some (s', b')" "batcherOk n b'"
      "b' = (swapBatch b)\<lparr>chanBuf := chanBuf b'\<rparr>" "\<forall>j<length res. chanBuf b' (outputChans b) j = [Some (res ! j)]" by blast
  have "processTimer mar app s b = Some (s', b')"
    using h assms(2) b'(1) t by (cases ds) (auto simp: processTimer_def)
  with b' assms(5) holdsBatch_swapped[OF b'(2,3)] h show ?thesis by auto
qed

lemma last_send:
  assumes "holdsBatch n pre b" "Suc (length pre) = n" "mar (map Some (pre @ [d])) = Inr m"
    and "app s m = Some (Inr (Some res), s')" "length res = n"
  shows "\<exists>b1 b2. SendLog_begin d b = Some (length pre, b1) \<and> processInput mar app s b1 = Some (s', b2) \<and>
    SendLog_end (length pre) b2 = Some (freshChans b, length pre) \<and> holdsBatch n [] b2 \<and>
    chanBuf b2 (freshChans b) (length pre) = [] \<and> (\<forall>j<n. chanBuf b2 (outputChans b) j = [Some (res ! j)])"
proof -
  let ?b1 = "b\<lparr>nextFreeIndex := 0, waitCount := 1, inputChan := [\<lparr>diData = d, diId = length pre\<rparr>]\<rparr>"
  let ?b = "?b1\<lparr>inputChan := [], dataSlice := (dataSlice b)[length pre := Some d]\<rparr>"
  note h = assms(1)[unfolded holdsBatch_def batcherOk_def]
  have ok: "batcherOk n ?b" using h by (simp add: batcherOk_def)
  have ds: "dataSlice ?b = map Some (pre @ [d])" using h assms(2) filled_slot[of pre n d] by simp
  from sendLogs_results[where mar = mar and app = app, OF ok assms(3,4)] assms(5) obtain b2 where
    b2: "sendLogs mar app s (map Some (pre @ [d])) (outputChans ?b) (swapBatch ?b) = Some (s', b2)" "batcherOk n b2"
      "b2 = (swapBatch ?b)\<lparr>chanBuf := chanBuf b2\<rparr>" "\<forall>j<n. chanBuf b2 (outputChans ?b) j = [Some (res ! j)]" by auto
  note f = swapped_fields[OF b2(3)]
  have "SendLog_begin d b = Some (length pre, ?b1)" using h assms(2) by (simp add: SendLog_begin_def Let_def)
  moreover have "processInput mar app s ?b1 =
      do { (s', b2) \<leftarrow> sendLogs mar app s (dataSlice ?b) (outputChans ?b) (swapBatch ?b); b3 \<leftarrow> waitDone b2; Some (s', b3) }"
    using h assms(2) by (auto simp: processInput_def Let_def)
  then have "processInput mar app s ?b1 = Some (s', b2\<lparr>waitCount := 0\<rparr>)"
    using b2(1) f(1) by (simp only: ds) (simp add: waitDone_def)
  moreover have "SendLog_end (length pre) (b2\<lparr>waitCount := 0\<rparr>) = Some (freshChans b, length pre)"
    using f h assms(2) by (simp add: SendLog_end_def)
  moreover have "holdsBatch n [] (b2\<lparr>waitCount := 0\<rparr>)"
    using f h b2(2) by (simp add: holdsBatch_def batcherOk_def)
  moreover have "chanBuf b2 (freshChans b) (length pre) = []"
    using b2(2) f(4) by (simp add: batcherOk_def)
  ultimately show ?thesis using b2(4) by (intro exI conjI) (assumption | simp)+
qed

end
