(* ===== verification/BatcherProperties.thy ===== *)
theory BatcherProperties
  imports Batcher
begin

text \<open>
  The properties of the batcher: under all interleavings of senders, goroutines and timer nothing blocks
  for ever, and nothing panics but the state machine; without interference every sender gets the result of its own entry, except the sender that
  fills the batch; and a timer between a sender and the first goroutine loses an entry.
\<close>

text \<open>
  Raft for the witnesses: the entries are encoded as one byte each, and the answer is one result per entry
  that is not nil, as the state machine gives it.
\<close>

definition demoMar :: marshaller where
  "demoMar datas = Inr (map (\<lambda>d. case d of None \<Rightarrow> 0 | Some bs \<Rightarrow> hd bs) datas)"

definition demoResult :: "8 word \<Rightarrow> SyblineFSMResult" where
  "demoResult w = \<lparr>rData = Msgs [\<lparr>msgId = [w], msgData = []\<rparr>], rErr = None\<rparr>"

definition demoRaft :: "bytes list raftApply" where
  "demoRaft s m = Some (Inr (Some (map demoResult (filter (\<lambda>w. w \<noteq> 0) m))), s @ [m])"

lemma demo_resultsFit: "resultsFit demoMar demoRaft"
  unfolding resultsFit_def
proof (intro allI impI)
  fix datas m s res s'
  assume "demoMar datas = Inr m" "demoRaft s m = Some (Inr (Some res), s')"
  then have "length m = length datas" "res = map demoResult (filter (\<lambda>w. w \<noteq> 0) m)"
    by (auto simp: demoMar_def demoRaft_def)
  then show "length res \<le> length datas" using length_filter_le[of "\<lambda>w. w \<noteq> 0" m] by simp
qed

text \<open>
  C32: The batcher never gets stuck. Senders and the timer access the next free index under different locks, in
  any order. In every state that they and the first goroutine can reach, the goroutines finish their turn
  without an index out of range and without blocking on a full result channel, with the one exception of a turn
  that sends a batch on which the state machine, called by raft, panics. A sender is never blocked by a full input
  channel, it returns as soon as its entry was taken, and there is a way on to a state in which the sender has
  returned and both locks are free, or to one where the next turn sends such a batch. \<open>ApplyLog\<close> is taken to return; waiting for a result is not part of it.
\<close>

theorem batcher_never_stuck:
  assumes "breach mar app n s \<sigma>" "0 < n" "resultsFit mar app"
  shows "(inputChan (bt \<sigma>) \<noteq> [] \<longrightarrow>
       (processInput mar app (raftSt \<sigma>) (bt \<sigma>) = None \<longleftrightarrow> inputPanics mar (raftPanics app) (raftSt \<sigma>) (bt \<sigma>))) \<and>
    processTimer_begin (bt \<sigma>) \<noteq> None \<and>
    (\<forall>cur. firing \<sigma> = Some cur \<longrightarrow>
       (processTimer_end mar app (raftSt \<sigma>) cur (bt \<sigma>) = None \<longleftrightarrow> timerPanics mar (raftPanics app) (raftSt \<sigma>) cur (bt \<sigma>))) \<and>
    (\<forall>cur nxt d. sender \<sigma> = Some (Computed cur nxt d) \<longrightarrow> SendLog_send d cur nxt (bt \<sigma>) \<noteq> None) \<and>
    (\<forall>cur d. sender \<sigma> = Some (Pending cur d) \<longrightarrow> inputChan (bt \<sigma>) = [] \<longrightarrow> SendLog_end cur (bt \<sigma>) \<noteq> None) \<and>
    (\<exists>\<tau>. (bstep mar app)\<^sup>*\<^sup>* \<sigma> \<tau> \<and> (sender \<tau> = None \<and> firing \<tau> = None \<or> crashing mar (raftPanics app) \<tau>))"
proof -
  note ok = sysOk_reachable[OF assms]
  note can = sysOk_canReturn[OF ok assms(3), unfolded canReturn_def]
  show ?thesis by (intro conjI allI impI sysOk_progress[OF ok assms(3)] can)
qed

text \<open>Witness for C32: a first sender that has read its index can return.\<close>

theorem batcher_never_stuck_witness:
  "\<exists>\<tau>. (bstep demoMar demoRaft)\<^sup>*\<^sup>* ((startSys 3 [])\<lparr>sender := Some (Indexed 0 [1])\<rparr>) \<tau> \<and> sender \<tau> = None \<and> firing \<tau> = None"
proof -
  have "breach demoMar demoRaft 3 [] ((startSys 3 [])\<lparr>sender := Some (Indexed (nextFreeIndex (bt (startSys 3 ([] :: bytes list)))) [1])\<rparr>)"
    by (rule breach.step[OF breach.start bstep.enter]) (simp add: startSys_def)
  then have "breach demoMar demoRaft 3 [] ((startSys 3 [])\<lparr>sender := Some (Indexed 0 [1])\<rparr>)" by (simp add: startSys_def NewBatcher_def)
  moreover have "\<not> crashing demoMar (raftPanics demoRaft) \<tau>" for \<tau>
    by (auto simp: crashing_def inputPanics_def timerPanics_def panicsOn_def raftPanics_def demoRaft_def demoMar_def split: option.splits list.splits)
  ultimately show ?thesis using batcher_never_stuck[of demoMar demoRaft 3 "[]", OF _ _ demo_resultsFit] by simp
qed

text \<open>
  Every sender gets its own result. When fewer requests than a batch holds are sent one after another
  to an idle batcher and then the timer fires, each sender holds a channel of its own, that channel
  receives exactly the result of the sender's entry, and the batcher is idle again.
\<close>

theorem batch_results_reach_senders:
  assumes "holdsBatch n [] b" "ds \<noteq> []" "length ds < n"
    and "mar (map Some ds) = Inr m" "app s m = Some (Inr (Some res), s')" "length res = length ds"
  shows "\<exists>chs b1 b2. sendMany mar app s ds b = Some (chs, s, b1) \<and> length chs = length ds \<and> distinct chs \<and>
    processTimer mar app s b1 = Some (s', b2) \<and> holdsBatch n [] b2 \<and>
    (\<forall>i<length ds. chanBuf b2 (fst (chs ! i)) (snd (chs ! i)) = [Some (res ! i)])"
proof -
  from send_many[OF assms(1), of ds mar app s] assms(3) obtain b1 where
    b1: "sendMany mar app s ds b = Some (map (\<lambda>i. (outputChans b, i)) [0..<length ds], s, b1)" "holdsBatch n ds b1"
      "outputChans b1 = outputChans b" by auto
  from timer_sends[where mar = mar and app = app, OF b1(2) assms(2,4,5,6)] obtain b2 where
    "processTimer mar app s b1 = Some (s', b2)" "holdsBatch n [] b2"
    "\<forall>j<length ds. chanBuf b2 (outputChans b1) j = [Some (res ! j)]" by blast
  moreover have "distinct (map (\<lambda>i. (outputChans b, i)) [0..<length ds])" by (simp add: distinct_map inj_on_def)
  ultimately show ?thesis using b1 by fastforce
qed

theorem batch_results_reach_senders_witness:
  "\<exists>chs b1 b2. sendMany demoMar demoRaft [] [[5], [6]] (NewBatcher 4) = Some (chs, [], b1) \<and> distinct chs \<and>
     processTimer demoMar demoRaft [] b1 = Some ([[5, 6]], b2) \<and>
     chanBuf b2 (fst (chs ! 1)) (snd (chs ! 1)) = [Some (demoResult 6)]"
proof -
  have h: "holdsBatch 4 [] (NewBatcher 4)" by (simp add: holdsBatch_def batcherOk_def NewBatcher_def)
  have "demoMar (map Some [[5], [6]]) = Inr [5, 6]" "demoRaft [] [5, 6] = Some (Inr (Some [demoResult 5, demoResult 6]), [[5, 6]])"
    by (simp_all add: demoMar_def demoRaft_def)
  from batch_results_reach_senders[where mar = demoMar and app = demoRaft, OF h _ _ this] obtain chs b1 b2 where
    c: "sendMany demoMar demoRaft [] [[5], [6]] (NewBatcher 4) = Some (chs, [], b1)" "distinct chs"
      "processTimer demoMar demoRaft [] b1 = Some ([[5, 6]], b2)"
      "\<forall>i<2. chanBuf b2 (fst (chs ! i)) (snd (chs ! i)) = [Some ([demoResult 5, demoResult 6] ! i)]" by auto
  from c(4)[rule_format, of 1] c(1-3) show ?thesis by auto
qed

text \<open>
  The sender that fills a batch waits on the wrong channel. When exactly a full batch is sent, the last
  sender returns a channel of the next batch, which is empty, while the result of its entry lies in a
  channel of the old batch that no sender has.
\<close>

theorem full_batch_last_sender:
  assumes "holdsBatch n [] b" "Suc (length ds) = n" "mar (map Some (ds @ [d])) = Inr m"
    and "app s m = Some (Inr (Some res), s')" "length res = n"
  shows "\<exists>b1 b2 b3. sendMany mar app s ds b = Some (map (\<lambda>i. (outputChans b, i)) [0..<length ds], s, b1) \<and>
    SendLog_begin d b1 = Some (length ds, b2) \<and> processInput mar app s b2 = Some (s', b3) \<and>
    SendLog_end (length ds) b3 = Some (freshChans b1, length ds) \<and> outputChans b < freshChans b1 \<and>
    chanBuf b3 (freshChans b1) (length ds) = [] \<and>
    chanBuf b3 (outputChans b) (length ds) = [Some (res ! length ds)]"
proof -
  from send_many[OF assms(1), of ds mar app s] assms(2) obtain b1 where
    b1: "sendMany mar app s ds b = Some (map (\<lambda>i. (outputChans b, i)) [0..<length ds], s, b1)" "holdsBatch n ds b1"
      "outputChans b1 = outputChans b" by auto
  from last_send[where mar = mar and app = app, OF b1(2) assms(2-5)] obtain b2 b3 where
    b2: "SendLog_begin d b1 = Some (length ds, b2)" "processInput mar app s b2 = Some (s', b3)"
      "SendLog_end (length ds) b3 = Some (freshChans b1, length ds)" "chanBuf b3 (freshChans b1) (length ds) = []"
      "\<forall>j<n. chanBuf b3 (outputChans b1) j = [Some (res ! j)]" by blast
  have "outputChans b < freshChans b1" using b1(2,3) by (simp add: holdsBatch_def batcherOk_def)
  with b1 b2 assms(2) show ?thesis by (intro exI[of _ b1] exI[of _ b2] exI[of _ b3]) auto
qed

theorem full_batch_last_sender_witness:
  "\<exists>b1 b2 b3. sendMany demoMar demoRaft [] [[5]] (NewBatcher 2) = Some ([(0, 0)], [], b1) \<and>
     SendLog_begin [6] b1 = Some (1, b2) \<and> processInput demoMar demoRaft [] b2 = Some ([[5, 6]], b3) \<and>
     SendLog_end 1 b3 = Some (freshChans b1, 1) \<and> chanBuf b3 (freshChans b1) 1 = [] \<and>
     chanBuf b3 0 1 = [Some (demoResult 6)]"
proof -
  have h: "holdsBatch 2 [] (NewBatcher 2)" "outputChans (NewBatcher 2) = 0"
    by (simp_all add: holdsBatch_def batcherOk_def NewBatcher_def)
  have "demoMar (map Some ([[5]] @ [[6]])) = Inr [5, 6]" "demoRaft [] [5, 6] = Some (Inr (Some [demoResult 5, demoResult 6]), [[5, 6]])"
    by (simp_all add: demoMar_def demoRaft_def)
  from full_batch_last_sender[where mar = demoMar and app = demoRaft, OF h(1) _ this] h(2) show ?thesis by auto
qed

text \<open>
  The timer can lose a request. Here one request waits in a batch of four; a second sender has entered
  and the timer fires before the first goroutine takes its entry, which then lands behind an empty slot of
  the next batch. Two more requests follow: the second of them gets the same channel and overwrites the
  entry, and the next log holds the two later requests only.
\<close>

theorem timer_loses_request:
  "(do { (chs, s, b) \<leftarrow> sendMany demoMar demoRaft [] [[5]] (NewBatcher 4);
         (cur, b) \<leftarrow> SendLog_begin [6] b;
         (s, b) \<leftarrow> processTimer demoMar demoRaft s b;
         (s, b) \<leftarrow> processInput demoMar demoRaft s b;
         ch \<leftarrow> SendLog_end cur b;
         (chs', s, b) \<leftarrow> sendMany demoMar demoRaft s [[7], [8]] b;
         (s, b) \<leftarrow> processTimer demoMar demoRaft s b;
         Some (ch, chs', s) }) =
   Some ((1, 1), [(1, 0), (1, 1)], [[5, 0], [7, 8]])"
  by code_simp

end
