(* ===== verification/GoText.thy ===== *)
theory GoText
  imports RbacInv
begin

text \<open>
  What the interfaces and the start-up use of Go's \<open>strings\<close>, \<open>strconv\<close> and \<open>encoding/base64\<close>, with the
  round trips of numbers and of base64.
\<close>

section \<open>Strings\<close>

fun HasPrefix :: "string \<Rightarrow> string \<Rightarrow> bool" where
  "HasPrefix s [] = True"
| "HasPrefix [] (p # ps) = False"
| "HasPrefix (c # s) (p # ps) = (c = p \<and> HasPrefix s ps)"

definition HasSuffix :: "string \<Rightarrow> string \<Rightarrow> bool" where
  "HasSuffix s suffix = HasPrefix (rev s) (rev suffix)"

fun Contains :: "string \<Rightarrow> string \<Rightarrow> bool" where
  "Contains [] p = (p = [])"
| "Contains (c # s) p = (HasPrefix (c # s) p \<or> Contains s p)"

definition TrimPrefix :: "string \<Rightarrow> string \<Rightarrow> string" where
  "TrimPrefix s p = (if HasPrefix s p then drop (length p) s else s)"

text \<open>\<open>strings.SplitN(s, sep, 2)\<close> for a separator of one character.\<close>

fun SplitTwo :: "string \<Rightarrow> char \<Rightarrow> string list" where
  "SplitTwo [] sep = [[]]"
| "SplitTwo (c # s) sep =
     (if c = sep then [[], s]
      else case SplitTwo s sep of [] \<Rightarrow> [[c]] | w # ws \<Rightarrow> (c # w) # ws)"

lemma HasPrefix_append [simp]: "HasPrefix (p @ s) p"
  by (induction p) auto

lemma TrimPrefix_append [simp]: "TrimPrefix (p @ s) p = s"
  by (simp add: TrimPrefix_def)

lemma HasPrefix_iff: "HasPrefix s p \<longleftrightarrow> (\<exists>t. s = p @ t)"
  by (induction s p rule: HasPrefix.induct) auto

lemma SplitTwo_append: "sep \<notin> set s \<Longrightarrow> SplitTwo (s @ sep # t) sep = [s, t]"
  by (induction s) auto

lemma SplitTwo_two:
  assumes "SplitTwo s sep = [u, t]"
  shows "s = u @ sep # t \<and> sep \<notin> set u"
  using assms
proof (induction s arbitrary: u)
  case (Cons c s)
  then show ?case by (cases "c = sep") (auto split: list.splits)
qed simp

section \<open>Numbers\<close>

definition digitOf :: "char \<Rightarrow> nat option" where
  "digitOf c = (if 48 \<le> (of_char c :: nat) \<and> (of_char c :: nat) \<le> 57 then Some (of_char c - 48) else None)"

text \<open>\<open>strconv.ParseUint(s, 10, bits)\<close>: a result above the largest value of the width is a range error.\<close>

fun ParseUint_loop :: "nat \<Rightarrow> nat \<Rightarrow> string \<Rightarrow> error + nat" where
  "ParseUint_loop maxVal n [] = Inr n"
| "ParseUint_loop maxVal n (c # s) =
     (case digitOf c of
        None \<Rightarrow> Inl ParseSyntax
      | Some d \<Rightarrow> if maxVal < n * 10 + d then Inl ParseRange else ParseUint_loop maxVal (n * 10 + d) s)"

definition ParseUint :: "nat \<Rightarrow> string \<Rightarrow> error + nat" where
  "ParseUint bits s = (if s = [] then Inl ParseSyntax else ParseUint_loop (2 ^ bits - 1) 0 s)"

definition digitChar :: "nat \<Rightarrow> char" where
  "digitChar d = char_of (48 + d)"

fun Utoa :: "nat \<Rightarrow> string" where
  "Utoa n = (if n < 10 then [digitChar n] else Utoa (n div 10) @ [digitChar (n mod 10)])"

declare Utoa.simps [simp del]

definition Itoa :: "int \<Rightarrow> string" where
  "Itoa i = (if i < 0 then CHR ''-'' # Utoa (nat (- i)) else Utoa (nat i))"

lemma digitOf_digitChar: "d < 10 \<Longrightarrow> digitOf (digitChar d) = Some d"
  by (simp add: digitOf_def digitChar_def)

lemma ParseUint_loop_append:
  "ParseUint_loop maxVal n (s @ t) =
     (case ParseUint_loop maxVal n s of Inl err \<Rightarrow> Inl err | Inr m \<Rightarrow> ParseUint_loop maxVal m t)"
  by (induction maxVal n s rule: ParseUint_loop.induct) (auto split: option.split)

lemma ParseUint_loop_Utoa: "n \<le> maxVal \<Longrightarrow> ParseUint_loop maxVal 0 (Utoa n) = Inr n"
proof (induction n rule: Utoa.induct)
  case (1 n)
  show ?case
  proof (cases "n < 10")
    case True
    with 1(2) show ?thesis by (subst Utoa.simps) (simp add: digitOf_digitChar)
  next
    case False
    have "n div 10 \<le> maxVal" using 1(2) by linarith
    with 1(1)[OF False] have "ParseUint_loop maxVal 0 (Utoa (n div 10)) = Inr (n div 10)" by simp
    moreover have "Utoa n = Utoa (n div 10) @ [digitChar (n mod 10)]" using False by (subst Utoa.simps) simp
    ultimately show ?thesis using 1(2) by (simp add: ParseUint_loop_append digitOf_digitChar)
  qed
qed

lemma Utoa_nonempty [simp]: "Utoa n \<noteq> []"
  by (subst Utoa.simps) simp

lemma ParseUint_Utoa: "n < 2 ^ bits \<Longrightarrow> ParseUint bits (Utoa n) = Inr n"
  by (simp add: ParseUint_def ParseUint_loop_Utoa)

lemma ParseUint_bound: "ParseUint bits s = Inr n \<Longrightarrow> n < 2 ^ bits"
proof -
  have "ParseUint_loop m k t = Inr n \<Longrightarrow> k \<le> m \<Longrightarrow> n \<le> m" for m k t
    by (induction m k t rule: ParseUint_loop.induct) (auto split: option.splits if_splits)
  then have *: "ParseUint_loop m k t = Inr n \<Longrightarrow> k \<le> m \<Longrightarrow> n \<le> m" for m k t .
  assume "ParseUint bits s = Inr n"
  with *[of "2 ^ bits - 1" 0 s] have "n \<le> 2 ^ bits - 1" by (simp add: ParseUint_def split: if_splits)
  then show ?thesis by (simp add: le_diff_conv2 less_eq_Suc_le[symmetric])
qed

lemma digitChar_other: "digitOf c = None \<Longrightarrow> d < 10 \<Longrightarrow> digitChar d \<noteq> c"
  by (metis digitOf_digitChar option.discI)

lemma Utoa_other: "digitOf c = None \<Longrightarrow> c \<notin> set (Utoa n)"
proof (induction n rule: Utoa.induct)
  case (1 n)
  show ?case
  proof (cases "n < 10")
    case True
    with 1(2) show ?thesis by (subst Utoa.simps) (auto dest: digitChar_other)
  next
    case False
    with 1 have "c \<notin> set (Utoa (n div 10))" by simp
    moreover have "Utoa n = Utoa (n div 10) @ [digitChar (n mod 10)]" using False by (subst Utoa.simps) simp
    ultimately show ?thesis using digitChar_other[OF 1(2), of "n mod 10"] by auto
  qed
qed

lemma Utoa_dash: "CHR ''-'' \<notin> set (Utoa n)"
  by (simp add: Utoa_other digitOf_def)

lemma Utoa_comma: "CHR '','' \<notin> set (Utoa n)"
  by (simp add: Utoa_other digitOf_def)

lemma Split_pieces: "Split (s @ sep # t) sep = Split s sep @ Split t sep"
proof (induction s)
  case (Cons c s)
  then show ?case by (cases "Split s sep") auto
qed simp

lemma last_Split_append: "sep \<notin> set t \<Longrightarrow> last (Split (s @ sep # t) sep) = t"
  by (simp add: Split_pieces Split_plain)

section \<open>Base64\<close>

definition b64chars :: string where
  "b64chars = ''ABCDEFGHIJKLMNOPQRSTUVWXYZabcdefghijklmnopqrstuvwxyz0123456789+/''"

definition b64val :: "char \<Rightarrow> nat option" where
  "b64val c = firstIndex (\<lambda>x. x = c) b64chars"

text \<open>
  \<open>base64.StdEncoding.DecodeString\<close>: line breaks are skipped, the last group may be padded, and bits that
  do not make up a byte are dropped.
\<close>

fun b64groups :: "string \<Rightarrow> nat list option" where
  "b64groups [] = Some []"
| "b64groups (a # b # c # d # rest) =
     do { x \<leftarrow> b64val a; y \<leftarrow> b64val b;
          if c = CHR ''='' then
            if d = CHR ''='' \<and> rest = [] then Some [x * 4 + y div 16] else None
          else do { z \<leftarrow> b64val c;
            if d = CHR ''='' then
              if rest = [] then Some [x * 4 + y div 16, (y mod 16) * 16 + z div 4] else None
            else do { w \<leftarrow> b64val d; bs \<leftarrow> b64groups rest;
              Some ([x * 4 + y div 16, (y mod 16) * 16 + z div 4, (z mod 4) * 64 + w] @ bs) } } }"
| "b64groups _ = None"

definition DecodeString :: "string \<Rightarrow> string option" where
  "DecodeString s =
     map_option (map char_of) (b64groups (filter (\<lambda>c. c \<noteq> CHR 0x0A \<and> c \<noteq> CHR 0x0D) s))"

text \<open>The encoder that clients use, for the round trip.\<close>

fun b64encode :: "nat list \<Rightarrow> string" where
  "b64encode [] = []"
| "b64encode [p] = [b64chars ! (p div 4), b64chars ! (p mod 4 * 16), CHR ''='', CHR ''='']"
| "b64encode [p, q] =
     [b64chars ! (p div 4), b64chars ! (p mod 4 * 16 + q div 16), b64chars ! (q mod 16 * 4), CHR ''='']"
| "b64encode (p # q # r # bs) =
     b64chars ! (p div 4) # b64chars ! (p mod 4 * 16 + q div 16) # b64chars ! (q mod 16 * 4 + r div 64) #
     b64chars ! (r mod 64) # b64encode bs"

definition EncodeToString :: "string \<Rightarrow> string" where
  "EncodeToString s = b64encode (map of_char s)"

lemma b64chars_facts: "length b64chars = 64" "distinct b64chars"
  "CHR ''='' \<notin> set b64chars" "CHR 0x0A \<notin> set b64chars" "CHR 0x0D \<notin> set b64chars"
  by (simp_all add: b64chars_def)

lemma b64val_nth: "i < 64 \<Longrightarrow> b64val (b64chars ! i) = Some i"
proof -
  assume i: "i < 64"
  then have m: "b64chars ! i \<in> set b64chars" by (simp add: b64chars_facts)
  then obtain j where j: "firstIndex (\<lambda>x. x = b64chars ! i) b64chars = Some j"
    by (cases "firstIndex (\<lambda>x. x = b64chars ! i) b64chars") (auto simp: firstIndex_None)
  from firstIndex_Some[OF j] i have "j = i"
    using b64chars_facts(1,2) by (metis nth_eq_iff_index_eq)
  with j show ?thesis by (simp add: b64val_def)
qed

lemma b64chars_pad: "i < 64 \<Longrightarrow> b64chars ! i \<noteq> CHR ''=''"
  using b64chars_facts by (metis nth_mem)

lemma b64groups_encode: "\<forall>b\<in>set bs. b < 256 \<Longrightarrow> b64groups (b64encode bs) = Some bs"
proof (induction bs rule: b64encode.induct)
  case (2 p)
  then have "p div 4 < 64" "p mod 4 * 16 < 64" by auto
  then show ?case by (simp add: b64val_nth)
next
  case (3 p q)
  then have "p div 4 < 64" "p mod 4 * 16 + q div 16 < 64" "q mod 16 * 4 < 64" "q div 16 < 16" by auto
  then show ?case by (simp add: b64val_nth b64chars_pad)
next
  case (4 p q r bs)
  then have "p div 4 < 64" "p mod 4 * 16 + q div 16 < 64" "q mod 16 * 4 + r div 64 < 64" "r mod 64 < 64"
    "q div 16 < 16" "r div 64 < 4" by auto
  with 4 show ?case by (simp add: b64val_nth b64chars_pad)
qed simp

lemma b64encode_chars: "\<forall>b\<in>set bs. b < 256 \<Longrightarrow> set (b64encode bs) \<subseteq> insert (CHR ''='') (set b64chars)"
proof (induction bs rule: b64encode.induct)
  case (4 p q r bs)
  then have "p div 4 < 64" "p mod 4 * 16 + q div 16 < 64" "q mod 16 * 4 + r div 64 < 64" "r mod 64 < 64" by auto
  with 4 show ?case by (simp add: b64chars_facts)
qed (auto simp: b64chars_facts)

lemma Decode_Encode: "DecodeString (EncodeToString s) = Some s"
proof -
  let ?bs = "map of_char s :: nat list"
  have b: "\<forall>b\<in>set ?bs. b < 256" by auto
  have "filter (\<lambda>c. c \<noteq> CHR 0x0A \<and> c \<noteq> CHR 0x0D) (b64encode ?bs) = b64encode ?bs"
    using b64encode_chars[OF b] b64chars_facts by (intro filter_True) auto
  with b64groups_encode[OF b] show ?thesis by (simp add: DecodeString_def EncodeToString_def comp_def)
qed

lemma Contains_iff: "Contains s p \<longleftrightarrow> (\<exists>u v. s = u @ p @ v)"
proof (induction s)
  case (Cons c s)
  have "(\<exists>u v. c # s = u @ p @ v) \<longleftrightarrow> (\<exists>v. c # s = p @ v) \<or> (\<exists>u v. s = u @ p @ v)" (is "?l \<longleftrightarrow> ?r")
  proof
    assume ?l
    then obtain u v where "c # s = u @ p @ v" by blast
    then show ?r by (cases u) auto
  next
    assume ?r
    then show ?l by (metis append_Cons append_Nil)
  qed
  with Cons show ?case by (simp add: HasPrefix_iff)
qed auto

lemma HasSuffix_iff: "HasSuffix s p \<longleftrightarrow> (\<exists>t. s = t @ p)"
  unfolding HasSuffix_def HasPrefix_iff by (metis rev_append rev_rev_ident)

end
