(* ===== verification/Rest.thy ===== *)
theory Rest
  imports HandlerInv GoText
begin

text \<open>
  The REST interface (\<open>pkg/rest\<close>). An endpoint answers at once (\<open>Done\<close>), or calls the request handler with
  a context and turns what the handler returns into a response (\<open>Call\<close>). What the HTTP library hands to an
  endpoint is an argument: the decoded body or the error of its decoder, the query values, the path
  parameters, the locals of the request. The functions of the uuid library are arguments as well.
\<close>

section \<open>Requests and responses\<close>

datatype body =
    NoBody
  | MessageBody string
  | ErrorBody error
  | TextBody string
  | FetchBody "(string \<times> bytes) list"
  | TokenBody string
  | LeaderBody bool
  | NamesBody "string list"
  | MappingBody "(string \<times> string list) list"
  | RolesBody "RawRole list"

record response =
  rspStatus :: nat
  rspBody :: body

abbreviation (input) "StatusOK \<equiv> (200 :: nat)"
abbreviation (input) "StatusCreated \<equiv> (201 :: nat)"
abbreviation (input) "StatusAccepted \<equiv> (202 :: nat)"
abbreviation (input) "StatusBadRequest \<equiv> (400 :: nat)"
abbreviation (input) "StatusUnauthorized \<equiv> (401 :: nat)"
abbreviation (input) "StatusInternalServerError \<equiv> (500 :: nat)"

datatype endpoint = Done response | Call goContext request "resultData \<times> error option \<Rightarrow> response"

definition respond :: "nat \<Rightarrow> body \<Rightarrow> response" where
  "respond st bd = \<lparr>rspStatus = st, rspBody = bd\<rparr>"

text \<open>The answer of most endpoints: a bad request with the handler's error, or the given status.\<close>

definition answer :: "nat \<Rightarrow> resultData \<times> error option \<Rightarrow> response" where
  "answer st res = (case snd res of Some err \<Rightarrow> respond StatusBadRequest (ErrorBody err) | None \<Rightarrow> respond st NoBody)"

definition noContext :: response where
  "noContext = respond StatusInternalServerError (MessageBody ''unable to find context information'')"

section \<open>The context and the two middlewares\<close>

definition createContextFromFiberContext :: "goContext \<Rightarrow> error + goContext" where
  "createContextFromFiberContext locals =
     (if locals ''consumerID'' = None \<or> locals ''username'' = None \<or> locals ''token'' = None
      then Inl ContextValuesMissing
      else Inr (Map.empty(''consumerID'' := locals ''consumerID'', ''username'' := locals ''username'',
                          ''token'' := locals ''token'')))"

text \<open>\<open>None\<close> is the call of \<open>c.Next()\<close>.\<close>

definition rest_IsLeader :: "string \<Rightarrow> bool \<Rightarrow> response option" where
  "rest_IsLeader path isLeader =
     (if Contains path ''/info'' \<or> Contains path ''/login'' \<or> Contains path ''/metrics'' then None
      else if \<not> isLeader then Some (respond StatusUnauthorized (MessageBody ''Server is not the leader''))
      else None)"

definition exempt :: "string \<Rightarrow> string \<Rightarrow> bool" where
  "exempt path method \<longleftrightarrow>
     HasSuffix path ''/info/isLeader'' \<or> HasSuffix path ''/login'' \<and> method = ''POST'' \<or> Contains path ''/metrics''"

definition sessionLocals :: "bytes \<Rightarrow> string \<Rightarrow> string \<Rightarrow> goContext" where
  "sessionLocals i username token =
     [''consumerID'' \<mapsto> CtxBytes i, ''username'' \<mapsto> CtxString username, ''token'' \<mapsto> CtxString token]"

text \<open>The locals of the request after the middleware, or its answer. A header that is not sent is empty.\<close>

definition rest_Authentication ::
    "authManager \<Rightarrow> int \<Rightarrow> string \<Rightarrow> string \<Rightarrow> string \<Rightarrow> response + goContext" where
  "rest_Authentication a now path method authHeader =
     (if exempt path method then Inr Map.empty
      else if authHeader = [] then Inl (respond StatusUnauthorized (MessageBody ''Unauthorized''))
      else if \<not> HasPrefix authHeader ''Basic ''
      then Inl (respond StatusUnauthorized (MessageBody ''Invalid Authorization header''))
      else
        case DecodeString (TrimPrefix authHeader ''Basic '') of
          None \<Rightarrow> Inl (respond StatusUnauthorized (MessageBody ''Invalid base64 encoding''))
        | Some creds \<Rightarrow>
            (let credentialsParts = SplitTwo creds (CHR '':'') in
             if length credentialsParts \<noteq> 2
             then Inl (respond StatusUnauthorized (MessageBody ''Invalid credentials format''))
             else
               (let username = credentialsParts ! 0; token = credentialsParts ! 1 in
                case authManager_GetConsumerID a now username token of
                  Inl err \<Rightarrow> Inl (respond StatusUnauthorized (MessageBody ''Unauthorized, no consumer token found''))
                | Inr i \<Rightarrow> Inr (sessionLocals i username token))))"

text \<open>\<open>NewRestServer\<close> runs the middlewares in this order, before the endpoint.\<close>

definition rest_guard ::
    "bool \<Rightarrow> authManager \<Rightarrow> int \<Rightarrow> string \<Rightarrow> string \<Rightarrow> string \<Rightarrow> response + goContext" where
  "rest_guard isLeader a now path method authHeader =
     (case rest_IsLeader path isLeader of
        Some r \<Rightarrow> Inl r
      | None \<Rightarrow> rest_Authentication a now path method authHeader)"

section \<open>Queues\<close>

record CreateQueueReq =
  cqRoutingKey :: string
  cqName :: string
  cqSize :: u32
  cqRetryLimit :: u32
  cqHasDLQueue :: bool

record AckRequest =
  arqId :: string
  arqQueue :: string

definition rest_CreateQueue :: "error + CreateQueueReq \<Rightarrow> goContext \<Rightarrow> endpoint" where
  "rest_CreateQueue parsed locals =
     (case parsed of
        Inl err \<Rightarrow> Done (respond StatusBadRequest (ErrorBody err))
      | Inr req \<Rightarrow>
          (case createContextFromFiberContext locals of
             Inl err \<Rightarrow> Done noContext
           | Inr ctx \<Rightarrow>
               Call ctx (ReqCreateQueue (cqRoutingKey req) (cqName req) (cqSize req) (cqRetryLimit req) (cqHasDLQueue req))
                 (answer StatusCreated)))"

text \<open>The conversion of the fetched messages; an identifier that is not a uuid ends the loop.\<close>

fun fetchFormat :: "(bytes \<Rightarrow> error + string) \<Rightarrow> (string \<times> bytes) list \<Rightarrow> Message list \<Rightarrow> response" where
  "fetchFormat uuidString formattedData [] = respond StatusOK (FetchBody formattedData)"
| "fetchFormat uuidString formattedData (m # ms) =
     (case uuidString (msgId m) of
        Inl err \<Rightarrow> respond StatusInternalServerError NoBody
      | Inr u \<Rightarrow> fetchFormat uuidString (formattedData @ [(u, msgData m)]) ms)"

definition rest_fetch ::
    "(bytes \<Rightarrow> error + string) \<Rightarrow> i64 \<Rightarrow> string \<Rightarrow> string \<Rightarrow> goContext \<Rightarrow> endpoint" where
  "rest_fetch uuidString nowUnix queue amountStr locals =
     (if queue = [] then Done (respond StatusBadRequest (TextBody ''queue parameter is required''))
      else
        case ParseUint 32 amountStr of
          Inl err \<Rightarrow> Done (respond StatusBadRequest (TextBody ''Error parsing amount parameter''))
        | Inr n \<Rightarrow>
            (case createContextFromFiberContext locals of
               Inl err \<Rightarrow> Done noContext
             | Inr ctx \<Rightarrow>
                 Call ctx (ReqGetMessages nowUnix queue (of_nat n))
                   (\<lambda>res. case handler_GetMessages_result res of
                            Inl err \<Rightarrow> respond StatusBadRequest (ErrorBody err)
                          | Inr data \<Rightarrow> fetchFormat uuidString [] data)))"

definition ackEndpoint ::
    "(string \<Rightarrow> bytes \<Rightarrow> request) \<Rightarrow> (string \<Rightarrow> error + bytes) \<Rightarrow> error + AckRequest \<Rightarrow> goContext \<Rightarrow> endpoint" where
  "ackEndpoint mk uuidFromString parsed locals =
     (case parsed of
        Inl err \<Rightarrow> Done (respond StatusBadRequest (ErrorBody err))
      | Inr req \<Rightarrow>
          (case createContextFromFiberContext locals of
             Inl err \<Rightarrow> Done noContext
           | Inr ctx \<Rightarrow>
               (case uuidFromString (arqId req) of
                  Inl err \<Rightarrow> Done (respond StatusInternalServerError NoBody)
                | Inr u \<Rightarrow> Call ctx (mk (arqQueue req) u) (answer StatusAccepted))))"

definition rest_ack :: "(string \<Rightarrow> error + bytes) \<Rightarrow> error + AckRequest \<Rightarrow> goContext \<Rightarrow> endpoint" where
  "rest_ack uuidFromString parsed locals = ackEndpoint ReqAck uuidFromString parsed locals"

definition rest_nack :: "(string \<Rightarrow> error + bytes) \<Rightarrow> error + AckRequest \<Rightarrow> goContext \<Rightarrow> endpoint" where
  "rest_nack uuidFromString parsed locals = ackEndpoint ReqNack uuidFromString parsed locals"

section \<open>Messages, accounts and roles\<close>

record SubmitPayload =
  spRoutingKey :: string
  spData :: string

definition rest_submit :: "bytes \<Rightarrow> error + SubmitPayload \<Rightarrow> goContext \<Rightarrow> endpoint" where
  "rest_submit uuid parsed locals =
     (case createContextFromFiberContext locals of
        Inl err \<Rightarrow> Done noContext
      | Inr ctx \<Rightarrow>
          (case parsed of
             Inl err \<Rightarrow> Done (respond StatusBadRequest (ErrorBody err))
           | Inr payload \<Rightarrow>
               Call ctx (ReqSubmitMessage uuid (spRoutingKey payload) (toBytes (spData payload))) (answer StatusAccepted)))"

record AccountCredentials =
  acUsername :: string
  acPassword :: string

definition rest_createAccount :: "error + AccountCredentials \<Rightarrow> goContext \<Rightarrow> endpoint" where
  "rest_createAccount parsed locals =
     (case createContextFromFiberContext locals of
        Inl err \<Rightarrow> Done noContext
      | Inr ctx \<Rightarrow>
          (case parsed of
             Inl err \<Rightarrow> Done (respond StatusBadRequest (ErrorBody err))
           | Inr creds \<Rightarrow>
               Call ctx (ReqCreateUser (acUsername creds) (acPassword creds)) (answer StatusCreated)))"

definition rest_createRole :: "error + string \<Rightarrow> goContext \<Rightarrow> endpoint" where
  "rest_createRole parsed locals =
     (case parsed of
        Inl err \<Rightarrow> Done (respond StatusBadRequest (ErrorBody err))
      | Inr role \<Rightarrow>
          (case createContextFromFiberContext locals of
             Inl err \<Rightarrow> Done noContext
           | Inr ctx \<Rightarrow> Call ctx (ReqCreateRole role) (answer StatusCreated)))"

definition roleEndpoint ::
    "(string \<Rightarrow> string \<Rightarrow> request) \<Rightarrow> nat \<Rightarrow> string \<Rightarrow> string \<Rightarrow> goContext \<Rightarrow> endpoint" where
  "roleEndpoint mk st username role locals =
     (if length username = 0 then Done (respond StatusBadRequest (MessageBody ''invalid username length''))
      else if length role = 0 then Done (respond StatusBadRequest (MessageBody ''invalid role length''))
      else
        case createContextFromFiberContext locals of
          Inl err \<Rightarrow> Done noContext
        | Inr ctx \<Rightarrow> Call ctx (mk role username) (answer st))"

definition rest_assignRole :: "string \<Rightarrow> string \<Rightarrow> goContext \<Rightarrow> endpoint" where
  "rest_assignRole username role locals = roleEndpoint ReqAssignRole StatusCreated username role locals"

definition rest_unassignRole :: "string \<Rightarrow> string \<Rightarrow> goContext \<Rightarrow> endpoint" where
  "rest_unassignRole username role locals = roleEndpoint ReqUnassignRole StatusOK username role locals"

section \<open>The endpoints that send commands\<close>

text \<open>
  The routers of queues, of the broker and of accounts: which endpoints a request with the given locals can
  reach, for every body, query and path parameter.
\<close>

inductive commandEndpoint :: "goContext \<Rightarrow> endpoint \<Rightarrow> bool" for locals where
  create_queue: "commandEndpoint locals (rest_CreateQueue createQueueBody locals)"
| fetch: "commandEndpoint locals (rest_fetch uuidString nowUnix queue amountStr locals)"
| ack: "commandEndpoint locals (rest_ack uuidFromString ackBody locals)"
| nack: "commandEndpoint locals (rest_nack uuidFromString ackBody locals)"
| submit: "commandEndpoint locals (rest_submit uuid submitBody locals)"
| create_account: "commandEndpoint locals (rest_createAccount accountBody locals)"
| create_role: "commandEndpoint locals (rest_createRole roleBody locals)"
| assign_role: "commandEndpoint locals (rest_assignRole username role locals)"
| unassign_role: "commandEndpoint locals (rest_unassignRole username role locals)"

lemma commandEndpoint_context:
  "commandEndpoint locals (Call ctx req k) \<Longrightarrow> createContextFromFiberContext locals = Inr ctx"
  by (erule commandEndpoint.cases)
    (auto simp: rest_CreateQueue_def rest_fetch_def rest_ack_def rest_nack_def ackEndpoint_def rest_submit_def
      rest_createAccount_def rest_createRole_def rest_assignRole_def rest_unassignRole_def roleEndpoint_def
      split: sum.splits if_splits)

lemma createContext_exempt: "createContextFromFiberContext Map.empty = Inl ContextValuesMissing"
  by (simp add: createContextFromFiberContext_def)

lemma createContext_session:
  "createContextFromFiberContext (sessionLocals i u t) = Inr ctx \<Longrightarrow>
   ctx ''consumerID'' = Some (CtxBytes i) \<and> ctx ''username'' = Some (CtxString u) \<and> ctx ''token'' = Some (CtxString t)"
  by (auto simp: createContextFromFiberContext_def sessionLocals_def)

section \<open>Information\<close>

text \<open>The orders in which maps are visited are arguments.\<close>

definition rest_routing :: "string list \<Rightarrow> broker \<Rightarrow> response" where
  "rest_routing order b = respond StatusOK (NamesBody (broker_GetKeys order b))"

definition rest_routingKey :: "broker \<Rightarrow> string \<Rightarrow> response" where
  "rest_routingKey b routingkey =
     (if length routingkey = 0 then respond 400 (TextBody ''invalid routing key length'')
      else
        case broker_GetQueues b routingkey of
          Inl err \<Rightarrow> respond 400 (TextBody ''invalid routing key name, does not exist'')
        | Inr qs \<Rightarrow> respond StatusOK (NamesBody qs))"

definition rest_queues :: "string list \<Rightarrow> queueManager \<Rightarrow> response" where
  "rest_queues order m = respond StatusOK (NamesBody (queueManager_GetAllQueues order m))"

definition rest_all :: "string list \<Rightarrow> broker \<Rightarrow> response" where
  "rest_all order b =
     respond StatusOK (MappingBody (map (\<lambda>key.
       case broker_GetQueues b key of Inl err \<Rightarrow> ([], []) | Inr qs \<Rightarrow> (key, qs)) (broker_GetKeys order b)))"

definition rest_accounts :: "authManager \<Rightarrow> response" where
  "rest_accounts a = respond StatusOK (NamesBody (GetAccounts a))"

definition rest_roles :: "string list \<Rightarrow> roleManager \<Rightarrow> response" where
  "rest_roles order r = respond StatusOK (RolesBody (GetAllRoles order r))"

definition rest_accountRoles :: "roleManager \<Rightarrow> string \<Rightarrow> response" where
  "rest_accountRoles r username =
     (if length username = 0 then respond 400 (TextBody ''invalid username length'')
      else
        case GetRoles r username of
          Inl err \<Rightarrow> respond 400 (TextBody ''invalid username, may have no roles assigned'')
        | Inr rs \<Rightarrow> respond StatusOK (RolesBody rs))"

definition rest_isLeader :: "bool \<Rightarrow> response" where
  "rest_isLeader isLeader = respond StatusOK (LeaderBody isLeader)"

section \<open>Logins\<close>

definition notLoggedIn :: response where
  "notLoggedIn = respond StatusUnauthorized (MessageBody ''user is not logged in two'')"

text \<open>The user and the token of the locals, as strings.\<close>

definition localSession :: "goContext \<Rightarrow> (string \<times> string) option" where
  "localSession locals =
     (case locals ''username'' of
        Some (CtxString usernameStr) \<Rightarrow>
          (case locals ''token'' of Some (CtxString tokenStr) \<Rightarrow> Some (usernameStr, tokenStr) | _ \<Rightarrow> None)
      | _ \<Rightarrow> None)"

definition rest_getLogin :: "authManager \<Rightarrow> int \<Rightarrow> goContext \<Rightarrow> response" where
  "rest_getLogin a now locals =
     (case localSession locals of
        None \<Rightarrow> notLoggedIn
      | Some (username, token) \<Rightarrow>
          (case authManager_GetConsumerID a now username token of
             Inl err \<Rightarrow> respond StatusUnauthorized (MessageBody ''user is not valid or logged in'')
           | Inr i \<Rightarrow> respond StatusOK NoBody))"

definition rest_login ::
    "(bytes \<Rightarrow> bytes) \<Rightarrow> kdf \<Rightarrow> string \<Rightarrow> bytes \<Rightarrow> int \<Rightarrow>
     (PropagateSessionRequest \<Rightarrow> error option) list \<Rightarrow> authManager \<Rightarrow> error + AccountCredentials \<Rightarrow>
     response \<times> authManager \<times> PropagateSessionRequest list" where
  "rest_login sha512 key token i now clients a parsed =
     (case parsed of
        Inl err \<Rightarrow> (respond 400 (TextBody ''Bad Request''), a, [])
      | Inr creds \<Rightarrow>
          (case Login key token i now clients a (acUsername creds)
                  (GenerateHash sha512 (acPassword creds) (Salt a)) of
             (Inl err, a', reqs) \<Rightarrow>
               (respond StatusBadRequest (MessageBody ''invalid credentials provided''), a', reqs)
           | (Inr t, a', reqs) \<Rightarrow> (respond StatusOK (TokenBody t), a', reqs)))"

definition rest_logout ::
    "(DeleteSessionRequest \<Rightarrow> error option) list \<Rightarrow> authManager \<Rightarrow> goContext \<Rightarrow> response \<times> authManager" where
  "rest_logout clients a locals =
     (case localSession locals of
        None \<Rightarrow> (notLoggedIn, a)
      | Some (username, token) \<Rightarrow>
          (case LogOut clients a username token of
             (Some err, a') \<Rightarrow> (respond StatusBadRequest (ErrorBody err), a')
           | (None, a') \<Rightarrow> (respond StatusAccepted NoBody, a')))"

end
