(* ===== verification/Rpc.thy ===== *)
theory Rpc
  imports Rest
begin

text \<open>
  The gRPC interface (\<open>pkg/rpc\<close>): the two interceptors, which run before every method, and the methods,
  which call the request handler and report whether it returned an error. Incoming metadata is the list of
  values per key, or nothing when the context has none. The message types of the generated code are the
  arguments of the methods.
\<close>

section \<open>Interceptors\<close>

definition rpc_IsLeader :: "string \<Rightarrow> bool \<Rightarrow> error option" where
  "rpc_IsLeader fullMethod isLeader =
     (if \<not> HasPrefix fullMethod ''/MQ.'' then None
      else if fullMethod = ''/MQ.MQEndpoints/IsLeaderNode'' then None
      else if \<not> isLeader then Some ErrNotLeader
      else None)"

definition rpc_exempt :: "string \<Rightarrow> bool" where
  "rpc_exempt fullMethod \<longleftrightarrow> \<not> HasPrefix fullMethod ''/MQ.'' \<or>
     fullMethod = ''/MQ.MQEndpoints/Login'' \<or> fullMethod = ''/MQ.MQEndpoints/IsLeaderNode''"

definition rpc_Authentication ::
    "authManager \<Rightarrow> int \<Rightarrow> string \<Rightarrow> metadata option \<Rightarrow> goContext \<Rightarrow> error + goContext" where
  "rpc_Authentication a now fullMethod incoming ctx =
     (if rpc_exempt fullMethod then Inr ctx
      else
        case incoming of
          None \<Rightarrow> Inl ErrMetaDataNotFound
        | Some md \<Rightarrow>
            (case GetConsumerIDViaMD a now md of
               Inl err \<Rightarrow> Inl ErrNoAuthToken
             | Inr i \<Rightarrow>
                 (case GetUsernameToken a md of
                    Inl err \<Rightarrow> Inl err
                  | Inr (username, token) \<Rightarrow>
                      Inr (ctx(''consumerID'' \<mapsto> CtxBytes i, ''username'' \<mapsto> CtxString username,
                               ''token'' \<mapsto> CtxString token)))))"

text \<open>The chain of interceptors that \<open>main\<close> installs.\<close>

definition rpc_guard ::
    "bool \<Rightarrow> authManager \<Rightarrow> int \<Rightarrow> string \<Rightarrow> metadata option \<Rightarrow> goContext \<Rightarrow> error + goContext" where
  "rpc_guard isLeader a now fullMethod incoming ctx =
     onNil (rpc_IsLeader fullMethod isLeader) (rpc_Authentication a now fullMethod incoming ctx)"

section \<open>Methods\<close>

text \<open>A method calls the handler with a request; the answer is a status and the error.\<close>

type_synonym rpcStatus = "bool \<times> error option"
type_synonym rpcMethod = "request \<times> (resultData \<times> error option \<Rightarrow> rpcStatus)"

definition rpcStatusOf :: "resultData \<times> error option \<Rightarrow> rpcStatus" where
  "rpcStatusOf res = (snd res = None, snd res)"

definition rpc_SubmitMessage :: "bytes \<Rightarrow> string \<Rightarrow> bytes \<Rightarrow> rpcMethod" where
  "rpc_SubmitMessage uuid routingKey data = (ReqSubmitMessage uuid routingKey data, rpcStatusOf)"

text \<open>\<open>GetMessages\<close> answers with the messages.\<close>

definition rpc_GetMessages ::
    "i64 \<Rightarrow> string \<Rightarrow> u32 \<Rightarrow> request \<times> (resultData \<times> error option \<Rightarrow> (bytes \<times> bytes) list \<times> error option)" where
  "rpc_GetMessages nowUnix queueName n =
     (ReqGetMessages nowUnix queueName n,
      \<lambda>res. case handler_GetMessages_result res of
              Inl err \<Rightarrow> ([], Some err)
            | Inr msgs \<Rightarrow> (map (\<lambda>m. (msgId m, msgData m)) msgs, None))"

definition rpc_CreateQueue :: "string \<Rightarrow> string \<Rightarrow> u32 \<Rightarrow> u32 \<Rightarrow> bool \<Rightarrow> rpcMethod" where
  "rpc_CreateQueue routingKey name sz retryLimit hasDLQueue =
     (ReqCreateQueue routingKey name sz retryLimit hasDLQueue, rpcStatusOf)"

definition rpc_Ack :: "string \<Rightarrow> bytes \<Rightarrow> rpcMethod" where
  "rpc_Ack queueName i = (ReqAck queueName i, rpcStatusOf)"

text \<open>\<open>Login\<close> returns the headers it sends, the username and the token; \<open>sendHeader\<close> is the library's call.\<close>

definition rpc_Login ::
    "(string \<times> string \<Rightarrow> error option) \<Rightarrow> (bytes \<Rightarrow> bytes) \<Rightarrow> string \<Rightarrow> kdf \<Rightarrow> string \<Rightarrow> bytes \<Rightarrow> int \<Rightarrow>
     (PropagateSessionRequest \<Rightarrow> error option) list \<Rightarrow> authManager \<Rightarrow> string \<Rightarrow> string \<Rightarrow>
     rpcStatus \<times> (string \<times> string) option \<times> authManager" where
  "rpc_Login sendHeader sha512 salt key token i now clients a username password =
     (case handler_Login sha512 salt key token i now clients a username password of
        (Inl err, a', reqs) \<Rightarrow> ((False, Some err), None, a')
      | (Inr t, a', reqs) \<Rightarrow>
          (case sendHeader (username, t) of
             Some err \<Rightarrow> ((False, Some err), None, a')
           | None \<Rightarrow> ((True, None), Some (username, t), a')))"

definition rpc_ChangePassword :: "string \<Rightarrow> string \<Rightarrow> string \<Rightarrow> rpcMethod" where
  "rpc_ChangePassword username oldPassword newPassword =
     (ReqChangePassword username oldPassword newPassword, rpcStatusOf)"

definition rpc_Nack :: "string \<Rightarrow> bytes \<Rightarrow> rpcMethod" where
  "rpc_Nack queueName i = (ReqNack queueName i, rpcStatusOf)"

definition rpc_DeleteQueue :: "string \<Rightarrow> rpcMethod" where
  "rpc_DeleteQueue queueName = (ReqDeleteQueue queueName, rpcStatusOf)"

definition rpc_AddRoutingKey :: "string \<Rightarrow> string \<Rightarrow> rpcMethod" where
  "rpc_AddRoutingKey routeName queueName = (ReqAddRoutingKey routeName queueName, rpcStatusOf)"

definition rpc_DeleteRoutingKey :: "string \<Rightarrow> string \<Rightarrow> rpcMethod" where
  "rpc_DeleteRoutingKey routeName queueName = (ReqDeleteRoutingKey routeName queueName, rpcStatusOf)"

definition rpc_CreateUser :: "string \<Rightarrow> string \<Rightarrow> rpcMethod" where
  "rpc_CreateUser username password = (ReqCreateUser username password, rpcStatusOf)"

definition rpc_SubmitBatchedMessages :: "(nat \<Rightarrow> bytes) \<Rightarrow> (string \<times> bytes) list \<Rightarrow> rpcMethod" where
  "rpc_SubmitBatchedMessages uuid messages =
     (ReqSubmitBatch uuid (map (\<lambda>(routingKey, data). \<lparr>subRoutingKey = routingKey, subData = data\<rparr>) messages),
      rpcStatusOf)"

definition rpc_IsLeaderNode :: "'s option \<Rightarrow> 's \<Rightarrow> rpcStatus" where
  "rpc_IsLeaderNode raftState leader =
     (case handler_IsLeaderNode raftState leader of Inl err \<Rightarrow> (False, Some err) | Inr ok \<Rightarrow> (ok, None))"

definition rpc_DeleteUser :: "string \<Rightarrow> rpcMethod" where
  "rpc_DeleteUser username = (ReqDeleteUser username, rpcStatusOf)"

definition rpc_BatchAck :: "string \<Rightarrow> bytes list \<Rightarrow> rpcMethod" where
  "rpc_BatchAck queueName ids = (ReqBatchAck queueName ids, rpcStatusOf)"

definition rpc_BatchNack :: "string \<Rightarrow> bytes list \<Rightarrow> rpcMethod" where
  "rpc_BatchNack queueName ids = (ReqBatchNack queueName ids, rpcStatusOf)"

definition rpc_LogOut ::
    "(DeleteSessionRequest \<Rightarrow> error option) list \<Rightarrow> authManager \<Rightarrow> goContext \<Rightarrow> rpcStatus \<times> authManager" where
  "rpc_LogOut clients a ctx = (case handler_LogOut clients a ctx of (err, a') \<Rightarrow> ((err = None, err), a'))"

definition rpc_CreateRole :: "string \<Rightarrow> rpcMethod" where
  "rpc_CreateRole role = (ReqCreateRole role, rpcStatusOf)"

definition rpc_AssignRole :: "string \<Rightarrow> string \<Rightarrow> rpcMethod" where
  "rpc_AssignRole role username = (ReqAssignRole role username, rpcStatusOf)"

definition rpc_UnassignRole :: "string \<Rightarrow> string \<Rightarrow> rpcMethod" where
  "rpc_UnassignRole role username = (ReqUnassignRole role username, rpcStatusOf)"

end
