(* ===== verification/RestRoutes.thy ===== *)
theory RestRoutes
  imports Rest "HOL-Library.Sublist"
begin

text \<open>
  The routes of the REST interface (\<open>pkg/rest/v1.go\<close>): which endpoint of \<open>Rest\<close> a method and a path stand
  for, and which of the paths the two middlewares let through without a session or on a follower.

  A pattern is a list of segments; the router of the HTTP library matches it with a path that has the
  literal segments and, for every parameter, one segment that is not empty.
\<close>

section \<open>Routes\<close>

datatype segment = Lit string | Param

datatype v1Endpoint =
    GetRouting | GetRoutingKey | GetQueues | GetAll | GetAccountNames | GetRoleNames | GetAccountRoles | GetIsLeader
  | PostAccount | PostRole | PutAccountRole | DeleteAccountRole | GetLogin | PostLogin | PostLogout | PostSubmit
  | PostQueue | GetFetch | PutAck | PutNack

type_synonym route = "string \<times> segment list \<times> v1Endpoint"

definition Group :: "segment list \<Rightarrow> route list \<Rightarrow> route list" where
  "Group pre routes = map (\<lambda>(method, segs, e). (method, pre @ segs, e)) routes"

definition createInfo :: "route list" where
  "createInfo = Group [Lit ''info'']
     [(''GET'', [Lit ''routing''], GetRouting),
      (''GET'', [Lit ''routing'', Param], GetRoutingKey),
      (''GET'', [Lit ''queues''], GetQueues),
      (''GET'', [Lit ''all''], GetAll),
      (''GET'', [Lit ''accounts''], GetAccountNames),
      (''GET'', [Lit ''roles''], GetRoleNames),
      (''GET'', [Lit ''accounts'', Lit ''roles'', Param], GetAccountRoles),
      (''GET'', [Lit ''isLeader''], GetIsLeader)]"

definition createAccounts :: "route list" where
  "createAccounts = Group [Lit ''accounts'']
     [(''POST'', [], PostAccount),
      (''POST'', [Lit ''roles'', Lit ''create''], PostRole),
      (''PUT'', [Lit ''roles'', Param, Param], PutAccountRole),
      (''DELETE'', [Lit ''roles'', Param, Param], DeleteAccountRole)]"

definition createLogin :: "route list" where
  "createLogin =
     [(''GET'', [Lit ''login''], GetLogin),
      (''POST'', [Lit ''login''], PostLogin),
      (''POST'', [Lit ''logout''], PostLogout)]"

definition addBrokerRouter :: "route list" where
  "addBrokerRouter = Group [Lit ''broker''] [(''POST'', [Lit ''submit''], PostSubmit)]"

definition addQueueRouter :: "route list" where
  "addQueueRouter = Group [Lit ''queue'']
     [(''POST'', [Lit ''create''], PostQueue),
      (''GET'', [Lit ''fetch''], GetFetch),
      (''PUT'', [Lit ''ack''], PutAck),
      (''PUT'', [Lit ''nack''], PutNack)]"

definition createV1 :: "route list" where
  "createV1 = Group [Lit ''api'', Lit ''v1'']
     (createInfo @ createAccounts @ createLogin @ addBrokerRouter @ addQueueRouter)"

text \<open>The segments of a path for a pattern and its parameters, and the path itself.\<close>

fun fill :: "segment list \<Rightarrow> string list \<Rightarrow> string list option" where
  "fill [] [] = Some []"
| "fill [] (p # ps) = None"
| "fill (Lit s # segs) ps = map_option ((#) s) (fill segs ps)"
| "fill (Param # segs) [] = None"
| "fill (Param # segs) (p # ps) =
     (if p \<noteq> [] \<and> CHR ''/'' \<notin> set p then map_option ((#) p) (fill segs ps) else None)"

definition pathOf :: "string list \<Rightarrow> string" where
  "pathOf parts = concat (map (\<lambda>s. CHR ''/'' # s) parts)"

section \<open>Segments of a path\<close>

lemma Split_pathOf:
  "\<forall>s\<in>set parts. CHR ''/'' \<notin> set s \<Longrightarrow> Split (s0 @ pathOf parts) (CHR ''/'') = Split s0 (CHR ''/'') @ parts"
  by (induction parts arbitrary: s0) (auto simp: pathOf_def Split_pieces Split_plain)

lemma hd_Split: "CHR ''/'' \<notin> set p \<Longrightarrow> HasPrefix (hd (Split (p @ s) (CHR ''/''))) p"
proof (induction p)
  case (Cons c p)
  then show ?case by (cases "Split (p @ s) (CHR ''/'')") auto
qed simp

lemma Contains_pathOf:
  assumes "\<forall>s\<in>set parts. CHR ''/'' \<notin> set s" "CHR ''/'' \<notin> set p"
  shows "Contains (pathOf parts) (CHR ''/'' # p) \<longleftrightarrow> (\<exists>s\<in>set parts. HasPrefix s p)"
proof
  assume "Contains (pathOf parts) (CHR ''/'' # p)"
  then obtain u v where "pathOf parts = u @ CHR ''/'' # p @ v" by (auto simp: Contains_iff)
  with Split_pathOf[OF assms(1), of "[]"] have s: "[] # parts = Split u (CHR ''/'') @ Split (p @ v) (CHR ''/'')"
    by (simp add: Split_pieces)
  have "Split u (CHR ''/'') \<noteq> []" "Split (p @ v) (CHR ''/'') \<noteq> []" by simp_all
  with s have "hd (Split (p @ v) (CHR ''/'')) \<in> set parts" by (cases "Split u (CHR ''/'')") auto
  with hd_Split[OF assms(2)] show "\<exists>s\<in>set parts. HasPrefix s p" by blast
next
  assume "\<exists>s\<in>set parts. HasPrefix s p"
  then obtain xs t ys where "parts = xs @ (p @ t) # ys" by (auto simp: HasPrefix_iff in_set_conv_decomp)
  then have "pathOf parts = pathOf xs @ (CHR ''/'' # p) @ t @ pathOf ys" by (simp add: pathOf_def)
  then show "Contains (pathOf parts) (CHR ''/'' # p)" unfolding Contains_iff by blast
qed

lemma HasSuffix_pathOf:
  assumes "\<forall>s\<in>set parts. CHR ''/'' \<notin> set s" "\<forall>s\<in>set ends. CHR ''/'' \<notin> set s"
  shows "HasSuffix (pathOf parts) (pathOf ends) \<longleftrightarrow> suffix ends parts"
proof
  assume "HasSuffix (pathOf parts) (pathOf ends)"
  then obtain t where "pathOf parts = t @ pathOf ends" by (auto simp: HasSuffix_iff)
  with Split_pathOf[OF assms(1), of "[]"] Split_pathOf[OF assms(2), of t] have "[] # parts = Split t (CHR ''/'') @ ends"
    by simp
  then show "suffix ends parts" by (cases "Split t (CHR ''/'')") (auto simp: suffix_def)
qed (auto simp: HasSuffix_iff suffix_def pathOf_def)

section \<open>What the middlewares let through\<close>

lemma fill_parts:
  "fill segs ps = Some parts \<Longrightarrow> \<forall>s. Lit s \<in> set segs \<longrightarrow> CHR ''/'' \<notin> set s \<Longrightarrow> \<forall>s\<in>set parts. CHR ''/'' \<notin> set s"
  by (induction segs ps arbitrary: parts rule: fill.induct) (auto split: if_splits)

lemma fill_prefix:
  "fill segs ps = Some parts \<Longrightarrow>
   (\<exists>s\<in>set parts. HasPrefix s p) \<longleftrightarrow> (\<exists>s. Lit s \<in> set segs \<and> HasPrefix s p) \<or> (\<exists>s\<in>set ps. HasPrefix s p)"
  by (induction segs ps arbitrary: parts rule: fill.induct) (auto split: if_splits)

lemmas v1_defs = createV1_def createInfo_def createAccounts_def createLogin_def addBrokerRouter_def addQueueRouter_def Group_def

lemma v1_plain: "(method, segs, e) \<in> set createV1 \<Longrightarrow> Lit s \<in> set segs \<Longrightarrow> CHR ''/'' \<notin> set s"
  by (auto simp: v1_defs)

lemma fill_Some:
  "fill [] ps = Some parts \<longleftrightarrow> ps = [] \<and> parts = []"
  "fill (Lit s # segs) ps = Some parts \<longleftrightarrow> (\<exists>parts'. parts = s # parts' \<and> fill segs ps = Some parts')"
  "fill (Param # segs) ps = Some parts \<longleftrightarrow>
     (\<exists>p ps' parts'. ps = p # ps' \<and> p \<noteq> [] \<and> CHR ''/'' \<notin> set p \<and> parts = p # parts' \<and> fill segs ps' = Some parts')"
  by (cases ps; auto)+

text \<open>The endpoints that answer without a session: the leader query, the login, and whatever a parameter opens.\<close>

definition openRoute :: "v1Endpoint \<Rightarrow> string list \<Rightarrow> bool" where
  "openRoute e ps \<longleftrightarrow> e = GetIsLeader \<or> e = PostLogin \<or> ps = [''info'', ''isLeader''] \<or> (\<exists>p\<in>set ps. HasPrefix p ''metrics'')"

text \<open>The endpoints that answer on a follower.\<close>

definition followerRoute :: "v1Endpoint \<Rightarrow> string list \<Rightarrow> bool" where
  "followerRoute e ps \<longleftrightarrow>
     e \<in> {GetRouting, GetRoutingKey, GetQueues, GetAll, GetAccountNames, GetRoleNames, GetAccountRoles, GetIsLeader, GetLogin, PostLogin} \<or>
     (\<exists>p\<in>set ps. HasPrefix p ''info'' \<or> HasPrefix p ''login'' \<or> HasPrefix p ''metrics'')"

lemma v1_suffix:
  assumes "(method, segs, e) \<in> set createV1" "fill segs ps = Some parts"
  shows "suffix [''info'', ''isLeader''] parts \<or> suffix [''login''] parts \<and> method = ''POST'' \<longleftrightarrow>
    e = GetIsLeader \<or> e = PostLogin \<or> ps = [''info'', ''isLeader'']"
  using assms by (auto simp: v1_defs fill_Some suffix_Cons)

lemma v1_literals:
  assumes "(method, segs, e) \<in> set createV1"
  shows "\<not> (\<exists>s. Lit s \<in> set segs \<and> HasPrefix s ''metrics'')"
    "(\<exists>s. Lit s \<in> set segs \<and> (HasPrefix s ''info'' \<or> HasPrefix s ''login'')) \<longleftrightarrow> followerRoute e []"
  using assms by (auto simp: v1_defs followerRoute_def)

lemma v1_exempt:
  assumes "(method, segs, e) \<in> set createV1" "fill segs ps = Some parts"
  shows "exempt (pathOf parts) method \<longleftrightarrow> openRoute e ps"
proof -
  have plain: "\<forall>s\<in>set parts. CHR ''/'' \<notin> set s" using fill_parts[OF assms(2)] v1_plain[OF assms(1)] by blast
  have "HasSuffix (pathOf parts) (pathOf [''info'', ''isLeader'']) \<longleftrightarrow> suffix [''info'', ''isLeader''] parts"
    "HasSuffix (pathOf parts) (pathOf [''login'']) \<longleftrightarrow> suffix [''login''] parts"
    "Contains (pathOf parts) (CHR ''/'' # ''metrics'') \<longleftrightarrow> (\<exists>s\<in>set parts. HasPrefix s ''metrics'')"
    using plain by (simp_all add: HasSuffix_pathOf Contains_pathOf del: HasPrefix.simps)
  then have "exempt (pathOf parts) method \<longleftrightarrow> suffix [''info'', ''isLeader''] parts \<or>
      suffix [''login''] parts \<and> method = ''POST'' \<or> (\<exists>s\<in>set parts. HasPrefix s ''metrics'')"
    by (simp add: exempt_def pathOf_def)
  then show ?thesis
    using fill_prefix[OF assms(2), of "''metrics''"] v1_suffix[OF assms] v1_literals(1)[OF assms(1)]
    unfolding openRoute_def by blast
qed

lemma v1_IsLeader:
  assumes "(method, segs, e) \<in> set createV1" "fill segs ps = Some parts"
  shows "rest_IsLeader (pathOf parts) isLeader = None \<longleftrightarrow> isLeader \<or> followerRoute e ps"
proof -
  have plain: "\<forall>s\<in>set parts. CHR ''/'' \<notin> set s" using fill_parts[OF assms(2)] v1_plain[OF assms(1)] by blast
  have c: "Contains (pathOf parts) (CHR ''/'' # p) \<longleftrightarrow> (\<exists>s. Lit s \<in> set segs \<and> HasPrefix s p) \<or> (\<exists>s\<in>set ps. HasPrefix s p)"
    if "CHR ''/'' \<notin> set p" for p
    using Contains_pathOf[OF plain that] fill_prefix[OF assms(2)] by simp
  have f: "followerRoute e ps \<longleftrightarrow> followerRoute e [] \<or> (\<exists>p\<in>set ps. HasPrefix p ''info'' \<or> HasPrefix p ''login'' \<or> HasPrefix p ''metrics'')"
    by (simp add: followerRoute_def)
  have "Contains (pathOf parts) ''/info'' \<or> Contains (pathOf parts) ''/login'' \<or> Contains (pathOf parts) ''/metrics'' \<longleftrightarrow>
      followerRoute e ps"
    using c[of "''info''"] c[of "''login''"] c[of "''metrics''"] v1_literals[OF assms(1)] unfolding f by simp blast
  then show ?thesis by (auto simp: rest_IsLeader_def)
qed

end
