(* ===== verification/Startup.thy ===== *)
theory Startup
  imports GoText FsmReplicas
begin

text \<open>
  The configuration (\<open>pkg/config/config.go\<close>) and the start of the server (\<open>cmd/main.go\<close>): settings with
  their defaults, the peers of a node, the raft servers, and the first state of the state machine.

  The settings come from viper, given as the functions \<open>GetInt\<close> (for \<open>GetInt64\<close> as well), \<open>GetUint64\<close>, \<open>GetString\<close> and
  \<open>GetBool\<close> of a record. The
  Kubernetes client is a record as well: whether it can be made, the stateful sets it knows, and the list of
  its answers for the pods and services of a namespace with a selector, poll by poll. \<open>log.Fatal().Msg\<close> ends the
  process: the result is \<open>Inl (Fatal message)\<close>. Listeners, TLS files, metrics and the servers of the gRPC
  and HTTP libraries are not part of the model.
\<close>

section \<open>Kubernetes\<close>

definition extractNumber :: "string \<Rightarrow> error + nat" where
  "extractNumber s =
     (let parts = Split s (CHR ''-'') in
      if 0 < length parts then ParseUint 64 (last parts) else Inl NoNumberFound)"

text \<open>The conversion of a byte slice to a string.\<close>

definition fromBytes :: "bytes \<Rightarrow> string" where
  "fromBytes bs = map (\<lambda>w. char_of (unat w)) bs"

lemma fromBytes_toBytes[simp]: "fromBytes (toBytes s) = s"
proof -
  have "char_of (unat (of_char c :: 8 word)) = c" for c :: char
  proof -
    have "unat (of_nat (of_char c) :: 8 word) = of_char c" by (simp only: unat_of_nat) simp
    then show ?thesis by (simp add: of_nat_of_char)
  qed
  then show ?thesis by (simp add: fromBytes_def toBytes_def comp_def map_idI)
qed

text \<open>The address under which a service is reached.\<close>

definition peerAddress :: "string \<Rightarrow> int \<Rightarrow> string \<Rightarrow> string" where
  "peerAddress namespace port service = service @ ''.'' @ namespace @ ''.svc.cluster.local:'' @ Itoa port"

text \<open>The loop over the services; a write behind the end of the two slices panics.\<close>

fun fillPeers ::
    "string \<Rightarrow> int \<Rightarrow> nat \<Rightarrow> nat \<Rightarrow> nat \<Rightarrow> string list \<Rightarrow> string list \<Rightarrow> string list \<Rightarrow>
     (string list \<times> string list) option" where
  "fillPeers namespace port podID i k [] addresses ids = Some (addresses, ids)"
| "fillPeers namespace port podID i k (service # services) addresses ids =
     (if i = podID then fillPeers namespace port podID (Suc i) k services addresses ids
      else if k < length addresses \<and> k < length ids then
        fillPeers namespace port podID (Suc i) (Suc k) services
          (addresses[k := peerAddress namespace port service]) (ids[k := Itoa (int i)])
      else None)"

text \<open>One poll: the number of pods, or an error; the names of the services, or an error.\<close>

type_synonym poll = "(error + nat) \<times> (error + string list)"

datatype k8sResult = Waiting | Exits error | Panics | Peers "string list" "string list" nat

fun KubernetesAutoConfig_loop ::
    "nat \<Rightarrow> string \<Rightarrow> string \<Rightarrow> int \<Rightarrow> poll list \<Rightarrow> k8sResult" where
  "KubernetesAutoConfig_loop replicaCount podHostName namespace port [] = Waiting"
| "KubernetesAutoConfig_loop replicaCount podHostName namespace port ((pods, services) # polls) =
     (case pods of
        Inl err \<Rightarrow> Exits (Fatal ''Unable to get pods'')
      | Inr n \<Rightarrow>
          if n \<noteq> replicaCount then KubernetesAutoConfig_loop replicaCount podHostName namespace port polls
          else
            (case services of
               Inl err \<Rightarrow> Exits (Fatal ''Unable to get services'')
             | Inr names \<Rightarrow>
                 (case extractNumber podHostName of
                    Inl err \<Rightarrow> Exits (Fatal ''unable to get index'')
                  | Inr podID \<Rightarrow>
                      (case fillPeers namespace port podID 0 0 names
                              (replicate (replicaCount - 1) []) (replicate (replicaCount - 1) []) of
                         None \<Rightarrow> Panics
                       | Some (addresses, ids) \<Rightarrow> Peers addresses ids podID))))"

definition KubernetesAutoConfig_pods :: "int \<Rightarrow> string \<Rightarrow> string \<Rightarrow> int \<Rightarrow> poll list \<Rightarrow> k8sResult" where
  "KubernetesAutoConfig_pods replicaCount podHostName namespace port polls =
     (if replicaCount < 1 then Panics
      else KubernetesAutoConfig_loop (nat replicaCount) podHostName namespace port polls)"

text \<open>
  The client: \<open>StatefulSetGet\<close> takes a namespace and a name, and gives the namespace and the formatted selector
  of the stateful set; \<open>PodsAndServices\<close> takes these two.
\<close>

record kubernetes =
  InClusterConfig :: "error option"
  NewForConfig :: "error option"
  StatefulSetGet :: "string \<Rightarrow> string \<Rightarrow> error + string \<times> string"
  PodsAndServices :: "string \<Rightarrow> string \<Rightarrow> poll list"

definition KubernetesAutoConfig ::
    "kubernetes \<Rightarrow> (string \<Rightarrow> error + bytes) \<Rightarrow> int \<Rightarrow> string \<Rightarrow> string \<Rightarrow> int \<Rightarrow> k8sResult" where
  "KubernetesAutoConfig clientset readFile replicaCount podHostName statefulsetName port =
     (if InClusterConfig clientset \<noteq> None then Exits (Fatal ''Not running inside Kubernetes'')
      else if NewForConfig clientset \<noteq> None then Exits (Fatal ''Unable to create config inside Kubernetes'')
      else
        (case readFile ''/var/run/secrets/kubernetes.io/serviceaccount/namespace'' of
           Inl err \<Rightarrow> Exits (Fatal ''Unable to get current namespace'')
         | Inr data \<Rightarrow>
             (let namespace = fromBytes data in
              case StatefulSetGet clientset namespace statefulsetName of
                Inl err \<Rightarrow> Exits (Fatal ''Unable to get statefulsets'')
              | Inr (setNamespace, selector) \<Rightarrow>
                  KubernetesAutoConfig_pods replicaCount podHostName namespace port
                    (PodsAndServices clientset setNamespace selector))))"

section \<open>Settings\<close>

record viper =
  GetInt :: "string \<Rightarrow> int"
  GetUint64 :: "string \<Rightarrow> nat"
  GetString :: "string \<Rightarrow> string"
  GetBool :: "string \<Rightarrow> bool"

definition orDefault :: "int \<Rightarrow> int \<Rightarrow> int" where
  "orDefault x d = (if x = 0 then d else x)"

record settings =
  sNodeTTL :: int
  sTokenDuration :: int
  sStreamBuildTimeout :: int
  sStreamBuildAttempts :: int
  sAppendTimeout :: int
  sRaftBatchLimit :: int
  sSalt :: string
  sPort :: int
  sRestPort :: int
  sElectionTimeout :: int
  sHeartbeatTimeout :: int
  sSnapshotThreshold :: int
  sAddresses :: "string list"
  sIds :: "string list"
  sRaftId :: int

text \<open>
  The addresses, the ids and the own id: from Kubernetes, or from the comma-separated settings. \<open>None\<close> is a
  panic or the loop that waits for the pods.
\<close>

definition main_peers ::
    "viper \<Rightarrow> string \<Rightarrow> kubernetes \<Rightarrow> (string \<Rightarrow> error + bytes) \<Rightarrow> int \<Rightarrow>
     (error + string list \<times> string list \<times> int) option" where
  "main_peers v hostname clientset readFile port =
     (if GetBool v ''K8S_AUTO'' then
        if GetString v ''STATEFULSET_NAME'' = [] then
          Some (Inl (Fatal ''statefulsetName is required if using K8S_AUTO''))
        else if GetInt v ''REPLICA_COUNT'' < 1 then Some (Inl (Fatal ''REPLICA_COUNT must be greater than 0''))
        else
          (case KubernetesAutoConfig clientset readFile (GetInt v ''REPLICA_COUNT'') hostname (GetString v ''STATEFULSET_NAME'') port of
             Peers addresses ids podID \<Rightarrow> Some (Inr (addresses, ids, int podID))
           | Exits err \<Rightarrow> Some (Inl err)
           | _ \<Rightarrow> None)
      else
        let addresses = Split (GetString v ''ADDRESSES'') (CHR '','');
            ids = Split (GetString v ''NODES'') (CHR '','') in
        if length ids \<noteq> length addresses then Some (Inl (Fatal ''addresses and ids must be same length''))
        else if GetUint64 v ''RAFT_NODE_ID'' = 0 then Some (Inl (Fatal ''RAFT_NODE_ID is required''))
        else Some (Inr (addresses, ids, int (GetUint64 v ''RAFT_NODE_ID''))))"

text \<open>The port of the REST interface, the timeouts of raft and its snapshot threshold, each with its default.\<close>

definition main_restPort :: "viper \<Rightarrow> int" where
  "main_restPort v = orDefault (GetInt v ''PROM_PORT'') 7878"

definition main_electionTimeout :: "viper \<Rightarrow> int" where
  "main_electionTimeout v = orDefault (GetInt v ''ELECTION_TIMEOUT'') 2"

definition main_heartbeatTimeout :: "viper \<Rightarrow> int" where
  "main_heartbeatTimeout v = orDefault (GetInt v ''HEARTBEAT_TIMEOUT'') 2"

definition main_snapshotThreshold :: "viper \<Rightarrow> int" where
  "main_snapshotThreshold v = orDefault (int (GetUint64 v ''SNAPSHOT_THRESHOLD'')) 10"

text \<open>
  The settings of a node: the salt, the server port and the other values with their defaults, which the code
  reads first, then the peers. The values that it reads further down are collected here as well.
\<close>

definition main_settings ::
    "viper \<Rightarrow> string \<Rightarrow> kubernetes \<Rightarrow> (string \<Rightarrow> error + bytes) \<Rightarrow> (error + settings) option" where
  "main_settings v hostname clientset readFile =
     (if GetString v ''SALT'' = [] then Some (Inl (Fatal ''SALT is required''))
      else
        let port = orDefault (GetInt v ''SERVER_PORT'') 2221 in
        do { peers \<leftarrow> main_peers v hostname clientset readFile port;
             Some (onOk peers (\<lambda>(addresses, ids, raftId).
               Inr \<lparr>sNodeTTL = orDefault (GetInt v ''NODE_TTL'') (5 * 60),
                    sTokenDuration = orDefault (GetInt v ''TOKEN_DURATION'') 1800,
                    sStreamBuildTimeout = orDefault (GetInt v ''STREAM_BUILD_TIMEOUT'') 2,
                    sStreamBuildAttempts = orDefault (GetInt v ''STREAM_BUILD_ATTEMPTS'') 3,
                    sAppendTimeout = orDefault (GetInt v ''APPEND_TIMEOUT'') 3,
                    sRaftBatchLimit = orDefault (GetInt v ''RAFT_BATCH_LIMIT'') 1000,
                    sSalt = GetString v ''SALT'', sPort = port,
                    sRestPort = main_restPort v,
                    sElectionTimeout = main_electionTimeout v,
                    sHeartbeatTimeout = main_heartbeatTimeout v,
                    sSnapshotThreshold = main_snapshotThreshold v,
                    sAddresses = addresses, sIds = ids, sRaftId = raftId\<rparr>)) })"

text \<open>The loop that makes the raft servers, each with its address and id.\<close>

fun main_servers :: "string list \<Rightarrow> string list \<Rightarrow> (error + (string \<times> nat) list) option" where
  "main_servers [] ids = Some (Inr [])"
| "main_servers (address # addresses) [] = None"
| "main_servers (address # addresses) (i # ids) =
     (case ParseUint 64 i of
        Inl err \<Rightarrow> Some (Inl (Fatal ''invalid id passed in''))
      | Inr n \<Rightarrow> map_option (\<lambda>r. onOk r (\<lambda>servers. Inr ((address, n) # servers))) (main_servers addresses ids))"

section \<open>The first state\<close>

text \<open>\<open>time.Second * time.Duration(tokenDuration)\<close>: a product of 64-bit integers, in nanoseconds.\<close>

definition tokenNanos :: "int \<Rightarrow> int" where
  "tokenNanos seconds = sint (word_of_int (seconds * 1000000000) :: i64)"

text \<open>The first account. Its error is not looked at, so a failure leaves the manager without an account.\<close>

definition main_account :: "kdf \<Rightarrow> error + bytes \<Rightarrow> (bytes \<Rightarrow> bytes) \<Rightarrow> string \<Rightarrow> authManager \<Rightarrow> authManager" where
  "main_account key rnd sha512 salt authManger =
     snd (CreateUser key rnd authManger ''sybline'' (GenerateHash sha512 ''sybline'' salt))"

definition main_fsm :: "kdf \<Rightarrow> error + bytes \<Rightarrow> (bytes \<Rightarrow> bytes) \<Rightarrow> settings \<Rightarrow> syblineFSM" where
  "main_fsm key rnd sha512 st =
     (let authManger = NewAuthManager NewSessionHandler (tokenNanos (sTokenDuration st)) (sSalt st);
          queueMan = NewQueueManager (word_of_int (sNodeTTL st));
          rbacManager = snd (AssignRole NewRoleManager ''sybline'' ''ROOT'') in
      \<lparr>fBroker = NewBroker queueMan,
       fAuth = main_account key rnd sha512 (sSalt st) authManger,
       fRoles = rbacManager\<rparr>)"

section \<open>Facts\<close>

lemma extractNumber_ordinal:
  "n < 2 ^ 64 \<Longrightarrow> extractNumber (name @ CHR ''-'' # Utoa n) = Inr n"
  using last_Split_append[OF Utoa_dash, of name n] by (simp add: extractNumber_def Let_def ParseUint_Utoa)

text \<open>The peers of a pod: every other service, in order.\<close>

definition otherServices :: "nat \<Rightarrow> nat \<Rightarrow> string list \<Rightarrow> (nat \<times> string) list" where
  "otherServices i podID services = filter (\<lambda>p. fst p \<noteq> podID) (enumerate i services)"

lemma fillPeers_split:
  assumes "length ids = length as"
  shows "fillPeers ns port podID i k services as ids =
    (if k + length (otherServices i podID services) \<le> length as \<or> otherServices i podID services = []
     then Some (take k as @ map (\<lambda>p. peerAddress ns port (snd p)) (otherServices i podID services) @
                 drop (k + length (otherServices i podID services)) as,
                take k ids @ map (\<lambda>p. Itoa (int (fst p))) (otherServices i podID services) @
                 drop (k + length (otherServices i podID services)) ids)
     else None)"
  using assms
proof (induction services arbitrary: i k as ids)
  case (Cons s services)
  show ?case
  proof (cases "i = podID")
    case True
    with Cons show ?thesis by (simp add: otherServices_def)
  next
    case False
    then have o: "otherServices i podID (s # services) = (i, s) # otherServices (Suc i) podID services"
      by (simp add: otherServices_def)
    show ?thesis
    proof (cases "k < length as")
      case True
      with Cons.prems have "take (Suc k) (as[k := a]) = take k as @ [a]" "take (Suc k) (ids[k := b]) = take k ids @ [b]" for a b
        by (simp_all add: take_Suc_conv_app_nth)
      with False True Cons show ?thesis by (auto simp: o)
    next
      case k: False
      with False Cons.prems show ?thesis by (auto simp: o)
    qed
  qed
qed (simp add: otherServices_def)

lemma otherServices_length:
  "i \<le> podID \<Longrightarrow> podID < i + length services \<Longrightarrow> Suc (length (otherServices i podID services)) = length services"
  "\<not> (i \<le> podID \<and> podID < i + length services) \<Longrightarrow> length (otherServices i podID services) = length services"
proof (induction services arbitrary: i)
  case (Cons s services)
  {
    case 1
    with Cons(2)[of "Suc i"] Cons(1)[of "Suc i"] show ?case
      by (cases "i = podID") (auto simp: otherServices_def)
  next
    case 2
    with Cons(2)[of "Suc i"] show ?case by (auto simp: otherServices_def)
  }
qed (simp_all add: otherServices_def)

lemma KubernetesAutoConfig_waits:
  assumes "\<forall>p\<in>set waits. \<exists>n. fst p = Inr n \<and> n \<noteq> replicas"
  shows "KubernetesAutoConfig_loop replicas host ns port (waits @ polls) =
    KubernetesAutoConfig_loop replicas host ns port polls"
  using assms
proof (induction waits)
  case (Cons w waits)
  then show ?case by (cases w) auto
qed simp

lemma KubernetesAutoConfig_peers:
  assumes "extractNumber host = Inr podID" "podID < length names"
    and "\<forall>p\<in>set waits. \<exists>n. fst p = Inr n \<and> n \<noteq> length names"
  shows "KubernetesAutoConfig_pods (int (length names)) host ns port (waits @ (Inr (length names), Inr names) # rest) =
    Peers (map (\<lambda>p. peerAddress ns port (snd p)) (otherServices 0 podID names))
          (map (\<lambda>p. Itoa (int (fst p))) (otherServices 0 podID names)) podID"
proof -
  have n: "0 < length names" "Suc (length (otherServices 0 podID names)) = length names"
    using assms(2) otherServices_length(1)[of 0 podID names] by auto
  then have "length (otherServices 0 podID names) = length names - Suc 0" by simp
  with n(1) assms(1) show ?thesis
    by (auto simp: KubernetesAutoConfig_pods_def KubernetesAutoConfig_waits[OF assms(3)] fillPeers_split)
qed

lemma KubernetesAutoConfig_panics:
  assumes "extractNumber host = Inr podID" "length names \<le> podID" "names \<noteq> []"
    and "\<forall>p\<in>set waits. \<exists>n. fst p = Inr n \<and> n \<noteq> length names"
  shows "KubernetesAutoConfig_pods (int (length names)) host ns port (waits @ (Inr (length names), Inr names) # rest) = Panics"
proof -
  obtain m where "length names = Suc m" using assms(3) by (cases names) auto
  moreover have "length (otherServices 0 podID names) = length names"
    using assms(2) by (intro otherServices_length(2)) simp
  ultimately have "fillPeers ns port podID 0 0 names (replicate (length names - 1) []) (replicate (length names - 1) []) = None"
    by (auto simp: fillPeers_split)
  with assms(1,3) show ?thesis by (simp add: KubernetesAutoConfig_pods_def KubernetesAutoConfig_waits[OF assms(4)])
qed

text \<open>A client that gets as far as the pods.\<close>

lemma KubernetesAutoConfig_connected:
  assumes "InClusterConfig clientset = None" "NewForConfig clientset = None"
    and "readFile ''/var/run/secrets/kubernetes.io/serviceaccount/namespace'' = Inr (toBytes ns)"
    and "StatefulSetGet clientset ns name = Inr (setNs, selector)"
  shows "KubernetesAutoConfig clientset readFile replicas host name port =
    KubernetesAutoConfig_pods replicas host ns port (PodsAndServices clientset setNs selector)"
  using assms by (simp add: KubernetesAutoConfig_def)

text \<open>The raft servers are the addresses with their ids, when all ids are numbers.\<close>

lemma main_servers_ok:
  "length ns = length addresses \<Longrightarrow> \<forall>n\<in>set ns. n < 2 ^ 64 \<Longrightarrow>
     main_servers addresses (map Utoa ns) = Some (Inr (zip addresses ns))"
  by (induction addresses ns rule: list_induct2') (auto simp: ParseUint_Utoa onOk_def)

lemma peers_servers:
  assumes "i + length names < 2 ^ 63"
  shows "main_servers (map (\<lambda>p. peerAddress ns port (snd p)) (otherServices i k names))
      (map (\<lambda>p. Itoa (int (fst p))) (otherServices i k names)) =
    Some (Inr (map (\<lambda>p. (peerAddress ns port (snd p), fst p)) (otherServices i k names)))"
proof -
  have "\<forall>n\<in>set (map fst (otherServices i k names)). n < 2 ^ 64"
    using assms by (auto simp: otherServices_def in_set_enumerate_eq)
  from main_servers_ok[OF _ this, of "map (\<lambda>p. peerAddress ns port (snd p)) (otherServices i k names)"]
  show ?thesis by (simp add: Itoa_def comp_def zip_map_map zip_same_conv_map)
qed

text \<open>The first state is well-formed, has one account and a user with all permissions.\<close>

lemma main_fsm_ok: "fsmOk (main_fsm key rnd sha st)"
proof -
  have "accountsOk (NewAuthManager sh d s)" for sh d s
    by (simp add: accountsOk_def GetAccounts_def NewAuthManager_def)
  then show ?thesis
    unfolding main_fsm_def main_account_def Let_def fsmOk_def
    by (simp add: brokerOk_new managed_new accountsOk_ops(1) namesOk_ops(3) namesOk_new)
qed

lemma main_fsm_account:
  assumes "rnd = Inr buf" "key (toBytes (GenerateHash sha ''sybline'' (sSalt st))) buf 32768 8 1 32 = Inr h"
  shows "getUserCredentials (fAuth (main_fsm key rnd sha st)) ''sybline'' =
      Some \<lparr>spUsername = ''sybline'', spSalt = buf, spHash = h\<rparr>"
    "hasAccount (main_fsm key rnd sha st)"
  using assms
  by (simp_all add: main_fsm_def main_account_def Let_def CreateUser_def getUserCredentials_def NewAuthManager_def hasAccount_def)

lemma main_fsm_admin:
  "p \<in> set allAdmin \<Longrightarrow> HasAdminPermission (fRoles (main_fsm key rnd sha st)) ''sybline'' p = Inr True"
  unfolding HasAdminPermission_iff
  by (auto simp: main_fsm_def Let_def AssignRole_def NewRoleManager_roles roleROOT_def allAdmin_def)

lemma main_fsm_login:
  assumes "key (toBytes (GenerateHash sha ''sybline'' (sSalt st))) buf 32768 8 1 32 = Inr h"
  shows "fst (Login key t c now cl (fAuth (main_fsm key (Inr buf) sha st)) ''sybline''
    (GenerateHash sha ''sybline'' (sSalt st))) = Inr t"
proof -
  note acc = main_fsm_account[where key = key and sha = sha and st = st, OF refl assms]
  have hs: "hashStrength (fAuth (main_fsm key (Inr buf) sha st)) = 32768"
    using assms by (simp add: main_fsm_def main_account_def Let_def CreateUser_def getUserCredentials_def NewAuthManager_def)
  show ?thesis by (subst Login_ok[OF acc(1)]) (simp_all add: hs assms)
qed

end
