(* ===== verification/InterfaceProperties.thy ===== *)
theory InterfaceProperties
  imports HandlerProperties Rpc RestRoutes Startup
begin

text \<open>
  The properties of the interfaces and of the start: who gets through the middlewares of REST and gRPC,
  what follows for the commands that are sent, the peers of a node in Kubernetes, and the state machine
  from its first state on.
\<close>

section \<open>Shared facts\<close>

lemma SplitTwo_length: "length (SplitTwo s sep) = 2 \<Longrightarrow> s = SplitTwo s sep ! 0 @ sep # SplitTwo s sep ! 1 \<and> sep \<notin> set (SplitTwo s sep ! 0)"
proof -
  assume "length (SplitTwo s sep) = 2"
  then obtain u t where "SplitTwo s sep = [u, t]" by (auto simp: length_Suc_conv numeral_2_eq_2)
  with SplitTwo_two[OF this] show ?thesis by simp
qed

lemma rest_Authentication_Inr:
  assumes "\<not> exempt path method"
  shows "rest_Authentication a now path method header = Inr locals \<longleftrightarrow>
    (\<exists>enc u t i. header = ''Basic '' @ enc \<and> DecodeString enc = Some (u @ CHR '':'' # t) \<and> CHR '':'' \<notin> set u \<and>
       authManager_GetConsumerID a now u t = Inr i \<and> locals = sessionLocals i u t)" (is "?l \<longleftrightarrow> ?r")
proof
  assume ?l
  then obtain creds i where c: "HasPrefix header ''Basic ''" "DecodeString (TrimPrefix header ''Basic '') = Some creds"
    "length (SplitTwo creds (CHR '':'')) = 2"
    "authManager_GetConsumerID a now (SplitTwo creds (CHR '':'') ! 0) (SplitTwo creds (CHR '':'') ! 1) = Inr i"
    "locals = sessionLocals i (SplitTwo creds (CHR '':'') ! 0) (SplitTwo creds (CHR '':'') ! 1)"
    using assms by (auto simp: rest_Authentication_def Let_def split: if_splits option.splits sum.splits)
  from c(1) obtain enc where "header = ''Basic '' @ enc" by (auto simp: HasPrefix_iff)
  with c SplitTwo_length[OF c(3)] show ?r by (metis TrimPrefix_append)
next
  assume ?r
  then show ?l
    using assms TrimPrefix_append[of "''Basic ''"] HasPrefix_append[of "''Basic ''"] SplitTwo_append[of "CHR '':''"]
    by (auto simp: rest_Authentication_def Let_def simp del: TrimPrefix_append HasPrefix_append)
qed

lemma fetchFormat_ok:
  assumes "\<forall>m\<in>set ms. \<exists>s. uuidString (msgId m) = Inr s"
  shows "\<exists>fs. fetchFormat uuidString acc ms = respond StatusOK (FetchBody (acc @ fs)) \<and>
    list_all2 (\<lambda>m p. uuidString (msgId m) = Inr (fst p) \<and> snd p = msgData m) ms fs"
  using assms
proof (induction ms arbitrary: acc)
  case Nil
  then show ?case by simp
next
  case (Cons m ms)
  then obtain s where s: "uuidString (msgId m) = Inr s" by auto
  from Cons.IH[of "acc @ [(s, msgData m)]"] Cons.prems obtain fs where
    fs: "fetchFormat uuidString (acc @ [(s, msgData m)]) ms = respond StatusOK (FetchBody ((acc @ [(s, msgData m)]) @ fs))"
      "list_all2 (\<lambda>m p. uuidString (msgId m) = Inr (fst p) \<and> snd p = msgData m) ms fs" by auto
  show ?case
    by (rule exI[of _ "(s, msgData m) # fs"]) (use s fs in simp)
qed

lemma byte_char: "of_char (char_of (unat w)) = (w :: 8 word)"
proof -
  have "unat w < 256" using unsigned_less[of w] by (simp add: word_less_nat_alt)
  then have "of_nat (of_char (char_of (unat w) :: char)) = w" by simp
  then show ?thesis by (simp only: of_nat_of_char)
qed

section \<open>Properties\<close>

text \<open>
  C35: REST routes and their guards. A request for a route reaches its endpoint exactly when the node is
  the leader or the route is one for followers, and, unless the route is open, the header is the base64 form
  of a username and a token with a live session; the endpoint then sees this user, token and consumer, and
  on an open route it sees none. Open are the leader query, the login, the role \<open>isLeader\<close> of the user
  \<open>info\<close>, and every path with a parameter that begins with \<open>metrics\<close>; routes for followers are the information and login routes and every path with a parameter that
  begins with \<open>info\<close>, \<open>login\<close> or \<open>metrics\<close>.
\<close>

theorem rest_route_guarded:
  assumes "(method, segs, e) \<in> set createV1" "fill segs ps = Some parts"
  shows "rest_guard isLeader a now (pathOf parts) method header = Inr locals \<longleftrightarrow>
    (isLeader \<or> followerRoute e ps) \<and>
    (if openRoute e ps then locals = Map.empty
     else \<exists>enc u t i. header = ''Basic '' @ enc \<and> DecodeString enc = Some (u @ CHR '':'' # t) \<and> CHR '':'' \<notin> set u \<and>
       authManager_GetConsumerID a now u t = Inr i \<and> locals = sessionLocals i u t)"
proof -
  have "rest_guard isLeader a now (pathOf parts) method header = Inr locals \<longleftrightarrow>
      rest_IsLeader (pathOf parts) isLeader = None \<and> rest_Authentication a now (pathOf parts) method header = Inr locals"
    by (auto simp: rest_guard_def split: option.splits)
  moreover have "rest_Authentication a now (pathOf parts) method header = Inr locals \<longleftrightarrow> locals = Map.empty"
    if "openRoute e ps"
    using that v1_exempt[OF assms] by (auto simp: rest_Authentication_def)
  ultimately show ?thesis
    unfolding v1_IsLeader[OF assms] using v1_exempt[OF assms] rest_Authentication_Inr[of "pathOf parts" "method" a now header locals]
    by (cases "openRoute e ps") auto
qed

text \<open>Witness for C35: the header that a client makes from its username and token.\<close>

theorem rest_route_guarded_witness:
  "rest_guard True (demoAuth\<lparr>sessions := snd (AddToken NewSessionHandler ''tok'' ''ann'' [7] 60)\<rparr>) 5
     ''/api/v1/queue/ack'' ''PUT'' (''Basic '' @ EncodeToString ''ann:tok'') = Inr (sessionLocals [7] ''ann'' ''tok'')"
proof -
  have r: "(''PUT'', [Lit ''api'', Lit ''v1'', Lit ''queue'', Lit ''ack''], PutAck) \<in> set createV1" by (simp add: v1_defs)
  have f: "fill [Lit ''api'', Lit ''v1'', Lit ''queue'', Lit ''ack''] [] = Some [''api'', ''v1'', ''queue'', ''ack'']" by simp
  have "authManager_GetConsumerID (demoAuth\<lparr>sessions := snd (AddToken NewSessionHandler ''tok'' ''ann'' [7] 60)\<rparr>) 5 ''ann'' ''tok'' = Inr [7]"
    by (simp add: authManager_GetConsumerID_def GetConsumerID_def AddToken_def NewSessionHandler_def)
  moreover have "DecodeString (EncodeToString ''ann:tok'') = Some (''ann'' @ CHR '':'' # ''tok'')" by (simp add: Decode_Encode)
  moreover have "\<not> openRoute PutAck []" by (simp add: openRoute_def)
  ultimately have "rest_guard True (demoAuth\<lparr>sessions := snd (AddToken NewSessionHandler ''tok'' ''ann'' [7] 60)\<rparr>) 5
     (pathOf [''api'', ''v1'', ''queue'', ''ack'']) ''PUT'' (''Basic '' @ EncodeToString ''ann:tok'') = Inr (sessionLocals [7] ''ann'' ''tok'')"
    unfolding rest_route_guarded[OF r f] by simp (intro exI[of _ "EncodeToString ''ann:tok''"] exI[of _ "''ann''"] exI[of _ "''tok''"] exI[of _ "[7]"], simp)
  then show ?thesis by (simp add: pathOf_def)
qed

text \<open>
  Without any header, on any node, the queues of a routing key whose name begins with \<open>metrics\<close> are given out.
\<close>

theorem metrics_key_without_session:
  assumes "broker_GetQueues b (''metrics'' @ name) = Inr qs" "CHR ''/'' \<notin> set name"
  shows "rest_guard isLeader a now (''/api/v1/info/routing/metrics'' @ name) ''GET'' [] = Inr Map.empty \<and>
    rest_routingKey b (''metrics'' @ name) = respond StatusOK (NamesBody qs)"
proof
  have r: "(''GET'', [Lit ''api'', Lit ''v1'', Lit ''info'', Lit ''routing'', Param], GetRoutingKey) \<in> set createV1"
    by (simp add: v1_defs)
  have f: "fill [Lit ''api'', Lit ''v1'', Lit ''info'', Lit ''routing'', Param] [''metrics'' @ name] =
      Some [''api'', ''v1'', ''info'', ''routing'', ''metrics'' @ name]" using assms(2) by simp
  have "openRoute GetRoutingKey [''metrics'' @ name]" "followerRoute GetRoutingKey [''metrics'' @ name]"
    by (simp_all add: openRoute_def followerRoute_def)
  then have "rest_guard isLeader a now (pathOf [''api'', ''v1'', ''info'', ''routing'', ''metrics'' @ name]) ''GET'' [] = Inr Map.empty"
    using v1_exempt[OF r f] v1_IsLeader[OF r f, of isLeader] by (simp add: rest_guard_def rest_Authentication_def)
  then show "rest_guard isLeader a now (''/api/v1/info/routing/metrics'' @ name) ''GET'' [] = Inr Map.empty" by (simp add: pathOf_def)
  show "rest_routingKey b (''metrics'' @ name) = respond StatusOK (NamesBody qs)" using assms(1) by (simp add: rest_routingKey_def)
qed

text \<open>
  C36: A message fetched over REST can be acknowledged over REST. When the identifiers of the fetched messages
  are uuids, the answer lists every message in order with its data, and an acknowledgement or a rejection
  that names the queue and the identifier from the answer asks the handler for the identifier of exactly
  that message.
\<close>

theorem rest_fetch_ack_roundtrip:
  assumes "\<And>i s. uuidString i = Inr s \<Longrightarrow> uuidFromString s = Inr i"
    and "rest_fetch uuidString now q amountStr locals = Call ctx req k"
    and "\<forall>m\<in>set ms. \<exists>s. uuidString (msgId m) = Inr s"
  shows "\<exists>fs. k (Msgs ms, None) = respond StatusOK (FetchBody fs) \<and> length fs = length ms \<and>
    (\<forall>j<length ms. snd (fs ! j) = msgData (ms ! j) \<and>
       rest_ack uuidFromString (Inr \<lparr>arqId = fst (fs ! j), arqQueue = q\<rparr>) locals =
         Call ctx (ReqAck q (msgId (ms ! j))) (answer StatusAccepted) \<and>
       rest_nack uuidFromString (Inr \<lparr>arqId = fst (fs ! j), arqQueue = q\<rparr>) locals =
         Call ctx (ReqNack q (msgId (ms ! j))) (answer StatusAccepted))"
proof -
  from assms(2) have c: "createContextFromFiberContext locals = Inr ctx"
    using commandEndpoint_context commandEndpoint.fetch by metis
  have k: "k (Msgs ms, None) = fetchFormat uuidString [] ms"
    using assms(2) by (auto simp: rest_fetch_def handler_GetMessages_result_def split: if_splits sum.splits)
  from fetchFormat_ok[OF assms(3), of "[]"] obtain fs where
    fs: "fetchFormat uuidString [] ms = respond StatusOK (FetchBody fs)"
      "list_all2 (\<lambda>m p. uuidString (msgId m) = Inr (fst p) \<and> snd p = msgData m) ms fs" by auto
  show ?thesis
    using fs assms(1) c k by (intro exI[of _ fs]) (auto simp: list_all2_conv_all_nth rest_ack_def rest_nack_def ackEndpoint_def)
qed

text \<open>Witness for C36: identifiers of any length, written as the characters of their bytes.\<close>

theorem rest_fetch_ack_roundtrip_witness:
  "\<exists>ctx k fs. rest_fetch (\<lambda>i. Inr (map (char_of \<circ> unat) i)) 5 ''q'' ''2'' (sessionLocals [7] ''ann'' ''tok'') =
      Call ctx (ReqGetMessages 5 ''q'' 2) k \<and>
    k (Msgs [\<lparr>msgId = [97], msgData = [1]\<rparr>], None) = respond StatusOK (FetchBody fs) \<and>
    rest_ack (\<lambda>s. Inr (toBytes s)) (Inr \<lparr>arqId = fst (fs ! 0), arqQueue = ''q''\<rparr>) (sessionLocals [7] ''ann'' ''tok'') =
      Call ctx (ReqAck ''q'' [97]) (answer StatusAccepted)"
proof -
  let ?l = "sessionLocals [7] ''ann'' ''tok''" and ?u = "\<lambda>i :: bytes. Inr (map (char_of \<circ> unat) i) :: error + string"
  have rt: "?u i = Inr s \<Longrightarrow> Inr (toBytes s) = (Inr i :: error + bytes)" for i s
    by (auto simp: toBytes_def comp_def byte_char)
  have "Utoa 2 = ''2''" by code_simp
  then have "ParseUint 32 ''2'' = Inr 2" using ParseUint_Utoa[of 2 32] by simp
  moreover have "\<exists>ctx. createContextFromFiberContext ?l = Inr ctx"
    by (simp add: createContextFromFiberContext_def sessionLocals_def)
  ultimately obtain ctx k where c: "rest_fetch ?u 5 ''q'' ''2'' ?l = Call ctx (ReqGetMessages 5 ''q'' 2) k"
    by (auto simp: rest_fetch_def)
  from rest_fetch_ack_roundtrip[where uuidFromString = "\<lambda>s. Inr (toBytes s)", OF rt c,
      of "[\<lparr>msgId = [97], msgData = [1]\<rparr>]"]
  show ?thesis using c by (intro exI[of _ ctx] exI[of _ k]) auto
qed

text \<open>
  C37: From a gRPC call to an authorised command. When a call of a method that needs authentication passes
  the interceptors and the handler sends a command for it, the node is the leader, the user of the command
  has a live session with the token of the call, and the state machine finds the command authorised. For the
  removal of a role from a user, the user has the permission to assign roles instead, which the state machine
  does not accept for it.
\<close>

theorem rpc_command_authorised:
  assumes "\<not> rpc_exempt m" "rpc_guard isLeader (fAuth b) now m incoming ctx0 = Inr ctx"
    and "handle he b ctx req = Inr (op, pl, u)" "roundTrip cd marshal" "marshal pl = Inr d"
  shows "isLeader \<and>
    (\<exists>md t i. incoming = Some md \<and> GetUsernameToken (fAuth b) md = Inr (u, t) \<and>
       authManager_GetConsumerID (fAuth b) now u t = Inr i \<and> ctx ''consumerID'' = Some (CtxBytes i)) \<and>
    (if op = UNASSIGN_ROLE then HasAdminPermission (fRoles b) u ALLOW_ASSIGN_ROLE = Inr True
     else authorised cd (fRoles b) (commandOf op u d))"
proof -
  from assms(2) have g: "rpc_IsLeader m isLeader = None" "rpc_Authentication (fAuth b) now m incoming ctx0 = Inr ctx"
    by (auto simp: rpc_guard_def onNil_Inr)
  have "isLeader" using g(1) assms(1) by (auto simp: rpc_IsLeader_def rpc_exempt_def split: if_splits)
  moreover from g(2) assms(1) obtain md i u' t where
    md: "incoming = Some md" "GetConsumerIDViaMD (fAuth b) now md = Inr i" "GetUsernameToken (fAuth b) md = Inr (u', t)"
      "ctx = ctx0(''consumerID'' \<mapsto> CtxBytes i, ''username'' \<mapsto> CtxString u', ''token'' \<mapsto> CtxString t)"
    by (auto simp: rpc_Authentication_def split: option.splits sum.splits)
  have "u' = u" using handle_user[OF assms(3)] md(4) by simp
  moreover have "authManager_GetConsumerID (fAuth b) now u' t = Inr i"
    using md(2,3) by (simp add: GetConsumerIDViaMD_def authManager_GetConsumerID_def)
  ultimately show ?thesis
    using md handle_authorised[OF assms(4,5,3)] by auto
qed

text \<open>Witness for C37: a message submitted by a user with a session.\<close>

definition demoSession :: syblineFSM where
  "demoSession = demoFsm\<lparr>fAuth := demoAuth\<lparr>sessions := snd (AddToken NewSessionHandler ''tok'' ''root'' [7] 60)\<rparr>\<rparr>"

definition demoMd :: metadata where
  "demoMd k = (if k = ''username'' then [''root''] else if k = ''syb-token'' then [''tok''] else [])"

theorem rpc_command_authorised_witness:
  "\<exists>ctx. rpc_guard True (fAuth demoSession) 5 ''/MQ.MQEndpoints/SubmitMessage'' (Some demoMd) Map.empty = Inr ctx \<and>
     handle demoHe demoSession ctx (fst (rpc_SubmitMessage [1] ''k'' [11])) =
       Inr (SUBMIT_MESSAGE, PMessageInfo \<lparr>miRk = ''k'', miData = [11], miId = [1]\<rparr>, ''root'') \<and>
     authorised demoCodec' (fRoles demoSession) (commandOf SUBMIT_MESSAGE ''root'' [])"
proof -
  let ?ctx = "Map.empty(''consumerID'' \<mapsto> CtxBytes [7], ''username'' \<mapsto> CtxString ''root'', ''token'' \<mapsto> CtxString ''tok'')"
  have e: "\<not> rpc_exempt ''/MQ.MQEndpoints/SubmitMessage''" by (simp add: rpc_exempt_def)
  have g: "rpc_guard True (fAuth demoSession) 5 ''/MQ.MQEndpoints/SubmitMessage'' (Some demoMd) Map.empty = Inr ?ctx"
    using e by (simp add: rpc_guard_def rpc_IsLeader_def onNil_def rpc_Authentication_def GetConsumerIDViaMD_def
        GetUsernameToken_def GetUsername_def demoMd_def demoSession_def demoAuth_def NewAuthManager_def GetConsumerID_def
        AddToken_def NewSessionHandler_def)
  have h: "handle demoHe demoSession ?ctx (ReqSubmitMessage [1] ''k'' [11]) =
      Inr (SUBMIT_MESSAGE, PMessageInfo \<lparr>miRk = ''k'', miData = [11], miId = [1]\<rparr>, ''root'')"
    by (simp add: handler_SubmitMessage_def validateMessage_def onNil_def onOk_def getStringFromCtx_def
        asUser_def allowed_def demoSession_def demoFsm_def demo_permission)
  have "demoMarshal (PMessageInfo \<lparr>miRk = ''k'', miData = [11], miId = [1]\<rparr>) = Inr []" by (simp add: demoMarshal_def)
  from rpc_command_authorised[OF e g h demo_roundTrip this] g h show ?thesis
    by (intro exI[of _ ?ctx]) (simp add: rpc_SubmitMessage_def)
qed

text \<open>Behind a request that became a command there is a session of its user.\<close>

lemma rest_session:
  assumes "rest_guard isLeader (fAuth b) now path method header = Inr locals"
    and "commandEndpoint locals (Call ctx req k)" "handle he b ctx req = Inr (op, pl, u)"
  shows "\<exists>enc t i. header = ''Basic '' @ enc \<and> DecodeString enc = Some (u @ CHR '':'' # t) \<and>
    authManager_GetConsumerID (fAuth b) now u t = Inr i \<and> ctx ''consumerID'' = Some (CtxBytes i)"
proof -
  note ctx = commandEndpoint_context[OF assms(2)]
  from assms(1) have g: "rest_Authentication (fAuth b) now path method header = Inr locals"
    by (auto simp: rest_guard_def split: option.splits)
  have "\<not> exempt path method" using g ctx by (auto simp: rest_Authentication_def createContext_exempt)
  from g rest_Authentication_Inr[OF this] obtain enc u' t i where
    s: "header = ''Basic '' @ enc" "DecodeString enc = Some (u' @ CHR '':'' # t)"
      "authManager_GetConsumerID (fAuth b) now u' t = Inr i" "locals = sessionLocals i u' t" by auto
  note c = createContext_session[OF ctx[unfolded s(4)]]
  have "u' = u" using handle_user[OF assms(3)] c by simp
  with s c show ?thesis by auto
qed

text \<open>
  C38: From a REST request to an authorised command. When a request passes the middlewares, its endpoint
  calls the handler, and the handler sends a command, then the header was made from the user of the command
  and the token of a live session, the context has the consumer of that session, and the state machine
  finds the command authorised. This holds for every path: a request that skips authentication has no
  locals, and no endpoint calls the handler for it. For the removal of a role from a user, the user has the
  permission to assign roles instead, which the state machine does not accept for it. On a path without one of the three exempt names the
  node is the leader.
\<close>

theorem rest_command_authorised:
  assumes "rest_guard isLeader (fAuth b) now path method header = Inr locals"
    and "commandEndpoint locals (Call ctx req k)" "handle he b ctx req = Inr (op, pl, u)"
    and "roundTrip cd marshal" "marshal pl = Inr d"
  shows "(\<exists>enc t i. header = ''Basic '' @ enc \<and> DecodeString enc = Some (u @ CHR '':'' # t) \<and>
      authManager_GetConsumerID (fAuth b) now u t = Inr i \<and> ctx ''consumerID'' = Some (CtxBytes i)) \<and>
    (if op = UNASSIGN_ROLE then HasAdminPermission (fRoles b) u ALLOW_ASSIGN_ROLE = Inr True
     else authorised cd (fRoles b) (commandOf op u d)) \<and>
    (\<not> Contains path ''/info'' \<and> \<not> Contains path ''/login'' \<and> \<not> Contains path ''/metrics'' \<longrightarrow> isLeader)"
proof (intro conjI)
  show "\<not> Contains path ''/info'' \<and> \<not> Contains path ''/login'' \<and> \<not> Contains path ''/metrics'' \<longrightarrow> isLeader"
    using assms(1) by (auto simp: rest_guard_def rest_IsLeader_def split: option.splits if_splits)
  show "\<exists>enc t i. header = ''Basic '' @ enc \<and> DecodeString enc = Some (u @ CHR '':'' # t) \<and>
      authManager_GetConsumerID (fAuth b) now u t = Inr i \<and> ctx ''consumerID'' = Some (CtxBytes i)"
    by (rule rest_session[OF assms(1-3)])
  show "if op = UNASSIGN_ROLE then HasAdminPermission (fRoles b) u ALLOW_ASSIGN_ROLE = Inr True
      else authorised cd (fRoles b) (commandOf op u d)" by (rule handle_authorised[OF assms(4,5,3)])
qed

text \<open>A request of the user with the session of the demonstration passes the middlewares of the leader.\<close>

lemma demo_guard:
  assumes "\<not> exempt path method"
  shows "rest_guard True (fAuth demoSession) 5 path method (''Basic '' @ EncodeToString ''root:tok'') =
    Inr (sessionLocals [7] ''root'' ''tok'')"
proof -
  have "authManager_GetConsumerID (fAuth demoSession) 5 ''root'' ''tok'' = Inr [7]"
    by (simp add: authManager_GetConsumerID_def GetConsumerID_def AddToken_def NewSessionHandler_def demoSession_def)
  moreover have "DecodeString (EncodeToString ''root:tok'') = Some (''root'' @ CHR '':'' # ''tok'')" by (simp add: Decode_Encode)
  ultimately have "rest_Authentication (fAuth demoSession) 5 path method (''Basic '' @ EncodeToString ''root:tok'') =
      Inr (sessionLocals [7] ''root'' ''tok'')"
    unfolding rest_Authentication_Inr[OF assms]
    by (intro exI[of _ "EncodeToString ''root:tok''"] exI[of _ "''root''"] exI[of _ "''tok''"] exI[of _ "[7]"]) simp
  then show ?thesis by (simp add: rest_guard_def rest_IsLeader_def)
qed

text \<open>Witness for C38: a message submitted over REST by a user with a session.\<close>

theorem rest_command_authorised_witness:
  "\<exists>ctx k. rest_guard True (fAuth demoSession) 5 ''/api/v1/broker/submit'' ''POST'' (''Basic '' @ EncodeToString ''root:tok'') =
       Inr (sessionLocals [7] ''root'' ''tok'') \<and>
     rest_submit [1] (Inr \<lparr>spRoutingKey = ''k'', spData = [CHR 0x0B]\<rparr>) (sessionLocals [7] ''root'' ''tok'') =
       Call ctx (ReqSubmitMessage [1] ''k'' [11]) k \<and>
     authorised demoCodec' (fRoles demoSession) (commandOf SUBMIT_MESSAGE ''root'' [])"
proof -
  let ?l = "sessionLocals [7] ''root'' ''tok''" and ?pl = "PMessageInfo \<lparr>miRk = ''k'', miData = [11], miId = [1]\<rparr>"
  have g: "rest_guard True (fAuth demoSession) 5 ''/api/v1/broker/submit'' ''POST'' (''Basic '' @ EncodeToString ''root:tok'') = Inr ?l"
    by (rule demo_guard) (simp add: exempt_def HasSuffix_def)
  have "\<exists>ctx. createContextFromFiberContext ?l = Inr ctx"
    by (simp add: createContextFromFiberContext_def sessionLocals_def)
  then obtain ctx where c: "createContextFromFiberContext ?l = Inr ctx" ..
  have s: "rest_submit [1] (Inr \<lparr>spRoutingKey = ''k'', spData = [CHR 0x0B]\<rparr>) ?l =
      Call ctx (ReqSubmitMessage [1] ''k'' [11]) (answer StatusAccepted)"
    using c by (simp add: rest_submit_def toBytes_def)
  have h: "handle demoHe demoSession ctx (ReqSubmitMessage [1] ''k'' [11]) = Inr (SUBMIT_MESSAGE, ?pl, ''root'')"
    using createContext_session[OF c]
    by (simp add: handler_SubmitMessage_def validateMessage_def onNil_def onOk_def getStringFromCtx_def
        asUser_def allowed_def demoSession_def demoFsm_def demo_permission)
  have m: "demoMarshal ?pl = Inr []" by (simp add: demoMarshal_def)
  have ce: "commandEndpoint ?l (Call ctx (ReqSubmitMessage [1] ''k'' [11]) (answer StatusAccepted))"
    unfolding s[symmetric] by (rule commandEndpoint.submit)
  from rest_command_authorised[OF g ce h demo_roundTrip m] g s show ?thesis by auto
qed

text \<open>
  C39: Peers in Kubernetes. With a client that finds the stateful set, the pod with number \<open>k\<close> waits while the
  number of pods differs from the number of replicas; then, with one service per replica, its peers are the
  services with all other numbers, in order, under the namespace of the pod, and raft gets every one of them
  with its own number. A pod number that is not below the number of replicas panics.
\<close>

theorem kubernetes_peers:
  assumes "InClusterConfig clientset = None" "NewForConfig clientset = None"
    and "readFile ''/var/run/secrets/kubernetes.io/serviceaccount/namespace'' = Inr (toBytes ns)"
    and "StatefulSetGet clientset ns name = Inr (setNs, selector)"
    and "PodsAndServices clientset setNs selector = waits @ (Inr (length names), Inr names) # rest"
    and "\<forall>p\<in>set waits. \<exists>n. fst p = Inr n \<and> n \<noteq> length names" "names \<noteq> []" "length names < 2 ^ 63" "k < 2 ^ 64"
  shows "if k < length names
    then \<exists>addresses ids.
      KubernetesAutoConfig clientset readFile (int (length names)) (host @ CHR ''-'' # Utoa k) name port = Peers addresses ids k \<and>
      addresses = map (\<lambda>p. peerAddress ns port (snd p)) (otherServices 0 k names) \<and>
      main_servers addresses ids = Some (Inr (zip addresses (filter (\<lambda>i. i \<noteq> k) [0..<length names])))
    else KubernetesAutoConfig clientset readFile (int (length names)) (host @ CHR ''-'' # Utoa k) name port = Panics"
proof -
  note pods = KubernetesAutoConfig_connected[where readFile = readFile, OF assms(1-4), unfolded assms(5)]
  note ordinal = extractNumber_ordinal[OF assms(9)]
  have ks: "map fst (otherServices 0 k names) = filter (\<lambda>i. i \<noteq> k) [0..<length names]"
    using filter_map[of "\<lambda>i. i \<noteq> k" fst "enumerate 0 names"] by (simp add: otherServices_def comp_def)
  show ?thesis
  proof (cases "k < length names")
    case True
    have "map (\<lambda>p. (peerAddress ns port (snd p), fst p)) (otherServices 0 k names) =
        zip (map (\<lambda>p. peerAddress ns port (snd p)) (otherServices 0 k names)) (filter (\<lambda>i. i \<noteq> k) [0..<length names])"
      unfolding ks[symmetric] by (simp add: zip_map_map zip_same_conv_map)
    with True peers_servers[of 0 names ns port k] assms(8) show ?thesis
      unfolding pods KubernetesAutoConfig_peers[OF ordinal True assms(6)] by simp
  next
    case False
    then show ?thesis unfolding pods using KubernetesAutoConfig_panics[OF ordinal _ assms(7,6)] by simp
  qed
qed

text \<open>Witness for C39: the second of three pods, which first sees two pods only.\<close>

definition demoCluster :: kubernetes where
  "demoCluster =
     \<lparr>InClusterConfig = None, NewForConfig = None, StatefulSetGet = (\<lambda>namespace name. Inr (namespace, ''app=syb'')),
      PodsAndServices = (\<lambda>namespace selector. [(Inr 2, Inr []), (Inr 3, Inr [''s0'', ''s1'', ''s2''])])\<rparr>"

theorem kubernetes_peers_witness:
  "\<exists>addresses ids. KubernetesAutoConfig demoCluster (\<lambda>file. Inr (toBytes ''ns'')) 3 ''syb-1'' ''syb'' 2221 = Peers addresses ids 1 \<and>
     main_servers addresses ids =
       Some (Inr [(''s0.ns.svc.cluster.local:2221'', 0), (''s2.ns.svc.cluster.local:2221'', 2)])"
proof -
  have u: "Utoa 1 = ''1''" "Utoa 2221 = ''2221''" by code_simp+
  have f: "filter (\<lambda>i. i \<noteq> 1) [0..<length [''s0'', ''s1'', ''s2'']] = [0, 2]" by (simp add: upt_rec)
  have a: "map (\<lambda>p. peerAddress ''ns'' 2221 (snd p)) (otherServices 0 1 [''s0'', ''s1'', ''s2'']) =
      [''s0.ns.svc.cluster.local:2221'', ''s2.ns.svc.cluster.local:2221'']"
    by (simp add: u otherServices_def peerAddress_def Itoa_def del: One_nat_def)
  show ?thesis
    using kubernetes_peers[where clientset = demoCluster and readFile = "\<lambda>file. Inr (toBytes ''ns'')" and ns = "''ns''" and
        name = "''syb''" and setNs = "''ns''" and selector = "''app=syb''" and waits = "[(Inr 2, Inr [])]" and
        names = "[''s0'', ''s1'', ''s2'']" and rest = "[]" and k = 1 and host = "''syb''" and port = 2221, unfolded f a]
    by (simp add: u demoCluster_def flip: numeral_3_eq_3 del: One_nat_def) blast
qed

text \<open>
  The server from its start on. The first state is made with one account, which can log in and has
  every admin permission; and whatever commands are applied afterwards, batch acknowledgements apart, the
  state stays well-formed and there is always an account.
\<close>

theorem server_runs_ok:
  assumes "key (toBytes (GenerateHash sha ''sybline'' (sSalt st))) buf 32768 8 1 32 = Inr h"
    and "runCommands cd es i (main_fsm key (Inr buf) sha st) ps = Some b"
    and "\<forall>p\<in>set ps. cpOp p \<noteq> BATCH_ACK \<and> cpOp p \<noteq> BATCH_NACK"
  shows "fst (Login key t c now cl (fAuth (main_fsm key (Inr buf) sha st)) ''sybline''
      (GenerateHash sha ''sybline'' (sSalt st))) = Inr t \<and>
    list_all (\<lambda>p. HasAdminPermission (fRoles (main_fsm key (Inr buf) sha st)) ''sybline'' p = Inr True) allAdmin \<and>
    fsmOk b \<and> credentials (fAuth b) \<noteq> []"
proof -
  note acc = main_fsm_account[where key = key and sha = sha and st = st, OF refl assms(1)]
  have "fsmOk b"
    by (rule runCommands_inv[where I = fsmOk, OF _ main_fsm_ok assms(2)]) (use assms(3) in \<open>auto intro: dispatch_fsmOk\<close>)
  moreover have "hasAccount b"
    by (rule runCommands_inv[where I = hasAccount, OF _ acc(2) assms(2)]) (rule apply_hasAccount)
  ultimately show ?thesis using main_fsm_admin main_fsm_login[where key = key, OF assms(1)] by (auto simp: hasAccount_def list_all_iff)
qed

definition demoSettings :: settings where
  "demoSettings =
     \<lparr>sNodeTTL = 300, sTokenDuration = 1800, sStreamBuildTimeout = 2, sStreamBuildAttempts = 3, sAppendTimeout = 3,
      sRaftBatchLimit = 1000, sSalt = ''salt'', sPort = 2221, sRestPort = 7878, sElectionTimeout = 2,
      sHeartbeatTimeout = 2, sSnapshotThreshold = 10, sAddresses = [], sIds = [], sRaftId = 1\<rparr>"

text \<open>Witness: one command, a message for a routing key that does not exist.\<close>

theorem server_runs_ok_witness:
  "\<exists>b. runCommands demoCodec (\<lambda>_. demoEnv True) 0 (main_fsm demoKey (Inr [7]) id demoSettings)
      [\<lparr>cpUsername = ''sybline'', cpOp = SUBMIT_MESSAGE, cpData = []\<rparr>] = Some b \<and> fsmOk b \<and> credentials (fAuth b) \<noteq> []"
proof -
  let ?p = "\<lparr>cpUsername = ''sybline'', cpOp = SUBMIT_MESSAGE, cpData = []\<rparr> :: CommandPayload"
  have "returns (dispatch demoCodec (demoEnv True) (main_fsm demoKey (Inr [7]) id demoSettings) ?p)"
    by (rule dispatch_returns[OF main_fsm_ok]) (simp add: mayPanic_def)
  then obtain res b where "dispatch demoCodec (demoEnv True) (main_fsm demoKey (Inr [7]) id demoSettings) ?p = Some (res, b)"
    by (auto simp: returns_def)
  then have r: "runCommands demoCodec (\<lambda>_. demoEnv True) 0 (main_fsm demoKey (Inr [7]) id demoSettings) [?p] = Some b" by simp
  have k: "demoKey (toBytes (GenerateHash id ''sybline'' (sSalt demoSettings))) [7] 32768 8 1 32 =
      Inr ([7] @ toBytes (GenerateHash id ''sybline'' (sSalt demoSettings)))" by (simp add: demoKey_def)
  from server_runs_ok[where key = demoKey and sha = id, OF k r, of "''t''" "[1]" 0 "[]"] r show ?thesis by auto
qed

end
