(* ===== verification/FsmDelivery.thy ===== *)
theory FsmDelivery
  imports FsmRuns
begin

text \<open>
  The way of a message through the state machine: what the commands that submit, fetch and acknowledge do
  to the queues, as the abstract queue sees them, and which data the results carry.
\<close>

section \<open>Authorised commands reach their operation\<close>

lemma checked_ok: "dec = Inr p \<Longrightarrow> perm p = Inr True \<Longrightarrow> checked b dec perm k = k p"
  by (simp add: checked_def)

lemma dispatch_SUBMIT:
  assumes "cpOp p = SUBMIT_MESSAGE" "decMessageInfo cd (cpData p) = Inr mi" "authorised cd (fRoles b) p"
  shows "dispatch cd e b p =
    do { (err, br) \<leftarrow> broker_AddMessage (eSched e) (fBroker b) (miRk mi) (miData mi) (miId mi);
         finished (b\<lparr>fBroker := br\<rparr>) err }"
  using assms by (simp add: dispatch_def apply_SUBMIT_MESSAGE_def checked_def authorised_def adminTable_def
      actionTable_def entities_def)

lemma dispatch_GET:
  assumes "cpOp p = GET_MESSAGES" "decRequest cd (cpData p) = Inr rm" "authorised cd (fRoles b) p"
  shows "dispatch cd e b p =
    do { (res, m) \<leftarrow> consumerManager_GetMessages (qm b) (rmQueueName rm) (rmAmount rm) (rmConsumerID rm) (rmTime rm);
         (case res of
            Inl err \<Rightarrow> Some (\<lparr>rData = Msgs [], rErr = Some err\<rparr>, setQm b m)
          | Inr messages \<Rightarrow> Some (\<lparr>rData = Msgs messages, rErr = None\<rparr>, setQm b m)) }"
  using assms by (simp add: dispatch_def apply_GET_MESSAGES_def checked_def authorised_def adminTable_def
      actionTable_def entities_def)

lemma dispatch_ACK:
  assumes "cpOp p = ACK" "decAckUpdate cd (cpData p) = Inr au" "authorised cd (fRoles b) p"
  shows "dispatch cd e b p =
    do { (err, m) \<leftarrow> consumerManager_Ack (qm b) (auQueueName au) (auId au) (auConsumerID au);
         finished (setQm b m) err }"
  using assms by (simp add: dispatch_def apply_ACK_def checked_def authorised_def adminTable_def
      actionTable_def entities_def)

section \<open>What they do to the queues\<close>

text \<open>Message commands change queues only.\<close>

definition queuesOnly :: "syblineFSM \<Rightarrow> syblineFSM \<Rightarrow> bool" where
  "queuesOnly b b' \<longleftrightarrow> fsmOk b' \<and> fRoles b' = fRoles b \<and> fAuth b' = fAuth b \<and> routing (fBroker b') = routing (fBroker b)"

lemma setQm_queuesOnly: "fsmOk b \<Longrightarrow> managed m \<Longrightarrow> queuesOnly b (setQm b m)"
  by (simp add: queuesOnly_def fsmOk_parts setQm_def[of b]) (simp add: setQm_def fsmOk_def brokerOk_def)

lemma setQm_sel [simp]: "qm (setQm b m) = m"
  by (simp add: setQm_def)

abbreviation toMessage :: "entry \<Rightarrow> Message" where
  "toMessage x \<equiv> \<lparr>msgId = eid x, msgData = evalue x\<rparr>"

lemma submit_content:
  assumes "fsmOk b" "cpOp p = SUBMIT_MESSAGE" "decMessageInfo cd (cpData p) = Inr mi" "authorised cd (fRoles b) p"
    and "routing (fBroker b) (miRk mi) = Some ks" "mset (eSched e ks) = mset ks" "miData mi \<noteq> []"
  shows "\<exists>b'. dispatch cd e b p = Some (\<lparr>rData = NoData, rErr = None\<rparr>, b') \<and> queuesOnly b b' \<and>
    (\<forall>n q. content (qm b) n q \<longrightarrow>
       content (qm b') n (((\<lambda>q. aqEnqueue q (miId mi) (miData mi)) ^^ count_list ks n) q))"
proof -
  have ok: "brokerOk (fBroker b)" "managed (qm b)" using fsmOk_sel[OF assms(1)] by simp_all
  have cnt: "count_list (eSched e ks) n = count_list ks n" for n using assms(6) by (metis count_mset)
  from single.fanOut_delivers[OF ok(2), of "miData mi" "miId mi" "eSched e ks"] obtain m where
    m: "fanOut (\<lambda>m n. queueManager_AddMessage m n (miData mi) (miId mi)) (eSched e ks) (qm b) = Some m" "managed m"
      "\<forall>n q. content (qm b) n q \<longrightarrow> content m n (((\<lambda>q. aqEnqueue q (miId mi) (miData mi)) ^^ count_list ks n) q)"
    unfolding cnt by blast
  have "dispatch cd e b p = Some (\<lparr>rData = NoData, rErr = None\<rparr>, setQm b m)"
    using m(1) assms(5,7) unfolding dispatch_SUBMIT[OF assms(2-4)]
    by (simp add: broker_AddMessage_def finished_def setQm_def)
  with m(2,3) setQm_queuesOnly[OF assms(1) m(2)] show ?thesis by auto
qed

lemma get_content:
  assumes "fsmOk b" "cpOp p = GET_MESSAGES" "decRequest cd (cpData p) = Inr rm" "authorised cd (fRoles b) p"
    and "rmQueueName rm \<noteq> []" "content (qm b) (rmQueueName rm) q"
  shows "\<exists>b'. dispatch cd e b p =
      Some (\<lparr>rData = Msgs (map toMessage (handedOut q (rmAmount rm) (rmConsumerID rm) (rmTime rm))), rErr = None\<rparr>, b') \<and>
    queuesOnly b b' \<and> content (qm b') (rmQueueName rm) (aqDequeue q (rmAmount rm) (rmConsumerID rm) (rmTime rm)) \<and>
    others {rmQueueName rm} (qm b) (qm b')"
proof -
  have "managed (qm b)" using fsmOk_sel[OF assms(1)] by simp
  from GetMessage_content[OF this assms(6), of "rmAmount rm" "rmConsumerID rm" "rmTime rm"] obtain m where
    m: "queueManager_GetMessage (qm b) (rmQueueName rm) (rmAmount rm) (rmConsumerID rm) (rmTime rm) =
        Some (Inr (map toMessage (handedOut q (rmAmount rm) (rmConsumerID rm) (rmTime rm))), m)" "managed m"
      "content m (rmQueueName rm) (aqDequeue q (rmAmount rm) (rmConsumerID rm) (rmTime rm))"
      "others {rmQueueName rm} (qm b) m" by blast
  with setQm_queuesOnly[OF assms(1) m(2)] assms(5) show ?thesis
    unfolding dispatch_GET[OF assms(2-4)] by (auto simp: consumerManager_GetMessages_def)
qed

lemma ack_content:
  assumes "fsmOk b" "cpOp p = ACK" "decAckUpdate cd (cpData p) = Inr au" "authorised cd (fRoles b) p"
    and "content (qm b) (auQueueName au) q"
  shows "\<exists>b'. dispatch cd e b p =
      Some (\<lparr>rData = NoData, rErr = fst (aqAck q (auConsumerID au) (auId au))\<rparr>, b') \<and> queuesOnly b b' \<and>
    content (qm b') (auQueueName au) (snd (aqAck q (auConsumerID au) (auId au))) \<and> others {auQueueName au} (qm b) (qm b')"
proof -
  have "managed (qm b)" using fsmOk_sel[OF assms(1)] by simp
  from Ack_content[OF this assms(5), of "auConsumerID au" "auId au"] obtain m where
    m: "queueManager_Ack (qm b) (auQueueName au) (auConsumerID au) (auId au) =
        Some (fst (aqAck q (auConsumerID au) (auId au)), m)" "managed m"
      "content m (auQueueName au) (snd (aqAck q (auConsumerID au) (auId au)))" "others {auQueueName au} (qm b) m" by blast
  with setQm_queuesOnly[OF assms(1) m(2)] show ?thesis
    unfolding dispatch_ACK[OF assms(2-4)] by (auto simp: consumerManager_Ack_def finished_def)
qed

section \<open>A message that comes last\<close>

lemma grab_last:
  assumes "length (filter P xs) < n" "P x"
  shows "grab P f n (xs @ [x]) = (fst (grab P f n xs) @ [x], snd (grab P f n xs) @ [f x])"
  using assms(1)
proof (induction xs arbitrary: n)
  case Nil
  then show ?case using assms(2) by (cases n) auto
next
  case (Cons y ys)
  then show ?case by (cases n) auto
qed

lemma fetched_new_entry:
  assumes "\<not> aqFull q" "length (filter (entryFree (attl q) c now) (items q)) < unat k"
  shows "handedOut (aqEnqueue q i v) k c now = handedOut q k c now @ [newEntry i v]"
    "aqDequeue (aqEnqueue q i v) k c now =
      (aqDequeue q k c now)\<lparr>items := items (aqDequeue q k c now) @ [lockEntry c now (newEntry i v)], amount := amount q + 1\<rparr>"
proof -
  have free: "entryFree (attl q) c now (newEntry i v)" by (simp add: entryFree_def available_def newEntry_def)
  note g = grab_last[where f = "lockEntry c now", OF assms(2) free]
  show "handedOut (aqEnqueue q i v) k c now = handedOut q k c now @ [newEntry i v]"
    using assms(1) g by (simp add: handedOut_def aqEnqueue_def)
  show "aqDequeue (aqEnqueue q i v) k c now =
      (aqDequeue q k c now)\<lparr>items := items (aqDequeue q k c now) @ [lockEntry c now (newEntry i v)], amount := amount q + 1\<rparr>"
    using assms(1) g by (simp add: aqDequeue_def aqEnqueue_def)
qed

lemma dequeue_ids: "map eid (items (aqDequeue q k c now)) = map eid (items q)"
  by (simp add: aqDequeue_def lockEntry_def map_snd_grab)

lemma ack_new_entry:
  assumes "\<forall>x\<in>set (items q). eid x \<noteq> i"
    and "q' = q\<lparr>items := items q @ [lockEntry c now (newEntry i v)], amount := amount q + 1\<rparr>"
  shows "aqAck q' c i = (None, q)"
proof -
  have "\<not> heldAs c i x" if "x \<in> set (items q)" for x using assms(1) that by (auto simp: heldAs_def)
  moreover have "heldAs c i (lockEntry c now (newEntry i v))" by (simp add: heldAs_def lockEntry_def newEntry_def)
  ultimately have "removeFirst (heldAs c i) (items q @ [lockEntry c now (newEntry i v)]) = items q @ []"
    by (intro removeFirst_split) auto
  with assms(2) \<open>heldAs c i (lockEntry c now (newEntry i v))\<close> show ?thesis by (simp add: aqAck_def)
qed

section \<open>The data of results\<close>

definition typedResult :: "Operation \<Rightarrow> SyblineFSMResult \<Rightarrow> bool" where
  "typedResult op res \<longleftrightarrow>
     (case rData res of
        NoData \<Rightarrow> rErr res = None \<longrightarrow> op \<noteq> GET_MESSAGES \<and> op \<noteq> CHANGE_PASSWORD
      | Msgs ms \<Rightarrow> op = GET_MESSAGES \<and> (rErr res \<noteq> None \<longrightarrow> ms = [])
      | Flag f \<Rightarrow> op = CHANGE_PASSWORD \<and> (rErr res \<noteq> None \<longrightarrow> \<not> f))"

definition outTyped :: "Operation \<Rightarrow> outcome \<Rightarrow> bool" where
  "outTyped op out \<longleftrightarrow> (case out of None \<Rightarrow> True | Some (res, b) \<Rightarrow> typedResult op res)"

lemma outTyped_simps [simp]:
  "outTyped op None" "outTyped op (failed b err)" "op \<noteq> GET_MESSAGES \<Longrightarrow> op \<noteq> CHANGE_PASSWORD \<Longrightarrow> outTyped op (finished b er)"
  by (simp_all add: outTyped_def typedResult_def failed_def finished_def)

lemma outTyped_checked: "(\<And>p. outTyped op (k p)) \<Longrightarrow> outTyped op (checked b dec perm k)"
  by (simp add: checked_def split: sum.split)

lemma outTyped_bind: "(\<And>r s. outTyped op (f (r, s))) \<Longrightarrow> outTyped op (m \<bind> f)"
  by (cases m) auto

lemma dispatch_typed: "outTyped (cpOp p) (dispatch cd e b p)"
proof -
  have get: "outTyped GET_MESSAGES (apply_GET_MESSAGES cd b p)" unfolding apply_defs
    by (intro outTyped_checked outTyped_bind) (auto simp: outTyped_def typedResult_def split: sum.split)
  have pw: "outTyped CHANGE_PASSWORD (apply_CHANGE_PASSWORD cd e b p)" unfolding apply_defs
    by (intro outTyped_checked) (auto simp: outTyped_def typedResult_def split: sum.split prod.split)
  have batch: "outTyped SUBMIT_BATCH_MESSAGE (apply_SUBMIT_BATCH_MESSAGE cd e b p)" unfolding apply_defs
    by (auto intro!: outTyped_bind split: sum.split option.split)
  show ?thesis unfolding dispatch_def Let_def using get pw batch
    by (auto simp: apply_defs intro!: outTyped_checked outTyped_bind split: prod.split)
qed

end
