(* ===== verification/FsmCapacity.thy ===== *)
theory FsmCapacity
  imports FsmRuns LinkedListBatchNack
begin

text \<open>
  How full queues get: along all commands but the batch acknowledgements, the count of every queue object
  is the number of its messages, and it passes the capacity only by a batch, by less than the length of
  the batch.
\<close>

section \<open>Queues\<close>

definition sizedBy :: "nat \<Rightarrow> aqueue \<Rightarrow> bool" where
  "sizedBy N q \<longleftrightarrow> amount q = int (length (items q)) \<and> amount q \<le> uint (acap q) + int N"

lemma sizedBy_new: "sizedBy N (newAq sz limit ttl dl)"
  by (simp add: sizedBy_def newAq_def)

lemma sizedBy_enqueue: "sizedBy N q \<Longrightarrow> sizedBy N (aqEnqueue q i v)"
  by (auto simp: sizedBy_def aqEnqueue_def aqFull_def)

lemma sizedBy_batch: "sizedBy N q \<Longrightarrow> length ms \<le> Suc N \<Longrightarrow> sizedBy N (aqBatchEnqueue q ms)"
  by (auto simp: sizedBy_def aqBatchEnqueue_def aqFull_def)

lemma sizedBy_dequeue: "sizedBy N q \<Longrightarrow> sizedBy N (aqDequeue q k c now)"
  by (simp add: sizedBy_def aqDequeue_def length_grab)

lemma sizedBy_ack:
  assumes "sizedBy N q"
  shows "sizedBy N (snd (aqAck q c i))"
proof (cases "\<exists>e\<in>set (items q). heldAs c i e")
  case True
  from length_removeFirst[OF this] assms show ?thesis by (auto simp: sizedBy_def aqAck_def)
qed (use assms in \<open>auto simp: aqAck_def\<close>)

lemma sizedBy_nack:
  assumes "aqNack q dl c i = Some (b, q', dl')" "sizedBy N q" "\<forall>d\<in>set_option dl. sizedBy N d"
  shows "sizedBy N q'" "\<forall>d\<in>set_option dl'. sizedBy N d"
proof -
  show "sizedBy N q'" using assms(1,2) find_length_removeFirst[of "\<lambda>e. eid e = i" "items q"]
    by (fastforce simp: aqNack_def sizedBy_def bind_Some_iff split: option.splits if_splits)
  show "\<forall>d\<in>set_option dl'. sizedBy N d" using assms(1,3)
    by (auto simp: aqNack_def aqDeadLetter_def bind_Some_iff sizedBy_enqueue split: option.splits if_splits queueRef.splits)
qed

section \<open>Queue objects of the manager\<close>

definition sizedObj :: "nat \<Rightarrow> LinkedList \<Rightarrow> bool" where
  "sizedObj N ll \<longleftrightarrow> (\<exists>q. models ll q \<and> sizedBy N q)"

definition sizedMan :: "nat \<Rightarrow> queueManager \<Rightarrow> bool" where
  "sizedMan N m \<longleftrightarrow> managed m \<and> (\<forall>ll\<in>set (qobjs m). sizedObj N ll)"

lemma sizedMan_managed: "sizedMan N m \<Longrightarrow> managed m"
  by (simp add: sizedMan_def)

lemma sizedMan_get:
  assumes "sizedMan N m" "queues m n = Some k"
  obtains q where "models (qobjs m ! k) q" "sizedBy N q"
  using assms managed_range[of m n k] by (fastforce simp: sizedMan_def sizedObj_def)

lemma sizedMan_update:
  assumes "sizedMan N m" "managed m'" "qobjs m' = (qobjs m)[k := ll]" "models ll q" "sizedBy N q"
  shows "sizedMan N m'"
  using assms set_update_subset_insert[of "qobjs m" k ll] by (auto simp: sizedMan_def sizedObj_def)

text \<open>An operation that returns a manager with one object replaced.\<close>

lemma sizedMan_store:
  assumes "sizedMan N m" "queues m n = Some k" "models (qobjs m ! k) q" "models ll q'" "sizedBy N q'" "adl q' = adl q"
  shows "sizedMan N (storeQ m k ll)"
proof (rule sizedMan_update[OF assms(1)])
  have "adl q' = deadLetter (qobjs m ! k)" using assms(3,6) by (simp add: models_deadLetter)
  then show "managed (storeQ m k ll)"
    using storeQ_managed[OF _ managed_range[OF _ assms(2)] assms(4)] sizedMan_managed[OF assms(1)] by blast
qed (use assms in simp_all)

lemma sizedMan_AddMessage:
  assumes "sizedMan N m"
  shows "keeps (sizedMan N) (queueManager_AddMessage m n data i)"
proof (cases "queues m n")
  case (Some k)
  from sizedMan_get[OF assms Some] obtain q where q: "models (qobjs m ! k) q" "sizedBy N q" .
  from Enqueue_models[OF q(1), of i data] obtain ll where
    ll: "Enqueue (qobjs m ! k) i data = Some ll" "models ll (aqEnqueue q i data)" by blast
  have "sizedMan N (storeQ m k ll)"
    by (rule sizedMan_store[OF assms Some q(1) ll(2) sizedBy_enqueue[OF q(2)]]) (simp add: aqEnqueue_def)
  with Some ll(1) show ?thesis by (simp add: queueManager_AddMessage_def)
qed (simp add: missing_queue assms)

lemma sizedMan_BatchAddMessage:
  assumes "sizedMan N m" "length data \<le> Suc N"
  shows "keeps (sizedMan N) (queueManager_BatchAddMessage m n data ids)"
proof (cases "queues m n")
  case (Some k)
  let ?ms = "map (\<lambda>i. \<lparr>mbId = ids ! i, mbData = data ! i\<rparr>) [0..<length data]"
  from sizedMan_get[OF assms(1) Some] obtain q where q: "models (qobjs m ! k) q" "sizedBy N q" .
  from BatchEnqueue_models[OF q(1), of ?ms] obtain ll where
    ll: "BatchEnqueue (qobjs m ! k) ?ms = Some ll" "models ll (aqBatchEnqueue q ?ms)" by blast
  have "sizedMan N (storeQ m k ll)"
    by (rule sizedMan_store[OF assms(1) Some q(1) ll(2) sizedBy_batch[OF q(2)]])
      (use assms(2) in \<open>simp_all add: aqBatchEnqueue_def\<close>)
  with Some ll(1) show ?thesis by (simp add: queueManager_BatchAddMessage_def)
qed (simp add: missing_queue assms)

lemma sizedMan_GetMessage:
  assumes "sizedMan N m"
  shows "keeps (sizedMan N) (queueManager_GetMessage m n j c now)"
proof (cases "queues m n")
  case (Some k)
  from sizedMan_get[OF assms Some] obtain q where q: "models (qobjs m ! k) q" "sizedBy N q" .
  from Dequeue_models[OF q(1), of j c now] obtain ll x y where
    ll: "Dequeue (qobjs m ! k) j c now = Some (x, y, ll)" "models ll (aqDequeue q j c now)" by blast
  have "sizedMan N (storeQ m k ll)"
    by (rule sizedMan_store[OF assms Some q(1) ll(2) sizedBy_dequeue[OF q(2)]]) simp
  with Some ll(1) show ?thesis by (simp add: queueManager_GetMessage_def)
qed (simp add: missing_queue assms)

lemma sizedMan_Ack:
  assumes "sizedMan N m"
  shows "keeps (sizedMan N) (queueManager_Ack m n c i)"
proof (cases "queues m n")
  case (Some k)
  from sizedMan_get[OF assms Some] obtain q where q: "models (qobjs m ! k) q" "sizedBy N q" .
  from UnlockAndEmpty_models[OF q(1), of c i] obtain ll x where
    ll: "UnlockAndEmpty (qobjs m ! k) c i = Some (x, ll)" "models ll (snd (aqAck q c i))" by blast
  have "sizedMan N (storeQ m k ll)"
    by (rule sizedMan_store[OF assms Some q(1) ll(2) sizedBy_ack[OF q(2)]]) (simp add: aqAck_def)
  with Some ll(1) show ?thesis by (simp add: queueManager_Ack_def)
qed (simp add: missing_queue assms)

lemma sizedMan_Nack:
  assumes "sizedMan N m"
  shows "keeps (sizedMan N) (queueManager_Nack m n c i)"
proof (cases "queues m n")
  case (Some k)
  note man = sizedMan_managed[OF assms]
  have lt: "k < length (qobjs m)" using managed_range[OF man Some] .
  from sizedMan_get[OF assms Some] obtain q where q: "models (qobjs m ! k) q" "sizedBy N q" .
  have "\<exists>dl. rel_option models (dlqObj m k) dl \<and> (\<forall>d\<in>set_option dl. sizedBy N d)"
  proof (cases "deadLetter (qobjs m ! k)")
    case (PtrQueue d)
    with managed_dlq[OF man lt] have "qobjs m ! d \<in> set (qobjs m)" by simp
    with assms obtain x where "models (qobjs m ! d) x" "sizedBy N x" by (auto simp: sizedMan_def sizedObj_def)
    with PtrQueue show ?thesis by (intro exI[of _ "Some x"]) (simp add: dlqObj_def)
  qed (auto simp: dlqObj_def)
  then obtain dl where dl: "rel_option models (dlqObj m k) dl" "\<forall>d\<in>set_option dl. sizedBy N d" by blast
  show ?thesis
  proof (cases "Unlock (qobjs m ! k) (dlqObj m k) c i")
    case None
    with Some show ?thesis by (simp add: queueManager_Nack_def)
  next
    case u: (Some r)
    obtain b ll dl1 where r: "r = (b, ll, dl1)" by (cases r)
    from Unlock_models[OF q(1) dl(1), of c i] u r obtain q' dl' where
      n: "aqNack q dl c i = Some (b, q', dl')" "models ll q'" "rel_option models dl1 dl'"
      by (auto simp: option_rel_Some1 rel_prod_sel)
    note sz = sizedBy_nack[OF n(1) q(2) dl(2)] and st = aqNack_settings[OF n(1)]
    from storeDlq_managed[OF man lt dl(1) n(3) st(2,3)] have
      m1: "managed (storeDlq m k dl1)" "qobjs (storeDlq m k dl1) ! k = qobjs m ! k" by auto
    have "sizedMan N (storeDlq m k dl1)"
    proof (cases "\<exists>d l. deadLetter (qobjs m ! k) = PtrQueue d \<and> dl1 = Some l")
      case True
      then obtain d l where d: "deadLetter (qobjs m ! k) = PtrQueue d" "dl1 = Some l" by blast
      from n(3) d(2) obtain x where "dl' = Some x" "models l x" by (auto simp: option_rel_Some1)
      with sz(2) d sizedMan_update[OF assms m1(1), of d l x] show ?thesis by (simp add: storeDlq_def storeQ_def)
    next
      case False
      then have "storeDlq m k dl1 = m" by (auto simp: storeDlq_def split: queueRef.split option.split)
      with assms show ?thesis by simp
    qed
    from sizedMan_store[OF this _ _ n(2) sz(1) st(1), of n k] m1(2) q(1) Some
    have "sizedMan N (storeQ (storeDlq m k dl1) k ll)" by simp
    with Some u r show ?thesis by (simp add: queueManager_Nack_def)
  qed
qed (simp add: missing_queue assms)

lemma sizedMan_CreateQueue:
  assumes "sizedMan N m"
  shows "sizedMan N (snd (queueManager_CreateQueue m n sz limit hasDLQ))"
proof -
  have new: "sizedObj N (NewQueue sz limit ttl dl)" for ttl dl
    unfolding sizedObj_def using NewQueue_models sizedBy_new by blast
  have "set (qobjs (snd (queueManager_CreateQueue m n sz limit hasDLQ))) \<subseteq>
      set (qobjs m) \<union> {NewQueue sz limit ttl dl | ttl dl. True}"
    by (auto simp: queueManager_CreateQueue_def)
  moreover have "managed (snd (queueManager_CreateQueue m n sz limit hasDLQ))"
    by (rule CreateQueue_managed) (use assms in \<open>simp add: sizedMan_def\<close>)
  ultimately show ?thesis using assms new by (fastforce simp: sizedMan_def)
qed

lemma sizedMan_Delete: "sizedMan N m \<Longrightarrow> sizedMan N (snd (queueManager_Delete m n))"
  using Delete_managed[of m n] by (auto simp: sizedMan_def queueManager_Delete_def)

lemma sizedMan_fanOut:
  assumes "\<And>m k. sizedMan N m \<Longrightarrow> keeps (sizedMan N) (add m k)" "sizedMan N m" "fanOut add ks m = Some m'"
  shows "sizedMan N m'"
  using assms(2,3)
proof (induction ks arbitrary: m)
  case (Cons k ks)
  from Cons.prems(2) obtain e m1 where m1: "add m k = Some (e, m1)" "fanOut add ks m1 = Some m'"
    by (auto simp: bind_Some_iff)
  from keepsD[OF assms(1)[OF Cons.prems(1)] m1(1)] Cons.IH m1(2) show ?case by blast
qed simp

section \<open>The broker\<close>

definition sizedBroker :: "nat \<Rightarrow> broker \<Rightarrow> bool" where
  "sizedBroker N b \<longleftrightarrow> sizedMan N (manager b)"

lemma sizedBroker_fanOut:
  assumes "\<And>m k. sizedMan N m \<Longrightarrow> keeps (sizedMan N) (add m k)" "sizedBroker N b"
  shows "keeps (sizedBroker N) (fanOut add ks (manager b) \<bind> (\<lambda>m. Some (e, b\<lparr>manager := m\<rparr>)))"
  using sizedMan_fanOut[where add = add, OF assms(1)] assms(2)
  by (cases "fanOut add ks (manager b)") (auto simp: sizedBroker_def)

lemma sizedBroker_AddMessage: "sizedBroker N b \<Longrightarrow> keeps (sizedBroker N) (broker_AddMessage sched b k data i)"
  unfolding broker_AddMessage_def by (simp add: sizedBroker_fanOut sizedMan_AddMessage split: option.split)

lemma sizedBroker_BatchAddMessage:
  "sizedBroker N b \<Longrightarrow> length datas \<le> Suc N \<Longrightarrow> keeps (sizedBroker N) (broker_BatchAddMessage sched b k datas ids)"
  unfolding broker_BatchAddMessage_def
  by (simp add: sizedBroker_fanOut sizedMan_BatchAddMessage split: option.split)

lemma sizedBroker_batchAdd:
  "sizedBroker N b \<Longrightarrow> \<forall>x\<in>set ms. length (msData x) \<le> Suc N \<Longrightarrow> keeps (sizedBroker N) (batchAdd e b errs ms)"
proof (induction ms arbitrary: b errs)
  case (Cons d ms)
  then show ?case by (auto intro!: keeps_bind[OF sizedBroker_BatchAddMessage])
qed simp

lemma sizedBroker_routes:
  assumes "sizedBroker N b"
  shows "sizedBroker N (snd (broker_CreateQueue b n k sz limit dlq))" "sizedBroker N (snd (broker_AddRouteKey b k n))"
    "sizedBroker N (snd (broker_DeleteQueue order b n))" "keeps (sizedBroker N) (broker_DeleteRoutingKey order b k n)"
proof -
  have add: "sizedBroker N (addRoute b' k n) = sizedBroker N b'" for b'
    by (simp add: addRoute_def sizedBroker_def split: option.split)
  show "sizedBroker N (snd (broker_CreateQueue b n k sz limit dlq))"
    using assms sizedMan_CreateQueue[of N "manager b" n sz limit dlq]
    by (auto simp: broker_CreateQueue_def add sizedBroker_def split: prod.split option.split)
  show "sizedBroker N (snd (broker_AddRouteKey b k n))" using assms by (simp add: broker_AddRouteKey_def add)
  have "sizedBroker N (snd (broker_DeleteQueue_loop order b n))"
    using assms sizedMan_Delete[of N "manager b" n]
    by (induction order) (auto simp: sizedBroker_def Let_def split: option.split prod.split)
  then show "sizedBroker N (snd (broker_DeleteQueue order b n))" by (simp add: broker_DeleteQueue_def)
  show "keeps (sizedBroker N) (broker_DeleteRoutingKey order b k n)"
    using assms by (auto simp: broker_DeleteRoutingKey_def keeps_def sizedBroker_def Let_def bind_Some_iff split: option.splits if_splits)
qed

section \<open>The state machine\<close>

text \<open>The batches of a command are short enough.\<close>

definition shortBatches :: "codec \<Rightarrow> nat \<Rightarrow> CommandPayload \<Rightarrow> bool" where
  "shortBatches cd N p \<longleftrightarrow> cpOp p \<noteq> BATCH_ACK \<and> cpOp p \<noteq> BATCH_NACK \<and>
     (cpOp p = SUBMIT_BATCH_MESSAGE \<longrightarrow>
        (\<forall>ms. decBatchMessages cd (cpData p) = Inr ms \<longrightarrow> (\<forall>x\<in>set ms. length (msData x) \<le> Suc N)))"

definition sizedFsm :: "nat \<Rightarrow> syblineFSM \<Rightarrow> bool" where
  "sizedFsm N b \<longleftrightarrow> sizedBroker N (fBroker b)"

lemma sizedFsm_parts [simp]:
  "sizedFsm N (b\<lparr>fAuth := a\<rparr>) = sizedFsm N b" "sizedFsm N (b\<lparr>fRoles := r\<rparr>) = sizedFsm N b"
  "sizedFsm N (b\<lparr>fBroker := br\<rparr>) = sizedBroker N br" "sizedFsm N (setQm b m) = sizedMan N m"
  by (simp_all add: sizedFsm_def setQm_def sizedBroker_def)

lemma dispatch_sized:
  assumes "sizedFsm N b" "shortBatches cd N p"
  shows "keeps (sizedFsm N) (dispatch cd e b p)"
proof -
  have br: "sizedBroker N (fBroker b)" and man: "sizedMan N (qm b)"
    using assms(1) by (simp_all add: sizedFsm_def sizedBroker_def)
  note ro = sizedBroker_routes[OF br]
  have acct: "keeps (sizedFsm N) (apply_CREATE_ACCOUNT cd e b p)" "keeps (sizedFsm N) (apply_CHANGE_PASSWORD cd e b p)"
    "keeps (sizedFsm N) (apply_DELETE_USER cd b p)" "keeps (sizedFsm N) (apply_CREATE_ROLE cd b p)"
    "keeps (sizedFsm N) (apply_ASSIGN_ROLE cd b p)" "keeps (sizedFsm N) (apply_UNASSIGN_ROLE cd b p)"
    unfolding apply_defs by (intro keeps_checked assms; simp add: assms split: prod.split sum.split)+
  have calls: "keeps (sizedFsm N) (apply_CREATE_QUEUE cd b p)" "keeps (sizedFsm N) (apply_ADD_ROUTING_KEY cd b p)"
    "keeps (sizedFsm N) (apply_DELETE_QUEUE cd e b p)" unfolding apply_defs
    by (intro keeps_checked assms keeps_call[where I = "sizedBroker N", OF ro(1)] keeps_call[where I = "sizedBroker N", OF ro(2)]
        keeps_call[where I = "sizedBroker N", OF ro(3)]; simp)+
  have msg: "keeps (sizedFsm N) (apply_SUBMIT_MESSAGE cd e b p)" "keeps (sizedFsm N) (apply_DELETE_ROUTING_KEY cd e b p)"
    unfolding apply_defs
    by (intro keeps_checked assms keeps_bind[OF sizedBroker_AddMessage[OF br]] keeps_bind[OF ro(4)]; simp)+
  have "keeps (sizedMan N) (consumerManager_GetMessages (qm b) n j c now)" for n j c now
    using sizedMan_GetMessage[OF man] man by (simp add: consumerManager_GetMessages_def)
  then have get: "keeps (sizedFsm N) (apply_GET_MESSAGES cd b p)" unfolding apply_defs
    by (intro keeps_checked assms keeps_bind[where J = "sizedMan N"]) (simp_all split: sum.split)
  have ack: "keeps (sizedFsm N) (apply_ACK cd b p)" "keeps (sizedFsm N) (apply_NACK cd b p)"
    unfolding apply_defs consumerManager_Ack_def consumerManager_Nack_def
    by (intro keeps_checked assms keeps_bind[OF sizedMan_Ack[OF man]] keeps_bind[OF sizedMan_Nack[OF man]]; simp)+
  have batch: "keeps (sizedFsm N) (apply_SUBMIT_BATCH_MESSAGE cd e b p)" if "cpOp p = SUBMIT_BATCH_MESSAGE"
  proof -
    have "keeps (sizedFsm N) (batchAdd e (fBroker b) [] ms \<bind> (\<lambda>(errs, br). finished (b\<lparr>fBroker := br\<rparr>) (joinErrors errs)))"
      if "\<forall>x\<in>set ms. length (msData x) \<le> Suc N" for ms
      by (rule keeps_bind[OF sizedBroker_batchAdd[OF br that]]) simp
    then show ?thesis using assms that unfolding apply_defs
      by (auto simp: shortBatches_def split: sum.split option.split)
  qed
  show ?thesis using assms acct calls msg get ack batch unfolding dispatch_def Let_def
    by (auto simp: shortBatches_def)
qed

text \<open>What it says of a queue with a name.\<close>

lemma sizedFsm_queue:
  assumes "sizedFsm N b" "queues (qm b) n = Some k"
  shows "\<exists>es. contents (qobjs (qm b) ! k) = Some es \<and> Value (Amount (qobjs (qm b) ! k)) = int (length es) \<and>
    int (length es) \<le> uint (cap (qobjs (qm b) ! k)) + int N"
proof -
  from sizedMan_get[OF _ assms(2)] assms(1) obtain q where "models (qobjs (qm b) ! k) q" "sizedBy N q"
    by (auto simp: sizedFsm_def sizedBroker_def)
  with models_contents[OF this(1)] show ?thesis
    by (auto simp: models_def absOf_def sizedBy_def Value_def)
qed

end
