(* ===== verification/DeliveryProperties.thy ===== *)
theory DeliveryProperties
  imports FsmDelivery FsmCapacity HandlerProperties BrokerProperties
begin

text \<open>
  The properties of delivery through the state machine: the life of a message from its submission to its
  acknowledgement, how full queues get, and the data that results carry.
\<close>

section \<open>A broker for the witnesses\<close>

definition demoQueue :: syblineFSM where
  "demoQueue = demoFsm\<lparr>fBroker := oneQueue ''q'' ''k'' False 3\<rparr>"

definition demoMsgCodec :: codec where
  "demoMsgCodec = demoCodec
     \<lparr>decRequest := (\<lambda>_. Inr \<lparr>rmQueueName = ''q'', rmAmount = 2, rmConsumerID = [7], rmTime = 50\<rparr>),
      decAckUpdate := (\<lambda>_. Inr \<lparr>auQueueName = ''q'', auId = [1], auConsumerID = [7]\<rparr>)\<rparr>"

abbreviation demoCommand :: "Operation \<Rightarrow> CommandPayload" where
  "demoCommand op \<equiv> \<lparr>cpUsername = ''root'', cpOp = op, cpData = []\<rparr>"

lemma demoQueue_ok: "fsmOk demoQueue"
  using demoFsm_ok oneQueue_ok by (simp add: demoQueue_def fsmOk_def)

lemma demoQueue_content: "content (qm demoQueue) ''q'' (newAq 5 3 100 PtrNil)"
  using oneQueue_content[of "''q''" "''k''" False 3] by (simp add: demoQueue_def)

lemma demo_authorised:
  "op \<in> {SUBMIT_MESSAGE, GET_MESSAGES, ACK} \<Longrightarrow> authorised demoMsgCodec (fRoles demoQueue) (demoCommand op)"
  by (auto simp: authorised_def adminTable_def actionTable_def entities_def demoMsgCodec_def demoCodec_def demoQueue_def
      demoFsm_def HasPermission_iff demoRoles_def roleROOT_def roleVerdict_def actionMap_def anyAllow_def)

lemma demo_decodes:
  "decMessageInfo demoMsgCodec (cpData (demoCommand op)) = Inr \<lparr>miRk = ''k'', miData = [11], miId = [1]\<rparr>"
  "decRequest demoMsgCodec (cpData (demoCommand op)) = Inr \<lparr>rmQueueName = ''q'', rmAmount = 2, rmConsumerID = [7], rmTime = 50\<rparr>"
  "decAckUpdate demoMsgCodec (cpData (demoCommand op)) = Inr \<lparr>auQueueName = ''q'', auId = [1], auConsumerID = [7]\<rparr>"
  by (simp_all add: demoMsgCodec_def demoCodec_def)

section \<open>Properties\<close>

text \<open>
  C4: The life of a message. Take a queue that is not full and is named once by a routing key. A user who
  may submit sends a message with a new identifier; then a consumer that may fetch asks for more messages
  than are free for it; then it acknowledges the message. All three commands succeed. The fetch returns
  what it would have returned without the message, and the message after it, and in the end the queue is
  what it would be after the same fetch if the message had never been sent. Queues that the routing key
  does not name keep their content.
\<close>

theorem message_lifecycle:
  assumes "fsmOk b" "content (qm b) n q" "n \<noteq> []" "\<not> aqFull q"
    and "cpOp p1 = SUBMIT_MESSAGE" "decMessageInfo cd (cpData p1) = Inr \<lparr>miRk = k, miData = v, miId = i\<rparr>"
    and "routing (fBroker b) k = Some ks" "count_list ks n = 1" "\<And>e. mset (eSched (es e) ks) = mset ks" "v \<noteq> []"
    and "\<forall>x\<in>set (items q). eid x \<noteq> i"
    and "cpOp p2 = GET_MESSAGES"
      "decRequest cd (cpData p2) = Inr \<lparr>rmQueueName = n, rmAmount = a, rmConsumerID = c, rmTime = now\<rparr>"
    and "length (filter (entryFree (attl q) c now) (items q)) < unat a"
    and "cpOp p3 = ACK" "decAckUpdate cd (cpData p3) = Inr \<lparr>auQueueName = n, auId = i, auConsumerID = c\<rparr>"
    and "authorised cd (fRoles b) p1" "authorised cd (fRoles b) p2" "authorised cd (fRoles b) p3"
  shows "\<exists>b1 b2 b3. dispatch cd (es 0) b p1 = Some (\<lparr>rData = NoData, rErr = None\<rparr>, b1) \<and>
    dispatch cd (es 1) b1 p2 =
      Some (\<lparr>rData = Msgs (map toMessage (handedOut q a c now) @ [\<lparr>msgId = i, msgData = v\<rparr>]), rErr = None\<rparr>, b2) \<and>
    dispatch cd (es 2) b2 p3 = Some (\<lparr>rData = NoData, rErr = None\<rparr>, b3) \<and>
    content (qm b3) n (aqDequeue q a c now) \<and>
    (\<forall>n' q'. n' \<notin> set ks \<longrightarrow> content (qm b) n' q' \<longrightarrow> content (qm b3) n' q') \<and> fsmOk b3"
proof -
  let ?q1 = "aqEnqueue q i v" and ?q2 = "aqDequeue (aqEnqueue q i v) a c now"
  have "n \<in> set ks" using assms(8) by (metis count_list_0_iff zero_neq_one)
  from submit_content[OF assms(1,5,6,17), of ks "es 0"] assms(7,9,10) obtain b1 where
    b1: "dispatch cd (es 0) b p1 = Some (\<lparr>rData = NoData, rErr = None\<rparr>, b1)" "queuesOnly b b1"
      "\<And>m x. content (qm b) m x \<Longrightarrow> content (qm b1) m (((\<lambda>x. aqEnqueue x i v) ^^ count_list ks m) x)" by auto
  have c1: "content (qm b1) n ?q1" using b1(3)[OF assms(2)] assms(8) by simp
  have k1: "content (qm b1) m x" if "content (qm b) m x" "m \<notin> set ks" for m x
    using b1(3)[OF that(1)] that(2) by simp
  from b1(2) assms(18,19) have s1: "fsmOk b1" "authorised cd (fRoles b1) p2" "authorised cd (fRoles b1) p3"
    by (simp_all add: queuesOnly_def)
  from get_content[OF s1(1) assms(12,13) s1(2), of ?q1 "es 1"] assms(3) c1 fetched_new_entry(1)[OF assms(4,14)]
  obtain b2 where b2: "dispatch cd (es 1) b1 p2 =
      Some (\<lparr>rData = Msgs (map toMessage (handedOut q a c now) @ [\<lparr>msgId = i, msgData = v\<rparr>]), rErr = None\<rparr>, b2)"
    "queuesOnly b1 b2" "content (qm b2) n ?q2" "others {n} (qm b1) (qm b2)" by (auto simp: newEntry_def)
  from b2(2) s1(3) have s2: "fsmOk b2" "authorised cd (fRoles b2) p3" by (simp_all add: queuesOnly_def)
  have new: "\<forall>x\<in>set (items (aqDequeue q a c now)). eid x \<noteq> i"
    using assms(11) dequeue_ids[of q a c now] by (metis (no_types, lifting) in_set_conv_nth length_map nth_map)
  have "aqAck ?q2 c i = (None, aqDequeue q a c now)"
    by (rule ack_new_entry[OF new]) (simp add: fetched_new_entry(2)[OF assms(4,14)])
  with ack_content[OF s2(1) assms(15,16) s2(2), of ?q2 "es 2"] b2(3) obtain b3 where
    b3: "dispatch cd (es 2) b2 p3 = Some (\<lparr>rData = NoData, rErr = None\<rparr>, b3)" "queuesOnly b2 b3"
      "content (qm b3) n (aqDequeue q a c now)" "others {n} (qm b2) (qm b3)" by auto
  have "content (qm b3) m x" if "m \<notin> set ks" "content (qm b) m x" for m x
    using that k1 b2(4) b3(4) \<open>n \<in> set ks\<close> by (metis others_content)
  with b1(1) b2(1) b3 show ?thesis by (auto simp: queuesOnly_def)
qed

theorem message_lifecycle_witness:
  "\<exists>b1 b2 b3. dispatch demoMsgCodec (demoEnv True) demoQueue (demoCommand SUBMIT_MESSAGE) =
       Some (\<lparr>rData = NoData, rErr = None\<rparr>, b1) \<and>
     dispatch demoMsgCodec (demoEnv True) b1 (demoCommand GET_MESSAGES) =
       Some (\<lparr>rData = Msgs [\<lparr>msgId = [1], msgData = [11]\<rparr>], rErr = None\<rparr>, b2) \<and>
     dispatch demoMsgCodec (demoEnv True) b2 (demoCommand ACK) = Some (\<lparr>rData = NoData, rErr = None\<rparr>, b3) \<and>
     content (qm b3) ''q'' (newAq 5 3 100 PtrNil)"
proof -
  have r: "routing (fBroker demoQueue) ''k'' = Some [''q'']" by (simp add: demoQueue_def oneQueue_routing)
  have d: "handedOut (newAq 5 3 100 PtrNil) 2 [7] 50 = []" "aqDequeue (newAq 5 3 100 PtrNil) 2 [7] 50 = newAq 5 3 100 PtrNil"
    by (simp_all add: handedOut_def aqDequeue_def newAq_def)
  have m: "mset (eSched (demoEnv True) [''q'']) = mset [''q'']" by (simp add: demoEnv_def)
  note life = message_lifecycle[where es = "\<lambda>_. demoEnv True" and ?p1.0 = "demoCommand SUBMIT_MESSAGE"
      and ?p2.0 = "demoCommand GET_MESSAGES" and ?p3.0 = "demoCommand ACK", OF demoQueue_ok demoQueue_content _ _ _
      demo_decodes(1) r _ m _ _ _ demo_decodes(2) _ _ demo_decodes(3) demo_authorised demo_authorised demo_authorised, unfolded d]
  show ?thesis using life by (auto simp: aqFull_def newAq_def)
qed

text \<open>
  C8: How full a queue gets. From a state in which every queue counts its messages exactly and holds its
  capacity plus \<open>N\<close> at most, any commands whose batches hold \<open>N + 1\<close> messages per routing key at most, and
  which are not batch acknowledgements, lead to such a state again. So with single messages no queue holds
  more than its capacity, and a batch can pass it by less than its own length.
\<close>

theorem capacity_respected:
  assumes "sizedFsm N b" "\<forall>p\<in>set ps. shortBatches cd N p" "runCommands cd es i b ps = Some b'"
    and "queues (qm b') n = Some k"
  shows "\<exists>xs. contents (qobjs (qm b') ! k) = Some xs \<and> Value (Amount (qobjs (qm b') ! k)) = int (length xs) \<and>
    int (length xs) \<le> uint (cap (qobjs (qm b') ! k)) + int N"
proof (rule sizedFsm_queue[OF _ assms(4)])
  show "sizedFsm N b'"
    by (rule runCommands_inv[where I = "sizedFsm N", OF _ assms(1,3)]) (use assms(2) dispatch_sized in blast)
qed

lemma demoQueue_sized: "sizedFsm 0 demoQueue"
proof -
  have "sizedMan 0 (NewQueueManager 100)" using managed_new[of 100] by (simp add: sizedMan_def NewQueueManager_def)
  then show ?thesis using sizedBroker_routes(1)[of 0 "NewBroker (NewQueueManager 100)" "''q''" "''k''" 5 3 False]
    by (simp add: demoQueue_def sizedFsm_def oneQueue_def sizedBroker_def NewBroker_def)
qed

lemma demo_submit:
  assumes "queuesOnly demoQueue b" "content (qm b) ''q'' q"
  shows "\<exists>b' q'. dispatch demoMsgCodec (demoEnv True) b (demoCommand SUBMIT_MESSAGE) =
      Some (\<lparr>rData = NoData, rErr = None\<rparr>, b') \<and> queuesOnly demoQueue b' \<and> content (qm b') ''q'' q'"
proof -
  have b: "fsmOk b" "authorised demoMsgCodec (fRoles b) (demoCommand SUBMIT_MESSAGE)"
    "routing (fBroker b) ''k'' = Some [''q'']"
    using assms(1) demo_authorised[of SUBMIT_MESSAGE] by (simp_all add: queuesOnly_def demoQueue_def oneQueue_routing)
  from submit_content[OF b(1) _ demo_decodes(1) b(2), of "[''q'']" "demoEnv True"] b(3) assms obtain b' where
    "dispatch demoMsgCodec (demoEnv True) b (demoCommand SUBMIT_MESSAGE) = Some (\<lparr>rData = NoData, rErr = None\<rparr>, b')"
    "queuesOnly b b'" "content (qm b') ''q'' (aqEnqueue q [1] [11])" by (fastforce simp: demoEnv_def)
  with assms(1) show ?thesis by (auto simp: queuesOnly_def)
qed

theorem capacity_respected_witness:
  "\<exists>b' k xs. runCommands demoMsgCodec (\<lambda>_. demoEnv True) 0 demoQueue [demoCommand SUBMIT_MESSAGE, demoCommand SUBMIT_MESSAGE] = Some b' \<and>
     queues (qm b') ''q'' = Some k \<and> contents (qobjs (qm b') ! k) = Some xs \<and>
     int (length xs) \<le> uint (cap (qobjs (qm b') ! k))"
proof -
  have "queuesOnly demoQueue demoQueue" by (simp add: queuesOnly_def demoQueue_ok)
  from demo_submit[OF this demoQueue_content] obtain r1 b1 q1 where
    b1: "dispatch demoMsgCodec (demoEnv True) demoQueue (demoCommand SUBMIT_MESSAGE) = Some (r1, b1)" "queuesOnly demoQueue b1"
      "content (qm b1) ''q'' q1" by blast
  from demo_submit[OF b1(2,3)] obtain r2 b2 q2 k where
    b2: "dispatch demoMsgCodec (demoEnv True) b1 (demoCommand SUBMIT_MESSAGE) = Some (r2, b2)" "queues (qm b2) ''q'' = Some k"
    by (auto simp: content_def)
  have run: "runCommands demoMsgCodec (\<lambda>_. demoEnv True) 0 demoQueue [demoCommand SUBMIT_MESSAGE, demoCommand SUBMIT_MESSAGE] = Some b2"
    using b1(1) b2(1) by simp
  from capacity_respected[OF demoQueue_sized _ run b2(2)] run b2(2) show ?thesis by (auto simp: shortBatches_def)
qed

text \<open>
  C29: The data of results. The result of a command carries messages exactly when the command is a fetch that
  got to its queue, a flag exactly when it is a password change that got to the account, and no data
  otherwise. So the type assertions of the request handler never fail on a result without error.
\<close>

theorem result_data_typed:
  assumes "dispatch cd e b p = Some (res, b')"
  shows "typedResult (cpOp p) res \<and>
    (cpOp p = GET_MESSAGES \<longrightarrow> rErr res = None \<longrightarrow>
       (\<exists>ms. rData res = Msgs ms \<and> handler_GetMessages_result (commandResult (Some res)) = Inr ms))"
proof -
  have t: "typedResult (cpOp p) res" using dispatch_typed[of p cd e b] assms by (simp add: outTyped_def)
  moreover have "\<exists>ms. rData res = Msgs ms \<and> handler_GetMessages_result (commandResult (Some res)) = Inr ms"
    if "cpOp p = GET_MESSAGES" "rErr res = None"
    using t that by (auto simp: typedResult_def commandResult_def handler_GetMessages_result_def split: resultData.splits)
  ultimately show ?thesis by blast
qed

theorem result_data_typed_witness:
  "\<exists>ms b'. dispatch demoMsgCodec (demoEnv True) demoQueue (demoCommand GET_MESSAGES) =
     Some (\<lparr>rData = Msgs ms, rErr = None\<rparr>, b') \<and>
     handler_GetMessages_result (commandResult (Some \<lparr>rData = Msgs ms, rErr = None\<rparr>)) = Inr ms"
proof -
  have a: "authorised demoMsgCodec (fRoles demoQueue) (demoCommand GET_MESSAGES)" by (rule demo_authorised) simp
  from get_content[OF demoQueue_ok _ demo_decodes(2) a, of "newAq 5 3 100 PtrNil" "demoEnv True"] demoQueue_content obtain ms b' where
    r: "dispatch demoMsgCodec (demoEnv True) demoQueue (demoCommand GET_MESSAGES) = Some (\<lparr>rData = Msgs ms, rErr = None\<rparr>, b')"
    by auto
  from result_data_typed[OF r] r show ?thesis by auto
qed

end
