(* ===== verification/BrokerSpec.thy ===== *)
theory BrokerSpec
  imports FsmDelivery FsmReplicas
begin

text \<open>
  What the broker promises as a whole: a specification of the message commands over abstract queues, with
  neither pointers nor node pools nor goroutines, and the proof that the state machine refines it. The
  locale \<open>forward_simulation\<close> states what a step has to satisfy and carries the induction over runs.
\<close>

section \<open>Simulations\<close>

text \<open>
  A run collects the visible operations with their results; a step without a label is hidden. \<open>None\<close> is a
  panic.
\<close>

fun tracedRun ::
    "('c \<Rightarrow> 's \<Rightarrow> ('r \<times> 's) option) \<Rightarrow> ('c \<Rightarrow> 's \<Rightarrow> 'o option) \<Rightarrow> 'c list \<Rightarrow> 's \<Rightarrow> (('o \<times> 'r) list \<times> 's) option" where
  "tracedRun step label [] s = Some ([], s)"
| "tracedRun step label (c # cs) s =
     do { (r, s') \<leftarrow> step c s;
          (tr, s'') \<leftarrow> tracedRun step label cs s';
          Some (case label c s of None \<Rightarrow> tr | Some x \<Rightarrow> (x, r) # tr, s'') }"

fun specRun :: "('o \<Rightarrow> 'a \<Rightarrow> ('r \<times> 'a) option) \<Rightarrow> 'o list \<Rightarrow> 'a \<Rightarrow> ('r list \<times> 'a) option" where
  "specRun spec [] a = Some ([], a)"
| "specRun spec (x # xs) a =
     do { (r, a') \<leftarrow> spec x a;
          (rs, a'') \<leftarrow> specRun spec xs a';
          Some (r # rs, a'') }"

locale forward_simulation =
  fixes ok :: "'s \<Rightarrow> bool" and rep :: "'s \<Rightarrow> 'a \<Rightarrow> bool" and admissible :: "'c \<Rightarrow> bool"
    and step :: "'c \<Rightarrow> 's \<Rightarrow> ('r \<times> 's) option" and label :: "'c \<Rightarrow> 's \<Rightarrow> 'o option"
    and spec :: "'o \<Rightarrow> 'a \<Rightarrow> ('r \<times> 'a) option"
  assumes ok_step: "ok s \<Longrightarrow> admissible c \<Longrightarrow> step c s = Some (r, s') \<Longrightarrow> ok s'"
    and hidden: "ok s \<Longrightarrow> admissible c \<Longrightarrow> rep s a \<Longrightarrow> label c s = None \<Longrightarrow> \<exists>r s'. step c s = Some (r, s') \<and> rep s' a"
    and visible: "ok s \<Longrightarrow> admissible c \<Longrightarrow> rep s a \<Longrightarrow> label c s = Some x \<Longrightarrow>
      rel_option (rel_prod (=) rep) (step c s) (spec x a)"
begin

lemma run_simulated:
  assumes "tracedRun step label cs s = Some (tr, s')" "ok s" "rep s a" "\<forall>c\<in>set cs. admissible c"
  shows "\<exists>a'. specRun spec (map fst tr) a = Some (map snd tr, a') \<and> rep s' a' \<and> ok s'"
  using assms
proof (induction cs arbitrary: s a tr)
  case (Cons c cs)
  then obtain r s1 tr1 where c: "step c s = Some (r, s1)" "tracedRun step label cs s1 = Some (tr1, s')"
    and tr: "tr = (case label c s of None \<Rightarrow> tr1 | Some x \<Rightarrow> (x, r) # tr1)" by (auto simp: bind_Some_iff)
  note ok1 = ok_step[OF Cons.prems(2) _ c(1)]
  show ?case
  proof (cases "label c s")
    case None
    from hidden[OF Cons.prems(2) _ Cons.prems(3) None] c(1) Cons.prems(4) have "rep s1 a" by auto
    from Cons.IH[OF c(2) _ this] ok1 Cons.prems(4) tr None show ?thesis by simp
  next
    case (Some x)
    from visible[OF Cons.prems(2) _ Cons.prems(3) Some] c(1) Cons.prems(4) obtain a1 where
      a1: "spec x a = Some (r, a1)" "rep s1 a1" by (auto simp: rel_option_Some_left)
    from Cons.IH[OF c(2) _ a1(2)] ok1 Cons.prems(4) tr Some a1(1) show ?thesis by auto
  qed
qed auto

lemma panic_specified:
  assumes "tracedRun step label cs s = None" "ok s" "rep s a" "\<forall>c\<in>set cs. admissible c"
  shows "\<exists>cs1 c cs2 tr s1 a1 x. cs = cs1 @ c # cs2 \<and> tracedRun step label cs1 s = Some (tr, s1) \<and>
    specRun spec (map fst tr) a = Some (map snd tr, a1) \<and> label c s1 = Some x \<and> spec x a1 = None"
  using assms
proof (induction cs arbitrary: s a)
  case (Cons c cs)
  show ?case
  proof (cases "step c s")
    case None
    with hidden[OF Cons.prems(2) _ Cons.prems(3), of c] Cons.prems(4) obtain x where x: "label c s = Some x"
      by (cases "label c s") auto
    from visible[OF Cons.prems(2) _ Cons.prems(3) x] None Cons.prems(4) have "spec x a = None" by (simp add: rel_option_None1)
    with x show ?thesis
      by (intro exI[of _ "[]"] exI[of _ c] exI[of _ cs] exI[of _ "[]"] exI[of _ s] exI[of _ a] exI[of _ x]) simp
  next
    case (Some rs)
    then obtain r s1 where c: "step c s = Some (r, s1)" by (cases rs) auto
    with Cons.prems(1) have n: "tracedRun step label cs s1 = None"
      by (cases "tracedRun step label cs s1") auto
    from run_simulated[of "[c]" s "case label c s of None \<Rightarrow> [] | Some x \<Rightarrow> [(x, r)]" s1 a] c Cons.prems(2-4) obtain a1 where
      a1: "specRun spec (map fst (case label c s of None \<Rightarrow> [] | Some x \<Rightarrow> [(x, r)])) a =
          Some (map snd (case label c s of None \<Rightarrow> [] | Some x \<Rightarrow> [(x, r)]), a1)" "rep s1 a1" "ok s1" by auto
    from Cons.IH[OF n a1(3,2)] Cons.prems(4) obtain cs1 d cs2 tr s2 a2 x where
      ih: "cs = cs1 @ d # cs2" "tracedRun step label cs1 s1 = Some (tr, s2)"
        "specRun spec (map fst tr) a1 = Some (map snd tr, a2)" "label d s2 = Some x" "spec x a2 = None" by auto
    let ?tr = "case label c s of None \<Rightarrow> tr | Some y \<Rightarrow> (y, r) # tr"
    have "tracedRun step label (c # cs1) s = Some (?tr, s2)" using c ih(2) by simp
    moreover have "specRun spec (map fst ?tr) a = Some (map snd ?tr, a2)"
      using a1(1) ih(3) by (cases "label c s") (auto simp: bind_Some_iff)
    ultimately show ?thesis using ih(1,4,5)
      by (intro exI[of _ "c # cs1"] exI[of _ d] exI[of _ cs2] exI[of _ ?tr] exI[of _ s2] exI[of _ a2] exI[of _ x]) simp
  qed
qed simp

end

section \<open>The specification\<close>

text \<open>Names refer to queues, a queue can refer to its dead letter queue, and routing keys lead to names.\<close>

record messageBroker =
  aNames :: "string \<rightharpoonup> qid"
  aObjs :: "aqueue list"
  aTTL :: i64
  aRoutes :: "string \<rightharpoonup> string list"

definition emptyBroker :: "i64 \<Rightarrow> messageBroker" where
  "emptyBroker ttl = \<lparr>aNames = Map.empty, aObjs = [], aTTL = ttl, aRoutes = Map.empty\<rparr>"

text \<open>The visible operations. Where the code ranges over the map of routes, the order is part of the operation.\<close>

datatype brokerOp =
    CreateOp string string u32 u32 bool
  | DropOp "string list" string
  | RouteOp string string
  | UnrouteOp "string list" string string
  | SubmitOp string bytes bytes
  | BatchOp "Messages list"
  | FetchOp string u32 bytes i64
  | AckOp string bytes bytes
  | NackOp string bytes bytes

definition putObj :: "qid \<Rightarrow> aqueue \<Rightarrow> messageBroker \<Rightarrow> messageBroker" where
  "putObj i q a = a\<lparr>aObjs := (aObjs a)[i := q]\<rparr>"

definition specDeliver :: "bytes \<Rightarrow> bytes \<Rightarrow> messageBroker \<Rightarrow> string \<Rightarrow> (error option \<times> messageBroker) option" where
  "specDeliver i v a n =
     (case aNames a n of
        None \<Rightarrow> Some (Some ErrQueueMissing, a)
      | Some k \<Rightarrow> Some (None, putObj k (aqEnqueue (aObjs a ! k) i v) a))"

definition specDeliverBatch :: "bytes list \<Rightarrow> bytes list \<Rightarrow> messageBroker \<Rightarrow> string \<Rightarrow> (error option \<times> messageBroker) option" where
  "specDeliverBatch ids vs a n =
     (case aNames a n of
        None \<Rightarrow> Some (Some ErrQueueMissing, a)
      | Some k \<Rightarrow>
          if length ids < length vs then None
          else Some (None, putObj k (aqBatchEnqueue (aObjs a ! k) (map (\<lambda>(i, d). \<lparr>mbId = i, mbData = d\<rparr>) (zip ids vs))) a))"

definition specSubmit :: "string \<Rightarrow> bytes \<Rightarrow> bytes \<Rightarrow> messageBroker \<Rightarrow> (error option \<times> messageBroker) option" where
  "specSubmit key v i a =
     (if v = [] then Some (Some ErrEmptyData, a)
      else case aRoutes a key of
             None \<Rightarrow> Some (Some ErrRoutingKeyDoesNotExist, a)
           | Some ns \<Rightarrow> do { a' \<leftarrow> fanOut (specDeliver i v) ns a; Some (None, a') })"

fun specBatch :: "Messages list \<Rightarrow> messageBroker \<Rightarrow> (error list \<times> messageBroker) option" where
  "specBatch [] a = Some ([], a)"
| "specBatch (m # ms) a =
     do { (err, a') \<leftarrow>
            (if [] \<in> set (msData m) then Some (Some ErrEmptyData, a)
             else case aRoutes a (msRK m) of
                    None \<Rightarrow> Some (Some ErrRoutingKeyDoesNotExist, a)
                  | Some ns \<Rightarrow> do { a' \<leftarrow> fanOut (specDeliverBatch (msIds m) (msData m)) ns a; Some (None, a') });
          (errs, a'') \<leftarrow> specBatch ms a';
          Some ((case err of None \<Rightarrow> [] | Some x \<Rightarrow> [x]) @ errs, a'') }"

definition specAddRoute :: "string \<Rightarrow> string \<Rightarrow> messageBroker \<Rightarrow> messageBroker" where
  "specAddRoute key n a = a\<lparr>aRoutes := (aRoutes a)(key \<mapsto> sort (routeOf (aRoutes a) key @ [n]))\<rparr>"

definition specCreate :: "string \<Rightarrow> string \<Rightarrow> u32 \<Rightarrow> u32 \<Rightarrow> bool \<Rightarrow> messageBroker \<Rightarrow> error option \<times> messageBroker" where
  "specCreate n key sz limit hasDLQ a =
     (if key = [] then (Some ErrMissingRoutingKey, a)
      else if n = [] \<or> sz = 0 \<or> aNames a n \<noteq> None then (Some ErrFailedQueueCreation, a)
      else
        let k = length (aObjs a);
            a' = (if hasDLQ
                  then a\<lparr>aObjs := aObjs a @ [newAq sz limit (aTTL a) NilPtr, newAq sz limit (aTTL a) (PtrQueue k)],
                         aNames := (aNames a)(n @ ''-dlq'' \<mapsto> k, n \<mapsto> Suc k)\<rparr>
                  else a\<lparr>aObjs := aObjs a @ [newAq sz limit (aTTL a) PtrNil], aNames := (aNames a)(n \<mapsto> k)\<rparr>)
        in (None, specAddRoute key n a'))"

definition specDrop :: "string list \<Rightarrow> string \<Rightarrow> messageBroker \<Rightarrow> error option \<times> messageBroker" where
  "specDrop order n a =
     (case find (\<lambda>key. n \<in> set (routeOf (aRoutes a) key)) order of
        None \<Rightarrow> (None, a)
      | Some key \<Rightarrow>
          if aNames a n = None then (Some ErrQueueMissing, a)
          else (None, a\<lparr>aNames := (aNames a)(n := None),
                        aRoutes := (aRoutes a)(key \<mapsto> removeFirst (\<lambda>v. v = n) (routeOf (aRoutes a) key))\<rparr>))"

definition specRoute :: "string \<Rightarrow> string \<Rightarrow> messageBroker \<Rightarrow> error option \<times> messageBroker" where
  "specRoute key n a =
     (if key = [] then (Some ErrMissingRoutingKey, a)
      else if n = [] then (Some ErrInvalidQueueName, a)
      else if aNames a n = None then (Some ErrQueueDoesNotExist, a)
      else (None, specAddRoute key n a))"

text \<open>Taking away a route that is not there has no defined outcome.\<close>

definition specUnroute :: "string list \<Rightarrow> string \<Rightarrow> string \<Rightarrow> messageBroker \<Rightarrow> (error option \<times> messageBroker) option" where
  "specUnroute order key n a =
     (if key = [] then Some (Some ErrMissingRoutingKey, a)
      else if n = [] then Some (Some ErrInvalidQueueName, a)
      else if aNames a n = None then Some (Some ErrQueueDoesNotExist, a)
      else
        case aRoutes a key of
          None \<Rightarrow> Some (Some ErrMissingRoutingKey, a)
        | Some ns \<Rightarrow>
            if length (filter (\<lambda>k. n \<in> set (routeOf (aRoutes a) k)) order) = 1
            then Some (Some ErrQueueMustHaveOneRoutingKey, a)
            else if n \<in> set ns then Some (None, a\<lparr>aRoutes := (aRoutes a)(key \<mapsto> removeFirst (\<lambda>v. v = n) ns)\<rparr>)
            else None)"

definition specFetch :: "string \<Rightarrow> u32 \<Rightarrow> bytes \<Rightarrow> i64 \<Rightarrow> messageBroker \<Rightarrow> (error + Message list) \<times> messageBroker" where
  "specFetch n k c now a =
     (if n = [] then (Inl ErrInvalidQueueName, a)
      else case aNames a n of
             None \<Rightarrow> (Inl ErrQueueMissing, a)
           | Some i \<Rightarrow> (Inr (map toMessage (handedOut (aObjs a ! i) k c now)), putObj i (aqDequeue (aObjs a ! i) k c now) a))"

definition specAck :: "string \<Rightarrow> bytes \<Rightarrow> bytes \<Rightarrow> messageBroker \<Rightarrow> error option \<times> messageBroker" where
  "specAck n c i a =
     (case aNames a n of
        None \<Rightarrow> (Some ErrQueueMissing, a)
      | Some k \<Rightarrow> (fst (aqAck (aObjs a ! k) c i), putObj k (snd (aqAck (aObjs a ! k) c i)) a))"

definition specNack :: "string \<Rightarrow> bytes \<Rightarrow> bytes \<Rightarrow> messageBroker \<Rightarrow> (error option \<times> messageBroker) option" where
  "specNack n c i a =
     (case aNames a n of
        None \<Rightarrow> Some (Some ErrQueueMissing, a)
      | Some k \<Rightarrow>
          (case adl (aObjs a ! k) of
             PtrQueue d \<Rightarrow>
               do { (done, q, dl) \<leftarrow> aqNack (aObjs a ! k) (Some (aObjs a ! d)) c i;
                    Some (if done then None else Some ErrFailedEmpty, putObj k q (putObj d (the dl) a)) }
           | _ \<Rightarrow>
               do { (done, q, dl) \<leftarrow> aqNack (aObjs a ! k) None c i;
                    Some (if done then None else Some ErrFailedEmpty, putObj k q a) }))"

definition quiet :: "error option \<times> messageBroker \<Rightarrow> SyblineFSMResult \<times> messageBroker" where
  "quiet out = (\<lparr>rData = NoData, rErr = fst out\<rparr>, snd out)"

fun brokerSpec :: "brokerOp \<Rightarrow> messageBroker \<Rightarrow> (SyblineFSMResult \<times> messageBroker) option" where
  "brokerSpec (CreateOp n key sz limit dlq) a = Some (quiet (specCreate n key sz limit dlq a))"
| "brokerSpec (DropOp order n) a = Some (quiet (specDrop order n a))"
| "brokerSpec (RouteOp key n) a = Some (quiet (specRoute key n a))"
| "brokerSpec (UnrouteOp order key n) a = map_option quiet (specUnroute order key n a)"
| "brokerSpec (SubmitOp key v i) a = map_option quiet (specSubmit key v i a)"
| "brokerSpec (BatchOp ms) a = map_option (\<lambda>(errs, a'). quiet (joinErrors errs, a')) (specBatch ms a)"
| "brokerSpec (FetchOp n k c now) a =
     (case specFetch n k c now a of
        (Inl err, a') \<Rightarrow> Some (\<lparr>rData = Msgs [], rErr = Some err\<rparr>, a')
      | (Inr ms, a') \<Rightarrow> Some (\<lparr>rData = Msgs ms, rErr = None\<rparr>, a'))"
| "brokerSpec (AckOp n c i) a = Some (quiet (specAck n c i a))"
| "brokerSpec (NackOp n c i) a = map_option quiet (specNack n c i a)"

end
