(* ===== verification/BrokerRefine.thy ===== *)
theory BrokerRefine
  imports BrokerSpec
begin

text \<open>
  The broker and the queue manager implement the operations of \<open>BrokerSpec\<close>: one lemma for each operation, in
  terms of the relation \<open>represents\<close> between the pointer structures of the code and the abstract queues.
\<close>

section \<open>What a broker represents\<close>

definition objsRep :: "queueManager \<Rightarrow> messageBroker \<Rightarrow> bool" where
  "objsRep m a \<longleftrightarrow> aNames a = queues m \<and> aTTL a = managerTTL m \<and> list_all2 models (qobjs m) (aObjs a) \<and>
     (\<forall>n i. queues m n = Some i \<longrightarrow> i < length (qobjs m))"

definition represents :: "broker \<Rightarrow> messageBroker \<Rightarrow> bool" where
  "represents br a \<longleftrightarrow> aRoutes a = routing br \<and> objsRep (manager br) a"

lemma represents_new: "represents (NewBroker (NewQueueManager ttl)) (emptyBroker ttl)"
  by (simp add: represents_def objsRep_def NewBroker_def NewQueueManager_def emptyBroker_def)

lemma represents_exists:
  assumes "brokerOk br"
  shows "\<exists>a. represents br a"
proof -
  have m: "managed (manager br)" using assms by (simp add: brokerOk_def)
  then obtain q where q: "\<And>i. i < length (qobjs (manager br)) \<Longrightarrow> models (qobjs (manager br) ! i) (q i)"
    using managed_models by metis
  let ?a = "\<lparr>aNames = queues (manager br), aObjs = map q [0..<length (qobjs (manager br))],
     aTTL = managerTTL (manager br), aRoutes = routing br\<rparr>"
  have "represents br ?a"
    using q managed_range[OF m] by (auto simp: represents_def objsRep_def list_all2_conv_all_nth)
  then show ?thesis ..
qed

lemma objsRep_nth: "objsRep m a \<Longrightarrow> queues m n = Some i \<Longrightarrow> i < length (qobjs m) \<and> models (qobjs m ! i) (aObjs a ! i)"
  by (auto simp: objsRep_def list_all2_conv_all_nth)

lemma objsRep_names: "objsRep m a \<Longrightarrow> aNames a = queues m"
  by (simp add: objsRep_def)

lemma objsRep_put:
  assumes "objsRep m a" "models ll q"
  shows "objsRep (storeQ m i ll) (putObj i q a)"
  using assms by (simp add: objsRep_def putObj_def list_all2_update_cong)

lemma putObj_sel [simp]: "aRoutes (putObj i q a) = aRoutes a" "aNames (putObj i q a) = aNames a"
  by (simp_all add: putObj_def)

section \<open>The queue manager\<close>

lemma deliver_rep:
  assumes "objsRep m a"
  shows "rel_option (rel_prod (=) objsRep) (queueManager_AddMessage m n v i) (specDeliver i v a n)"
proof (cases "queues m n")
  case None
  with assms show ?thesis by (simp add: queueManager_AddMessage_def specDeliver_def objsRep_names)
next
  case (Some k)
  note k = objsRep_nth[OF assms Some]
  from k obtain ll where "Enqueue (qobjs m ! k) i v = Some ll" "models ll (aqEnqueue (aObjs a ! k) i v)"
    using Enqueue_models by blast
  with Some assms show ?thesis
    by (simp add: queueManager_AddMessage_def specDeliver_def objsRep_names objsRep_put)
qed

lemma deliverBatch_rep:
  assumes "objsRep m a"
  shows "rel_option (rel_prod (=) objsRep) (queueManager_BatchAddMessage m n vs ids) (specDeliverBatch ids vs a n)"
proof (cases "queues m n")
  case None
  with assms show ?thesis by (simp add: queueManager_BatchAddMessage_def specDeliverBatch_def objsRep_names)
next
  case (Some k)
  let ?ms = "map (\<lambda>(i, d). \<lparr>mbId = i, mbData = d\<rparr>) (zip ids vs)"
  note k = objsRep_nth[OF assms Some]
  from k obtain ll where ll: "BatchEnqueue (qobjs m ! k) ?ms = Some ll" "models ll (aqBatchEnqueue (aObjs a ! k) ?ms)"
    using BatchEnqueue_models by blast
  show ?thesis
  proof (cases "length ids < length vs")
    case True
    with Some assms show ?thesis by (simp add: queueManager_BatchAddMessage_def specDeliverBatch_def objsRep_names)
  next
    case False
    then have "map (\<lambda>i. \<lparr>mbId = ids ! i, mbData = vs ! i\<rparr>) [0..<length vs] = ?ms" by (intro nth_equalityI) auto
    with Some assms ll False show ?thesis
      by (simp add: queueManager_BatchAddMessage_def specDeliverBatch_def objsRep_names objsRep_put)
  qed
qed

lemma fanOut_rep:
  assumes "\<And>m a n. objsRep m a \<Longrightarrow> rel_option (rel_prod (=) objsRep) (add m n) (aadd a n)" "objsRep m a"
  shows "rel_option objsRep (fanOut add ns m) (fanOut aadd ns a)"
  using assms(2)
proof (induction ns arbitrary: m a)
  case (Cons n ns)
  from assms(1)[OF Cons.prems, of n] Cons.IH show ?case
    by (cases "add m n"; cases "aadd a n") auto
qed simp

lemma deliver_routes: "specDeliver i v a n = Some (err, a') \<Longrightarrow> aRoutes a' = aRoutes a"
  by (auto simp: specDeliver_def split: option.splits)

lemma deliverBatch_routes: "specDeliverBatch ids vs a n = Some (err, a') \<Longrightarrow> aRoutes a' = aRoutes a"
  by (auto simp: specDeliverBatch_def split: option.splits if_splits)

lemma fanOut_routes:
  assumes "\<And>a n err a'. aadd a n = Some (err, a') \<Longrightarrow> aRoutes a' = aRoutes a" "fanOut aadd ns a = Some a'"
  shows "aRoutes a' = aRoutes a"
  using assms(2)
proof (induction ns arbitrary: a)
  case (Cons n ns)
  then obtain err a1 where "aadd a n = Some (err, a1)" "fanOut aadd ns a1 = Some a'" by (auto simp: bind_Some_iff)
  with Cons.IH assms(1) show ?case by metis
qed simp

lemma fetch_rep:
  assumes "objsRep m a"
  shows "\<exists>m'. consumerManager_GetMessages m n k c now = Some (fst (specFetch n k c now a), m') \<and>
    objsRep m' (snd (specFetch n k c now a))"
proof (cases "n = [] \<or> queues m n = None")
  case True
  with assms show ?thesis
    by (auto simp: consumerManager_GetMessages_def queueManager_GetMessage_def specFetch_def objsRep_names)
next
  case False
  then obtain i where i: "queues m n = Some i" by blast
  note r = objsRep_nth[OF assms i]
  let ?es = "handedOut (aObjs a ! i) k c now"
  from r Dequeue_models[of "qobjs m ! i" "aObjs a ! i" k c now] obtain ll where
    d: "Dequeue (qobjs m ! i) k c now = Some (map evalue ?es, map eid ?es, ll)" "models ll (aqDequeue (aObjs a ! i) k c now)" by blast
  have "map (\<lambda>j. \<lparr>msgId = map eid ?es ! j, msgData = map evalue ?es ! j\<rparr>) [0..<length ?es] = map toMessage ?es"
    by (intro nth_equalityI) auto
  with False i d objsRep_put[OF assms d(2)] assms show ?thesis
    by (simp add: consumerManager_GetMessages_def queueManager_GetMessage_def specFetch_def objsRep_names)
qed

lemma ack_rep:
  assumes "objsRep m a"
  shows "\<exists>m'. consumerManager_Ack m n i c = Some (fst (specAck n c i a), m') \<and> objsRep m' (snd (specAck n c i a))"
proof (cases "queues m n")
  case None
  with assms show ?thesis by (simp add: consumerManager_Ack_def queueManager_Ack_def specAck_def objsRep_names)
next
  case (Some k)
  from objsRep_nth[OF assms Some] UnlockAndEmpty_models obtain ll where
    "UnlockAndEmpty (qobjs m ! k) c i = Some (fst (aqAck (aObjs a ! k) c i), ll)" "models ll (snd (aqAck (aObjs a ! k) c i))"
    by blast
  with Some assms show ?thesis
    by (simp add: consumerManager_Ack_def queueManager_Ack_def specAck_def objsRep_names objsRep_put)
qed

lemma nack_rep:
  assumes "objsRep m a" "managed m"
  shows "rel_option (rel_prod (=) objsRep) (consumerManager_Nack m n i c) (specNack n c i a)"
proof (cases "queues m n")
  case None
  with assms show ?thesis by (simp add: consumerManager_Nack_def queueManager_Nack_def specNack_def objsRep_names)
next
  case (Some k)
  note k = objsRep_nth[OF assms(1) Some]
  have dl: "adl (aObjs a ! k) = deadLetter (qobjs m ! k)" using k models_deadLetter by metis
  show ?thesis
  proof (cases "\<exists>d. deadLetter (qobjs m ! k) = PtrQueue d")
    case True
    then obtain d where d: "deadLetter (qobjs m ! k) = PtrQueue d" by blast
    have "d < length (qobjs m)" using managed_dlq[OF assms(2) _ d] k by blast
    then have "models (qobjs m ! d) (aObjs a ! d)" using assms(1) by (simp add: objsRep_def list_all2_conv_all_nth)
    then have "rel_option models (dlqObj m k) (Some (aObjs a ! d))" using d by (simp add: dlqObj_def)
    from Unlock_models[OF conjunct2[OF k] this, of c i] show ?thesis
      using Some d dl assms(1)
      by (cases "Unlock (qobjs m ! k) (dlqObj m k) c i"; cases "aqNack (aObjs a ! k) (Some (aObjs a ! d)) c i")
        (auto simp: consumerManager_Nack_def queueManager_Nack_def specNack_def objsRep_names storeDlq_def
          dest!: aqNack_settings(2) intro!: objsRep_put elim!: option.rel_cases split: option.splits)
  next
    case False
    then have d: "rel_option models (dlqObj m k) None" "\<And>dl'. storeDlq m k dl' = m"
      by (auto simp: dlqObj_def storeDlq_def split: queueRef.split)
    from Unlock_models[OF conjunct2[OF k] d(1), of c i] show ?thesis
      using Some False dl d(2) assms(1)
      by (cases "Unlock (qobjs m ! k) (dlqObj m k) c i"; cases "aqNack (aObjs a ! k) None c i")
        (auto simp: consumerManager_Nack_def queueManager_Nack_def specNack_def objsRep_names intro!: objsRep_put split: queueRef.split)
  qed
qed

section \<open>The broker\<close>

lemma represents_sel: "represents br a \<Longrightarrow> aRoutes a = routing br" "represents br a \<Longrightarrow> objsRep (manager br) a"
  by (simp_all add: represents_def)

lemma represents_manager: "aRoutes a = routing br \<Longrightarrow> objsRep m a \<Longrightarrow> represents (br\<lparr>manager := m\<rparr>) a"
  by (simp add: represents_def)

text \<open>A fan-out over the names of a route, on both sides.\<close>

lemma fanOut_broker:
  assumes "represents br a" "\<And>m a n. objsRep m a \<Longrightarrow> rel_option (rel_prod (=) objsRep) (add m n) (aadd a n)"
    and "\<And>a n err a'. aadd a n = Some (err, a') \<Longrightarrow> aRoutes a' = aRoutes a"
  shows "rel_option (rel_prod (=) represents)
    (do { m \<leftarrow> fanOut add ns (manager br); Some (None :: error option, br\<lparr>manager := m\<rparr>) })
    (do { a' \<leftarrow> fanOut aadd ns a; Some (None, a') })"
proof -
  note r = represents_sel[OF assms(1)]
  from fanOut_rep[of add aadd "manager br" a ns] assms(2) r(2)
  have f: "rel_option objsRep (fanOut add ns (manager br)) (fanOut aadd ns a)" by blast
  show ?thesis
  proof (cases "fanOut aadd ns a")
    case (Some a')
    with f obtain m where m: "fanOut add ns (manager br) = Some m" "objsRep m a'" by (auto simp: option_rel_Some2)
    have "aRoutes a' = routing br" using fanOut_routes[of aadd ns a a', OF assms(3) Some] r(1) by simp
    with Some m show ?thesis by (simp add: represents_manager)
  qed (use f in \<open>simp add: option.rel_sel\<close>)
qed

lemma submit_rep:
  assumes "represents br a" "\<And>ks. mset (s ks) = mset ks"
  shows "rel_option (rel_prod (=) represents) (broker_AddMessage s br key v i) (specSubmit key v i a)"
proof -
  have s: "broker_AddMessage s br key v i = broker_AddMessage id br key v i"
    by (rule AddMessage_schedule) (simp add: assms(2))
  have "rel_option (rel_prod (=) represents)
      (do { m \<leftarrow> fanOut (\<lambda>m n. queueManager_AddMessage m n v i) ns (manager br); Some (None :: error option, br\<lparr>manager := m\<rparr>) })
      (do { a' \<leftarrow> fanOut (specDeliver i v) ns a; Some (None, a') })" for ns
    by (rule fanOut_broker[OF assms(1)]) (erule deliver_rep deliver_routes)+
  with represents_sel(1)[OF assms(1)] assms(1) show ?thesis unfolding s unfolding broker_AddMessage_def specSubmit_def
    by (simp split: option.split)
qed

lemma batchAdd_errs:
  "batchAdd e br errs ms = map_option (\<lambda>(es, br'). (errs @ es, br')) (batchAdd e br [] ms)"
proof (induction ms arbitrary: br errs)
  case (Cons m ms)
  show ?case
  proof (cases "broker_BatchAddMessage (eSched e) br (msRK m) (msData m) (msIds m)")
    case (Some p)
    obtain err br' where p: "p = (err, br')" by (cases p)
    show ?thesis
      using Some Cons.IH[of br' "case err of None \<Rightarrow> errs | Some x \<Rightarrow> errs @ [x]"]
        Cons.IH[of br' "case err of None \<Rightarrow> [] | Some x \<Rightarrow> [x]"]
      by (cases err) (simp_all add: p option.map_comp comp_def split_beta)
  qed simp
qed simp

lemma batch_rep:
  assumes "represents br a" "\<And>ks. mset (eSched e ks) = mset ks"
  shows "rel_option (rel_prod (=) represents) (batchAdd e br [] ms) (specBatch ms a)"
  using assms(1)
proof (induction ms arbitrary: br a)
  case (Cons m ms)
  have s: "broker_BatchAddMessage (eSched e) br (msRK m) (msData m) (msIds m) = broker_BatchAddMessage id br (msRK m) (msData m) (msIds m)"
    by (rule BatchAddMessage_schedule) (simp add: assms(2))
  let ?head = "if [] \<in> set (msData m) then Some (Some ErrEmptyData, a)
      else case aRoutes a (msRK m) of
             None \<Rightarrow> Some (Some ErrRoutingKeyDoesNotExist, a)
           | Some ns \<Rightarrow> do { a' \<leftarrow> fanOut (specDeliverBatch (msIds m) (msData m)) ns a; Some (None, a') }"
  have h: "rel_option (rel_prod (=) represents) (broker_BatchAddMessage (eSched e) br (msRK m) (msData m) (msIds m)) ?head"
  proof -
    have "rel_option (rel_prod (=) represents)
        (do { m' \<leftarrow> fanOut (\<lambda>m' n. queueManager_BatchAddMessage m' n (msData m) (msIds m)) ns (manager br); Some (None :: error option, br\<lparr>manager := m'\<rparr>) })
        (do { a' \<leftarrow> fanOut (specDeliverBatch (msIds m) (msData m)) ns a; Some (None, a') })" for ns
      by (rule fanOut_broker[OF Cons.prems]) (erule deliverBatch_rep deliverBatch_routes)+
    with represents_sel(1)[OF Cons.prems] Cons.prems show ?thesis unfolding s unfolding broker_BatchAddMessage_def
      by (auto simp: list_ex_iff split: option.split)
  qed
  show ?case
  proof (cases ?head)
    case None
    with h show ?thesis by (simp add: option.rel_sel)
  next
    case (Some p)
    then obtain err a' where p: "?head = Some (err, a')" by (cases p) auto
    with h obtain br' where br': "broker_BatchAddMessage (eSched e) br (msRK m) (msData m) (msIds m) = Some (err, br')" "represents br' a'"
      by (auto simp: option_rel_Some2)
    have "rel_option (rel_prod (=) represents) (batchAdd e br' (case err of None \<Rightarrow> [] | Some x \<Rightarrow> [x]) ms)
        (do { (errs, a'') \<leftarrow> specBatch ms a'; Some ((case err of None \<Rightarrow> [] | Some x \<Rightarrow> [x]) @ errs, a'') })"
      using Cons.IH[OF br'(2)] unfolding batchAdd_errs[of e br' "case err of None \<Rightarrow> [] | Some x \<Rightarrow> [x]"]
      by (cases "specBatch ms a'"; cases "batchAdd e br' [] ms") auto
    with p br'(1) show ?thesis by (cases err) simp_all
  qed
qed simp

lemma addRoute_rep: "represents br a \<Longrightarrow> represents (addRoute br key n) (specAddRoute key n a)"
  by (auto simp: represents_def addRoute_def specAddRoute_def routeOf_def objsRep_def split: option.split)

lemma create_rep:
  assumes "represents br a"
  shows "fst (broker_CreateQueue br n key sz limit dlq) = fst (specCreate n key sz limit dlq a)"
    "represents (snd (broker_CreateQueue br n key sz limit dlq)) (snd (specCreate n key sz limit dlq a))"
proof -
  note r = represents_sel[OF assms] and o = represents_sel(2)[OF assms, unfolded objsRep_def]
  have l: "length (aObjs a) = length (qobjs (manager br))" using o list_all2_lengthD by metis
  consider (bad) "key = [] \<or> n = [] \<or> sz = 0 \<or> aNames a n \<noteq> None" | (good) "key \<noteq> []" "n \<noteq> []" "sz \<noteq> 0" "aNames a n = None"
    by blast
  then have "fst (broker_CreateQueue br n key sz limit dlq) = fst (specCreate n key sz limit dlq a) \<and>
    represents (snd (broker_CreateQueue br n key sz limit dlq)) (snd (specCreate n key sz limit dlq a))"
  proof cases
    case bad
    with assms o show ?thesis
      by (auto simp: broker_CreateQueue_def specCreate_def queueManager_CreateQueue_def Let_def)
  next
    case good
    let ?m = "snd (queueManager_CreateQueue (manager br) n sz limit dlq)"
    let ?a = "if dlq then a\<lparr>aObjs := aObjs a @ [newAq sz limit (aTTL a) NilPtr, newAq sz limit (aTTL a) (PtrQueue (length (aObjs a)))],
          aNames := (aNames a)(n @ ''-dlq'' \<mapsto> length (aObjs a), n \<mapsto> Suc (length (aObjs a)))\<rparr>
        else a\<lparr>aObjs := aObjs a @ [newAq sz limit (aTTL a) PtrNil], aNames := (aNames a)(n \<mapsto> length (aObjs a))\<rparr>"
    have "fst (queueManager_CreateQueue (manager br) n sz limit dlq) = None"
      using good o by (simp add: queueManager_CreateQueue_def Let_def)
    then have c: "queueManager_CreateQueue (manager br) n sz limit dlq = (None, ?m)" by (metis prod.collapse)
    have "objsRep ?m ?a"
      using good o l by (auto simp: queueManager_CreateQueue_def objsRep_def NewQueue_models intro!: list_all2_appendI intro: less_SucI split: if_splits)
    then have "represents (br\<lparr>manager := ?m\<rparr>) ?a" using r(1) by (simp add: represents_manager)
    note rep = addRoute_rep[OF this, of key n]
    have "broker_CreateQueue br n key sz limit dlq = (None, addRoute (br\<lparr>manager := ?m\<rparr>) key n)"
      unfolding broker_CreateQueue_def using good(1) by (subst c) simp
    moreover have "specCreate n key sz limit dlq a = (None, specAddRoute key n ?a)" using good by (simp add: specCreate_def Let_def)
    ultimately show ?thesis using rep by simp
  qed
  then show "fst (broker_CreateQueue br n key sz limit dlq) = fst (specCreate n key sz limit dlq a)"
    "represents (snd (broker_CreateQueue br n key sz limit dlq)) (snd (specCreate n key sz limit dlq a))" by simp_all
qed

lemma drop_rep:
  assumes "represents br a"
  shows "fst (broker_DeleteQueue order br n) = fst (specDrop order n a)"
    "represents (snd (broker_DeleteQueue order br n)) (snd (specDrop order n a))"
proof -
  note r = represents_sel[OF assms] and o = represents_sel(2)[OF assms, unfolded objsRep_def]
  have "fst (broker_DeleteQueue_loop order br n) = fst (specDrop order n a) \<and>
      represents (snd (broker_DeleteQueue_loop order br n)) (snd (specDrop order n a))"
  proof (induction order)
    case (Cons k order)
    show ?case
    proof (cases "n \<in> set (routeOf (routing br) k)")
      case True
      then obtain ks where "routing br k = Some ks" "n \<in> set ks" by (cases "routing br k") (auto simp: routeOf_def)
      with o r(1) assms show ?thesis
        by (auto simp: specDrop_def routeOf_def cutAt_indexFunc queueManager_Delete_def represents_def objsRep_def)
    next
      case False
      then have "broker_DeleteQueue_loop (k # order) br n = broker_DeleteQueue_loop order br n"
        by (auto simp: cutAt_indexFunc routeOf_def split: option.splits)
      with False r(1) Cons show ?thesis by (simp add: specDrop_def)
    qed
  qed (use assms in \<open>simp add: specDrop_def\<close>)
  then show "fst (broker_DeleteQueue order br n) = fst (specDrop order n a)"
    "represents (snd (broker_DeleteQueue order br n)) (snd (specDrop order n a))" by (simp_all add: broker_DeleteQueue_def)
qed

lemma route_rep:
  assumes "represents br a"
  shows "fst (broker_AddRouteKey br key n) = fst (specRoute key n a)"
    "represents (snd (broker_AddRouteKey br key n)) (snd (specRoute key n a))"
  using assms addRoute_rep[OF assms] objsRep_names[OF represents_sel(2)[OF assms]]
  by (auto simp: broker_AddRouteKey_def specRoute_def queueManager_Exists_def)

lemma unroute_rep:
  assumes "represents br a"
  shows "rel_option (rel_prod (=) represents) (broker_DeleteRoutingKey order br key n) (specUnroute order key n a)"
proof -
  note r = represents_sel[OF assms]
  have "represents (br\<lparr>routing := f\<rparr>) (a\<lparr>aRoutes := f\<rparr>)" for f using r(2) by (simp add: represents_def objsRep_def)
  moreover have "min 2 (length xs) = 1 \<longleftrightarrow> length xs = 1" for xs :: "string list" by (simp add: min_def)
  ultimately show ?thesis
    using assms r(1) objsRep_names[OF r(2)]
    by (auto simp: broker_DeleteRoutingKey_def specUnroute_def queueManager_Exists_def countRoutes_min cutAt_indexFunc Let_def
        split: option.split)
qed

end
