(* ===== verification/FsmRefine.thy ===== *)
theory FsmRefine
  imports BrokerRefine
begin

text \<open>
  The state machine implements the specification of the broker: an authorised message command does what the
  specification says, with the same result, and every other command leaves the broker alone. These are the
  assumptions of the locale \<open>forward_simulation\<close>, which is interpreted on the state machine.
\<close>

section \<open>The state machine\<close>

text \<open>The visible operation of a command: it is authorised, and its payload can be decoded.\<close>

definition whenDecoded :: "error + 'p \<Rightarrow> ('p \<Rightarrow> brokerOp) \<Rightarrow> brokerOp option" where
  "whenDecoded dec f = (case dec of Inl err \<Rightarrow> None | Inr p \<Rightarrow> Some (f p))"

definition brokerLabel :: "codec \<Rightarrow> env \<times> CommandPayload \<Rightarrow> syblineFSM \<Rightarrow> brokerOp option" where
  "brokerLabel cd c b =
     (let e = fst c; p = snd c; d = cpData p; op = cpOp p; order = eOrder e (routing (fBroker b)) in
      if \<not> authorised cd (fRoles b) p then None
      else if op = CREATE_QUEUE then whenDecoded (decQueueInfo cd d)
        (\<lambda>q. CreateOp (qiName q) (qiRoutingKey q) (qiSize q) (qiRetryLimit q) (qiHasDLQueue q))
      else if op = DELETE_QUEUE then whenDecoded (decDeleteQueue cd d) (\<lambda>q. DropOp order (dqQueueName q))
      else if op = ADD_ROUTING_KEY then whenDecoded (decAddRoute cd d) (\<lambda>r. RouteOp (arRouteName r) (arQueueName r))
      else if op = DELETE_ROUTING_KEY then whenDecoded (decDeleteRoute cd d) (\<lambda>r. UnrouteOp order (dlRouteName r) (dlQueueName r))
      else if op = SUBMIT_MESSAGE then whenDecoded (decMessageInfo cd d) (\<lambda>m. SubmitOp (miRk m) (miData m) (miId m))
      else if op = SUBMIT_BATCH_MESSAGE then whenDecoded (decBatchMessages cd d) BatchOp
      else if op = GET_MESSAGES then whenDecoded (decRequest cd d)
        (\<lambda>r. FetchOp (rmQueueName r) (rmAmount r) (rmConsumerID r) (rmTime r))
      else if op = ACK then whenDecoded (decAckUpdate cd d) (\<lambda>u. AckOp (auQueueName u) (auConsumerID u) (auId u))
      else if op = NACK then whenDecoded (decAckUpdate cd d) (\<lambda>u. NackOp (auQueueName u) (auConsumerID u) (auId u))
      else None)"

definition commandStep :: "codec \<Rightarrow> env \<times> CommandPayload \<Rightarrow> syblineFSM \<Rightarrow> outcome" where
  "commandStep cd c b = dispatch cd (fst c) b (snd c)"

text \<open>Goroutines run in some order of the calls, and the batch acknowledgements are left out.\<close>

definition plainCommand :: "env \<times> CommandPayload \<Rightarrow> bool" where
  "plainCommand c \<longleftrightarrow> (\<forall>ks. mset (eSched (fst c) ks) = mset ks) \<and> cpOp (snd c) \<noteq> BATCH_ACK \<and> cpOp (snd c) \<noteq> BATCH_NACK"

abbreviation fsmRep :: "syblineFSM \<Rightarrow> messageBroker \<Rightarrow> bool" where
  "fsmRep b a \<equiv> represents (fBroker b) a"

lemmas authorised_defs = authorised_def adminTable_def actionTable_def entities_def

lemma finished_rep:
  assumes "rel_option (rel_prod (=) represents) out aout"
  shows "rel_option (rel_prod (=) fsmRep) (do { (err, br) \<leftarrow> out; finished (b\<lparr>fBroker := br\<rparr>) err }) (map_option quiet aout)"
  using assms by (cases out; cases aout) (auto simp: finished_def quiet_def)

lemma finished_manager_rep:
  assumes "rel_option (rel_prod (=) objsRep) out aout" "\<And>err a'. aout = Some (err, a') \<Longrightarrow> aRoutes a' = routing (fBroker b)"
  shows "rel_option (rel_prod (=) fsmRep) (do { (err, m) \<leftarrow> out; finished (setQm b m) err }) (map_option quiet aout)"
  using assms by (cases out; cases aout) (auto simp: finished_def quiet_def setQm_def represents_def)

lemma finished_pair_rep:
  assumes "fst out = fst aout" "represents (snd out) (snd aout)"
  shows "rel_option (rel_prod (=) fsmRep) (case out of (err, br) \<Rightarrow> finished (b\<lparr>fBroker := br\<rparr>) err) (Some (quiet aout))"
  using assms by (auto simp: finished_def quiet_def split: prod.split)

lemma specNack_routes: "specNack n c i a = Some (err, a') \<Longrightarrow> aRoutes a' = aRoutes a"
  by (auto simp: specNack_def bind_Some_iff split: option.splits queueRef.splits)

lemma specAck_routes: "aRoutes (snd (specAck n c i a)) = aRoutes a"
  by (simp add: specAck_def split: option.split)

lemma specFetch_routes: "aRoutes (snd (specFetch n k c now a)) = aRoutes a"
  by (simp add: specFetch_def split: option.split)

text \<open>One lemma for each visible operation.\<close>

lemma visible_queues:
  assumes "fsmRep b a" "authorised cd (fRoles b) p"
  shows "cpOp p = CREATE_QUEUE \<Longrightarrow> decQueueInfo cd (cpData p) = Inr q \<Longrightarrow>
      rel_option (rel_prod (=) fsmRep) (dispatch cd e b p)
        (brokerSpec (CreateOp (qiName q) (qiRoutingKey q) (qiSize q) (qiRetryLimit q) (qiHasDLQueue q)) a)"
    "cpOp p = DELETE_QUEUE \<Longrightarrow> decDeleteQueue cd (cpData p) = Inr dq \<Longrightarrow>
      rel_option (rel_prod (=) fsmRep) (dispatch cd e b p) (brokerSpec (DropOp (eOrder e (routing (fBroker b))) (dqQueueName dq)) a)"
  using assms(2) finished_pair_rep[where b = b, OF create_rep[OF assms(1)]] finished_pair_rep[where b = b, OF drop_rep[OF assms(1)]]
  by (simp_all add: dispatch_def apply_CREATE_QUEUE_def apply_DELETE_QUEUE_def checked_def authorised_defs)

lemma visible_routes:
  assumes "fsmRep b a" "authorised cd (fRoles b) p"
  shows "cpOp p = ADD_ROUTING_KEY \<Longrightarrow> decAddRoute cd (cpData p) = Inr ar \<Longrightarrow>
      rel_option (rel_prod (=) fsmRep) (dispatch cd e b p) (brokerSpec (RouteOp (arRouteName ar) (arQueueName ar)) a)"
    "cpOp p = DELETE_ROUTING_KEY \<Longrightarrow> decDeleteRoute cd (cpData p) = Inr dr \<Longrightarrow>
      rel_option (rel_prod (=) fsmRep) (dispatch cd e b p)
        (brokerSpec (UnrouteOp (eOrder e (routing (fBroker b))) (dlRouteName dr) (dlQueueName dr)) a)"
  using assms(2) finished_pair_rep[where b = b, OF route_rep[OF assms(1)]] finished_rep[where b = b, OF unroute_rep[OF assms(1)]]
  by (simp_all add: dispatch_def apply_ADD_ROUTING_KEY_def apply_DELETE_ROUTING_KEY_def checked_def authorised_defs)

lemma visible_messages:
  assumes "fsmRep b a" "authorised cd (fRoles b) p" "\<And>ks. mset (eSched e ks) = mset ks"
  shows "cpOp p = SUBMIT_MESSAGE \<Longrightarrow> decMessageInfo cd (cpData p) = Inr mi \<Longrightarrow>
      rel_option (rel_prod (=) fsmRep) (dispatch cd e b p) (brokerSpec (SubmitOp (miRk mi) (miData mi) (miId mi)) a)"
    "cpOp p = SUBMIT_BATCH_MESSAGE \<Longrightarrow> decBatchMessages cd (cpData p) = Inr ms \<Longrightarrow>
      rel_option (rel_prod (=) fsmRep) (dispatch cd e b p) (brokerSpec (BatchOp ms) a)"
proof -
  show "rel_option (rel_prod (=) fsmRep) (dispatch cd e b p) (brokerSpec (SubmitOp (miRk mi) (miData mi) (miId mi)) a)"
    if "cpOp p = SUBMIT_MESSAGE" "decMessageInfo cd (cpData p) = Inr mi"
    using that assms(2) finished_rep[where b = b, OF submit_rep[where s = "eSched e", OF assms(1,3)]]
    by (simp add: dispatch_def apply_SUBMIT_MESSAGE_def checked_def authorised_defs)
  assume op: "cpOp p = SUBMIT_BATCH_MESSAGE" "decBatchMessages cd (cpData p) = Inr ms"
  then have "batchPermission (fRoles b) (cpUsername p) ms = None"
    using assms(2) by (auto simp: batchPermission_None authorised_defs list_all_iff)
  with op have d: "dispatch cd e b p =
      do { (errs, br) \<leftarrow> batchAdd e (fBroker b) [] ms; finished (b\<lparr>fBroker := br\<rparr>) (joinErrors errs) }"
    by (simp add: dispatch_def apply_SUBMIT_BATCH_MESSAGE_def)
  from batch_rep[where e = e and ms = ms, OF assms(1,3)] show "rel_option (rel_prod (=) fsmRep) (dispatch cd e b p) (brokerSpec (BatchOp ms) a)"
    unfolding d by (cases "batchAdd e (fBroker b) [] ms"; cases "specBatch ms a") (auto simp: finished_def quiet_def)
qed

lemma visible_consumers:
  assumes "fsmOk b" "fsmRep b a" "authorised cd (fRoles b) p"
  shows "cpOp p = GET_MESSAGES \<Longrightarrow> decRequest cd (cpData p) = Inr rm \<Longrightarrow>
      rel_option (rel_prod (=) fsmRep) (dispatch cd e b p)
        (brokerSpec (FetchOp (rmQueueName rm) (rmAmount rm) (rmConsumerID rm) (rmTime rm)) a)"
    "cpOp p = ACK \<Longrightarrow> decAckUpdate cd (cpData p) = Inr au \<Longrightarrow>
      rel_option (rel_prod (=) fsmRep) (dispatch cd e b p) (brokerSpec (AckOp (auQueueName au) (auConsumerID au) (auId au)) a)"
    "cpOp p = NACK \<Longrightarrow> decAckUpdate cd (cpData p) = Inr au \<Longrightarrow>
      rel_option (rel_prod (=) fsmRep) (dispatch cd e b p) (brokerSpec (NackOp (auQueueName au) (auConsumerID au) (auId au)) a)"
proof -
  note r = represents_sel[OF assms(2)]
  have man: "managed (qm b)" using assms(1) by (simp add: fsmOk_def brokerOk_def)
  show "rel_option (rel_prod (=) fsmRep) (dispatch cd e b p)
      (brokerSpec (FetchOp (rmQueueName rm) (rmAmount rm) (rmConsumerID rm) (rmTime rm)) a)"
    if "cpOp p = GET_MESSAGES" "decRequest cd (cpData p) = Inr rm"
  proof -
    let ?s = "specFetch (rmQueueName rm) (rmAmount rm) (rmConsumerID rm) (rmTime rm) a"
    from fetch_rep[OF r(2)] obtain m where
      m: "consumerManager_GetMessages (qm b) (rmQueueName rm) (rmAmount rm) (rmConsumerID rm) (rmTime rm) = Some (fst ?s, m)" "objsRep m (snd ?s)" by blast
    have "represents (fBroker (setQm b m)) (snd ?s)" using m(2) r(1) by (simp add: setQm_def represents_def specFetch_routes)
    with m(1) show ?thesis unfolding dispatch_GET[OF that assms(3)]
      by (cases ?s) (auto split: sum.split)
  qed
  show "rel_option (rel_prod (=) fsmRep) (dispatch cd e b p) (brokerSpec (AckOp (auQueueName au) (auConsumerID au) (auId au)) a)"
    if "cpOp p = ACK" "decAckUpdate cd (cpData p) = Inr au"
  proof -
    let ?s = "specAck (auQueueName au) (auConsumerID au) (auId au) a"
    from ack_rep[OF r(2)] obtain m where
      m: "consumerManager_Ack (qm b) (auQueueName au) (auId au) (auConsumerID au) = Some (fst ?s, m)" "objsRep m (snd ?s)" by blast
    have "represents (fBroker (setQm b m)) (snd ?s)" using m(2) r(1) by (simp add: setQm_def represents_def specAck_routes)
    with m(1) show ?thesis unfolding dispatch_ACK[OF that assms(3)] by (simp add: finished_def quiet_def)
  qed
  assume op: "cpOp p = NACK" "decAckUpdate cd (cpData p) = Inr au"
  with assms(3) have d: "dispatch cd e b p =
      do { (err, m) \<leftarrow> consumerManager_Nack (qm b) (auQueueName au) (auId au) (auConsumerID au); finished (setQm b m) err }"
    by (simp add: dispatch_def apply_NACK_def checked_def authorised_defs)
  show "rel_option (rel_prod (=) fsmRep) (dispatch cd e b p) (brokerSpec (NackOp (auQueueName au) (auConsumerID au) (auId au)) a)"
    unfolding d using finished_manager_rep[OF nack_rep[OF r(2) man]] specNack_routes r(1) by simp
qed

lemma visible_command:
  assumes "fsmOk b" "plainCommand c" "fsmRep b a" "brokerLabel cd c b = Some x"
  shows "rel_option (rel_prod (=) fsmRep) (commandStep cd c b) (brokerSpec x a)"
proof -
  have sched: "mset (eSched (fst c) ks) = mset ks" for ks using assms(2) by (simp add: plainCommand_def)
  have auth: "authorised cd (fRoles b) (snd c)" using assms(4) by (simp add: brokerLabel_def Let_def split: if_splits)
  note v = visible_queues[OF assms(3) auth] visible_routes[OF assms(3) auth] visible_messages[OF assms(3) auth sched]
    visible_consumers[OF assms(1,3) auth]
  from assms(4) auth show ?thesis unfolding commandStep_def brokerLabel_def Let_def whenDecoded_def
    by (auto split: if_splits sum.splits simp del: brokerSpec.simps intro: v)
qed

text \<open>All other commands return and leave the broker alone.\<close>

definition brokerKept :: "syblineFSM \<Rightarrow> outcome \<Rightarrow> bool" where
  "brokerKept b out \<longleftrightarrow> (\<exists>r b'. out = Some (r, b') \<and> fBroker b' = fBroker b)"

lemma brokerKept_simps [simp]:
  "brokerKept b (failed b err)" "brokerKept b (Some (r, b')) \<longleftrightarrow> fBroker b' = fBroker b"
  "brokerKept b (finished b' e) \<longleftrightarrow> fBroker b' = fBroker b"
  by (simp_all add: brokerKept_def failed_def finished_def)

lemma brokerKept_checked: "(\<And>p. brokerKept b (k p)) \<Longrightarrow> brokerKept b (checked b dec perm k)"
  by (rule checked_cases[of b dec perm k]) simp_all

lemma brokerKept_accounts:
  "brokerKept b (apply_CREATE_ACCOUNT cd e b p)" "brokerKept b (apply_CHANGE_PASSWORD cd e b p)"
  "brokerKept b (apply_DELETE_USER cd b p)" "brokerKept b (apply_CREATE_ROLE cd b p)"
  "brokerKept b (apply_ASSIGN_ROLE cd b p)" "brokerKept b (apply_UNASSIGN_ROLE cd b p)"
  unfolding apply_defs by (rule brokerKept_checked; simp split: prod.split sum.split)+

lemma brokerKept_undecoded:
  assumes "authorised cd (fRoles b) (snd c)" "brokerLabel cd c b = None"
  shows "cpOp (snd c) = CREATE_QUEUE \<Longrightarrow> brokerKept b (apply_CREATE_QUEUE cd b (snd c))"
    "cpOp (snd c) = DELETE_QUEUE \<Longrightarrow> brokerKept b (apply_DELETE_QUEUE cd e b (snd c))"
    "cpOp (snd c) = ADD_ROUTING_KEY \<Longrightarrow> brokerKept b (apply_ADD_ROUTING_KEY cd b (snd c))"
    "cpOp (snd c) = DELETE_ROUTING_KEY \<Longrightarrow> brokerKept b (apply_DELETE_ROUTING_KEY cd e b (snd c))"
    "cpOp (snd c) = SUBMIT_MESSAGE \<Longrightarrow> brokerKept b (apply_SUBMIT_MESSAGE cd e b (snd c))"
    "cpOp (snd c) = SUBMIT_BATCH_MESSAGE \<Longrightarrow> brokerKept b (apply_SUBMIT_BATCH_MESSAGE cd e b (snd c))"
    "cpOp (snd c) = GET_MESSAGES \<Longrightarrow> brokerKept b (apply_GET_MESSAGES cd b (snd c))"
    "cpOp (snd c) = ACK \<Longrightarrow> brokerKept b (apply_ACK cd b (snd c))"
    "cpOp (snd c) = NACK \<Longrightarrow> brokerKept b (apply_NACK cd b (snd c))"
  using assms by (auto simp: brokerLabel_def Let_def whenDecoded_def apply_defs checked_def split: sum.splits)

lemma hidden_command:
  assumes "plainCommand c" "fsmRep b a" "brokerLabel cd c b = None"
  shows "\<exists>r b'. commandStep cd c b = Some (r, b') \<and> fsmRep b' a"
proof -
  have "brokerKept b (dispatch cd (fst c) b (snd c))"
  proof (cases "authorised cd (fRoles b) (snd c)")
    case False
    from dispatch_unauthorised[OF this, of "fst c"] show ?thesis by (auto simp: rejected_def)
  next
    case True
    from assms(1) brokerKept_undecoded[OF True assms(3)] brokerKept_accounts show ?thesis
      unfolding dispatch_def Let_def plainCommand_def by simp
  qed
  with assms(2) show ?thesis by (auto simp: brokerKept_def commandStep_def)
qed

lemma commandStep_ok:
  assumes "fsmOk b" "plainCommand c" "commandStep cd c b = Some (r, b')"
  shows "fsmOk b'"
  using dispatch_fsmOk[OF assms(1)] assms(2,3) by (auto simp: plainCommand_def commandStep_def dest: keepsD)

interpretation fsm_broker: forward_simulation fsmOk fsmRep plainCommand "commandStep cd" "brokerLabel cd" brokerSpec for cd
  by unfold_locales (blast intro: commandStep_ok hidden_command visible_command)+

end
