(* ===== verification/RefineProperties.thy ===== *)
theory RefineProperties
  imports FsmRefine FsmProperties
begin

text \<open>
  The property that ties the layers together: along every run of commands the state machine does what the
  specification of the broker does.
\<close>

text \<open>
  C1: The state machine refines the broker specification. Take any commands but batch acknowledgements, in
  any order of goroutines. When the run ends, the operations of the authorised message commands, in their
  order, are a run of the specification with the same results, and the final state of the program represents
  the final state of the specification; all other commands leave no trace. When the run panics, it does so at
  a command for which the specification gives no outcome.
\<close>

theorem state_machine_refines_broker:
  assumes "fsmOk b" "represents (fBroker b) a" "\<forall>c\<in>set cs. plainCommand c"
  shows "case tracedRun (commandStep cd) (brokerLabel cd) cs b of
      Some (tr, b') \<Rightarrow> \<exists>a'. specRun brokerSpec (map fst tr) a = Some (map snd tr, a') \<and> represents (fBroker b') a' \<and> fsmOk b'
    | None \<Rightarrow> \<exists>cs1 c cs2 tr b1 a1 x. cs = cs1 @ c # cs2 \<and>
        tracedRun (commandStep cd) (brokerLabel cd) cs1 b = Some (tr, b1) \<and>
        specRun brokerSpec (map fst tr) a = Some (map snd tr, a1) \<and> brokerLabel cd c b1 = Some x \<and> brokerSpec x a1 = None"
proof (cases "tracedRun (commandStep cd) (brokerLabel cd) cs b")
  case None
  with fsm_broker.panic_specified[OF None assms] show ?thesis by simp
next
  case (Some out)
  obtain tr b' where "out = (tr, b')" by (cases out)
  with fsm_broker.run_simulated[of cd cs b tr b' a] Some assms show ?thesis by simp
qed

text \<open>Witness for C1: one user creates a queue, and another one without the permission tries to.\<close>

theorem state_machine_refines_broker_witness:
  "\<exists>b' a'. tracedRun (commandStep demoCodec) (brokerLabel demoCodec)
       [(demoEnv True, \<lparr>cpUsername = ''root'', cpOp = CREATE_QUEUE, cpData = []\<rparr>),
        (demoEnv True, \<lparr>cpUsername = ''eve'', cpOp = DELETE_QUEUE, cpData = []\<rparr>)] demoFsm =
       Some ([(CreateOp ''q'' ''k'' 5 3 True, \<lparr>rData = NoData, rErr = None\<rparr>)], b') \<and>
     specRun brokerSpec [CreateOp ''q'' ''k'' 5 3 True] (emptyBroker 100) = Some ([\<lparr>rData = NoData, rErr = None\<rparr>], a') \<and>
     represents (fBroker b') a'"
proof -
  let ?c1 = "(demoEnv True, \<lparr>cpUsername = ''root'', cpOp = CREATE_QUEUE, cpData = []\<rparr> :: CommandPayload)"
    and ?c2 = "(demoEnv True, \<lparr>cpUsername = ''eve'', cpOp = DELETE_QUEUE, cpData = []\<rparr> :: CommandPayload)"
  from demo_create[of "demoEnv True"] obtain b1 where
    b1: "commandStep demoCodec ?c1 demoFsm = Some (\<lparr>rData = NoData, rErr = None\<rparr>, b1)" by (auto simp: commandStep_def)
  have "authorised demoCodec (fRoles demoFsm) (snd ?c1)"
    by (simp add: authorised_defs demoFsm_def demo_admin)
  then have l1: "brokerLabel demoCodec ?c1 demoFsm = Some (CreateOp ''q'' ''k'' 5 3 True)"
    by (simp add: brokerLabel_def whenDecoded_def demoCodec_def Let_def)
  have dec: "decDeleteQueue demoCodec d = Inl MissingAction" for d by (simp add: demoCodec_def)
  have l2: "brokerLabel demoCodec ?c2 b1 = None" by (simp add: brokerLabel_def whenDecoded_def dec Let_def)
  have s2: "commandStep demoCodec ?c2 b1 = Some (\<lparr>rData = NoData, rErr = Some MissingAction\<rparr>, b1)"
    by (simp add: commandStep_def dispatch_def apply_DELETE_QUEUE_def checked_def dec failed_def)
  have run: "tracedRun (commandStep demoCodec) (brokerLabel demoCodec) [?c1, ?c2] demoFsm =
      Some ([(CreateOp ''q'' ''k'' 5 3 True, \<lparr>rData = NoData, rErr = None\<rparr>)], b1)"
    using b1 l1 l2 s2 by simp
  have "\<forall>c\<in>set [?c1, ?c2]. plainCommand c" using demoEnv_ok[of True] by (simp add: plainCommand_def envOk_def)
  moreover have "represents (fBroker demoFsm) (emptyBroker 100)" by (simp add: demoFsm_def represents_new)
  ultimately show ?thesis
    using state_machine_refines_broker[OF demoFsm_ok, of "emptyBroker 100" "[?c1, ?c2]" demoCodec] run by auto
qed

end
