(* ===== verification/FsmPayload.thy ===== *)
theory FsmPayload
  imports FsmRuns
begin

text \<open>
  The payloads that the state machine reuses (\<open>pkg/fsm/syblineFSM.go\<close>, \<open>commandPayload\<close> and \<open>batchMessage\<close>).
  Every command is decoded into the same object, which is reset when the command is done; msgpack leaves a
  field alone that the bytes do not have. (An encoded nil is left out.) Here the decoders take the object that they decode into, and the
  objects are part of the state; \<open>Fsm\<close>, where every command is decoded on its own, is shown to be the same.
\<close>

record payloads =
  commandPayload :: CommandPayload
  batchMessage :: "Messages list"

record decodeInto =
  intoCommand :: "CommandPayload \<Rightarrow> bytes \<Rightarrow> error option \<times> CommandPayload"
  intoBatch :: "Messages list \<Rightarrow> bytes \<Rightarrow> error option \<times> Messages list"

definition CommandPayload_Reset :: "CommandPayload \<Rightarrow> CommandPayload" where
  "CommandPayload_Reset c = c\<lparr>cpOp := 0, cpData := [], cpUsername := []\<rparr>"

definition BatchMessages_Reset :: "Messages list \<Rightarrow> Messages list" where
  "BatchMessages_Reset b = []"

definition freshPayloads :: payloads where
  "freshPayloads = \<lparr>commandPayload = \<lparr>cpUsername = [], cpOp = 0, cpData = []\<rparr>, batchMessage = []\<rparr>"

text \<open>What a decoder gives, as a result.\<close>

definition decoded :: "error option \<times> 'a \<Rightarrow> error + 'a" where
  "decoded r = (case r of (Some err, x) \<Rightarrow> Inl err | (None, x) \<Rightarrow> Inr x)"

definition applySingle_shared ::
    "decodeInto \<Rightarrow> codec \<Rightarrow> env \<Rightarrow> syblineFSM \<Rightarrow> payloads \<Rightarrow> bytes \<Rightarrow> outcome \<times> payloads" where
  "applySingle_shared un cd e b s data =
     (let r = intoCommand un (commandPayload s) data;
          s1 = s\<lparr>commandPayload := CommandPayload_Reset (snd r)\<rparr> in
      case decoded r of
        Inl err \<Rightarrow> (failed b err, s1)
      | Inr payload \<Rightarrow>
          if cpOp payload = SUBMIT_BATCH_MESSAGE then
            let r' = intoBatch un (batchMessage s) (cpData payload) in
            (dispatch (cd\<lparr>decBatchMessages := \<lambda>_. decoded r'\<rparr>) e b payload, s1\<lparr>batchMessage := BatchMessages_Reset (snd r')\<rparr>)
          else (dispatch cd e b payload, s1))"

fun Apply_loop_shared ::
    "decodeInto \<Rightarrow> codec \<Rightarrow> (nat \<Rightarrow> env) \<Rightarrow> nat \<Rightarrow> syblineFSM \<Rightarrow> payloads \<Rightarrow> SyblineFSMResult list \<Rightarrow> bytes list \<Rightarrow>
     (SyblineFSMResult list \<times> syblineFSM \<times> payloads) option" where
  "Apply_loop_shared un cd es i b s results [] = Some (results, b, s)"
| "Apply_loop_shared un cd es i b s results (d # data) =
     (if length d = 0 then Apply_loop_shared un cd es (Suc i) b s results data
      else
        case applySingle_shared un cd (es i) b s d of
          (out, s') \<Rightarrow> do { (res, b') \<leftarrow> out; Apply_loop_shared un cd es (Suc i) b' s' (results @ [res]) data })"

text \<open>The codec that decodes every command on its own.\<close>

definition freshCodec :: "decodeInto \<Rightarrow> codec \<Rightarrow> codec" where
  "freshCodec un cd =
     cd\<lparr>decCommand := \<lambda>d. decoded (intoCommand un (commandPayload freshPayloads) d),
        decBatchMessages := \<lambda>d. decoded (intoBatch un (batchMessage freshPayloads) d)\<rparr>"

lemma Reset_fresh:
  "CommandPayload_Reset c = commandPayload freshPayloads" "BatchMessages_Reset ms = batchMessage freshPayloads"
  by (cases c; simp add: CommandPayload_Reset_def freshPayloads_def) (simp add: BatchMessages_Reset_def freshPayloads_def)

lemma fresh_update:
  "freshPayloads\<lparr>commandPayload := commandPayload freshPayloads\<rparr> = freshPayloads"
  "freshPayloads\<lparr>batchMessage := batchMessage freshPayloads\<rparr> = freshPayloads"
  by simp_all

lemma dispatch_fresh:
  "cpOp p \<noteq> SUBMIT_BATCH_MESSAGE \<Longrightarrow> dispatch (freshCodec un cd) e b p = dispatch cd e b p"
  "cpOp p = SUBMIT_BATCH_MESSAGE \<Longrightarrow> dispatch (cd\<lparr>decBatchMessages := \<lambda>_. decoded (intoBatch un (batchMessage freshPayloads) (cpData p))\<rparr>) e b p =
     dispatch (freshCodec un cd) e b p"
  by (simp add: dispatch_def apply_defs freshCodec_def Let_def) (simp add: dispatch_def apply_SUBMIT_BATCH_MESSAGE_def freshCodec_def Let_def)

lemma applySingle_shared_same:
  "applySingle_shared un cd e b freshPayloads d = (applySingle (freshCodec un cd) e b d, freshPayloads)"
proof -
  have c: "decCommand (freshCodec un cd) d = decoded (intoCommand un (commandPayload freshPayloads) d)"
    by (simp add: freshCodec_def)
  show ?thesis
    unfolding applySingle_shared_def applySingle_def c Reset_fresh Let_def fresh_update
    by (simp add: dispatch_fresh split: sum.split)
qed

text \<open>
  Starting with empty payloads, as \<open>NewSyblineFSM\<close> makes them, the commands of a log entry have the same
  results as when each is decoded on its own, and the payloads are empty again.
\<close>

theorem Apply_loop_shared_same:
  "Apply_loop_shared un cd es i b freshPayloads results data =
     map_option (\<lambda>(out, b'). (out, b', freshPayloads)) (Apply_loop (freshCodec un cd) es i b results data)"
proof (induction data arbitrary: i b results)
  case (Cons d data)
  show ?case
    by (cases "applySingle (freshCodec un cd) (es i) b d") (auto simp: applySingle_shared_same Cons.IH)
qed simp

end
