(* ===== verification/ObjectPool.thy ===== *)
theory ObjectPool
  imports Prelude
begin

text \<open>
  The generic object pool (\<open>pkg/structs/ObjectPool.go\<close>), which the request handler takes its command
  objects from. The channel of the pool is a queue. A receive from the channel after \<open>Close\<close> gives the
  zero value of the type, \<open>zero\<close>; a send to it, or a second close, panics, which is \<open>None\<close>. \<open>made\<close> is what
  the factory function gives.
\<close>

record 'a ObjectPool =
  opPool :: "'a list"
  opMaxSize :: int
  opKilled :: bool

definition NewObjectPool :: "int \<Rightarrow> 'a ObjectPool" where
  "NewObjectPool maxSize = \<lparr>opPool = [], opMaxSize = maxSize, opKilled = False\<rparr>"

definition objectPool_GetObject :: "'a \<Rightarrow> 'a \<Rightarrow> 'a ObjectPool \<Rightarrow> 'a \<times> 'a ObjectPool" where
  "objectPool_GetObject zero made op =
     (case opPool op of
        obj # rest \<Rightarrow> (obj, op\<lparr>opPool := rest\<rparr>)
      | [] \<Rightarrow> (if opKilled op then zero else made, op))"

definition objectPool_ReleaseObject :: "'a \<Rightarrow> 'a ObjectPool \<Rightarrow> 'a ObjectPool option" where
  "objectPool_ReleaseObject obj op =
     (if int (length (opPool op)) < opMaxSize op
      then if opKilled op then None else Some (op\<lparr>opPool := opPool op @ [obj]\<rparr>)
      else Some op)"

definition objectPool_Close :: "'a ObjectPool \<Rightarrow> 'a ObjectPool option" where
  "objectPool_Close op = (if opKilled op then None else Some (op\<lparr>opPool := [], opKilled := True\<rparr>))"

text \<open>Users of a pool: an object is released, or one is taken.\<close>

datatype 'a poolOp = Released 'a | Taken

fun poolRun :: "'a \<Rightarrow> 'a \<Rightarrow> 'a poolOp list \<Rightarrow> 'a ObjectPool \<Rightarrow> ('a list \<times> 'a ObjectPool) option" where
  "poolRun zero made [] op = Some ([], op)"
| "poolRun zero made (Released x # xs) op = do { op' \<leftarrow> objectPool_ReleaseObject x op; poolRun zero made xs op' }"
| "poolRun zero made (Taken # xs) op =
     (case objectPool_GetObject zero made op of
        (y, op') \<Rightarrow> do { (ys, op'') \<leftarrow> poolRun zero made xs op'; Some (y # ys, op'') })"

definition poolOk :: "'a ObjectPool \<Rightarrow> bool" where
  "poolOk op \<longleftrightarrow> (opPool op = [] \<or> int (length (opPool op)) \<le> opMaxSize op) \<and> (opKilled op \<longrightarrow> opPool op = [])"

fun released :: "'a poolOp list \<Rightarrow> 'a list" where
  "released [] = []"
| "released (Released x # xs) = x # released xs"
| "released (Taken # xs) = released xs"

text \<open>
  An open pool never panics and never exceeds its size, and whatever is taken is a new object or one that
  was in the pool or was released before; no object is handed out more often than it came in.
\<close>

lemma poolRun_open:
  assumes "poolOk op" "\<not> opKilled op"
  shows "\<exists>ys op'. poolRun zero made xs op = Some (ys, op') \<and> poolOk op' \<and> \<not> opKilled op' \<and>
    filter_mset (\<lambda>y. y \<noteq> made) (mset ys + mset (opPool op')) \<subseteq># mset (opPool op) + mset (released xs)"
  using assms
proof (induction xs arbitrary: op)
  case Nil
  then show ?case by simp
next
  case (Cons x xs)
  show ?case
  proof (cases x)
    case (Released o')
    let ?op1 = "if int (length (opPool op)) < opMaxSize op then op\<lparr>opPool := opPool op @ [o']\<rparr> else op"
    have "objectPool_ReleaseObject o' op = Some ?op1" "poolOk ?op1" "\<not> opKilled ?op1"
      "mset (opPool ?op1) \<subseteq># add_mset o' (mset (opPool op))"
      using Cons.prems by (auto simp: objectPool_ReleaseObject_def poolOk_def)
    then obtain op1 where op1: "objectPool_ReleaseObject o' op = Some op1" "poolOk op1" "\<not> opKilled op1"
      "mset (opPool op1) \<subseteq># add_mset o' (mset (opPool op))" by blast
    from Cons.IH[OF op1(2,3)] obtain ys op' where
      r: "poolRun zero made xs op1 = Some (ys, op')" "poolOk op'" "\<not> opKilled op'"
        "filter_mset (\<lambda>y. y \<noteq> made) (mset ys + mset (opPool op')) \<subseteq># mset (opPool op1) + mset (released xs)" by blast
    have "mset (opPool op1) + mset (released xs) \<subseteq># mset (opPool op) + mset (released (x # xs))"
      using op1(4) Released by (simp add: subset_mset.add_right_mono flip: union_mset_add_mset_left)
    with r op1(1) Released show ?thesis by (auto intro: subset_mset.order_trans)
  next
    case Taken
    obtain y op1 where op1: "objectPool_GetObject zero made op = (y, op1)" "poolOk op1" "\<not> opKilled op1"
      "y = made \<and> opPool op1 = opPool op \<or> mset (opPool op) = add_mset y (mset (opPool op1))"
      using Cons.prems by (cases "opPool op") (auto simp: objectPool_GetObject_def poolOk_def)
    from Cons.IH[OF op1(2,3)] obtain ys op' where
      r: "poolRun zero made xs op1 = Some (ys, op')" "poolOk op'" "\<not> opKilled op'"
        "filter_mset (\<lambda>y. y \<noteq> made) (mset ys + mset (opPool op')) \<subseteq># mset (opPool op1) + mset (released xs)" by blast
    have "filter_mset (\<lambda>y. y \<noteq> made) (mset (y # ys) + mset (opPool op')) \<subseteq># mset (opPool op) + mset (released xs)"
      using op1(4) r(4) by (cases "y = made") (auto intro: subset_mset.order_trans)
    with r op1(1) Taken show ?thesis by auto
  qed
qed

lemma closed_pool:
  assumes "objectPool_Close op = Some op'"
  shows "objectPool_GetObject zero made op' = (zero, op')" "0 < opMaxSize op \<Longrightarrow> objectPool_ReleaseObject x op' = None"
    "objectPool_Close op' = None"
  using assms by (auto simp: objectPool_Close_def objectPool_GetObject_def objectPool_ReleaseObject_def split: if_splits)

end
