(* ===== verification/HandlerPool.thy ===== *)
theory HandlerPool
  imports Handler ObjectPool
begin

text \<open>
  The object pools of the request handler (\<open>pkg/handler/Handler.go\<close>, \<open>NewHandler\<close>): a fetch takes its
  payload from one pool and gives it back, and \<open>sendCommand\<close> takes the command that it marshals from
  another. \<open>Handler\<close> models what is sent; this theory has the same two functions with the pools as state,
  and shows that what an object held before does not reach the command. The other fields of the handler
  (the managers, the salt, the batcher) are the arguments of the functions of \<open>Handler\<close>.
\<close>

section \<open>State\<close>

record handler =
  getObjectPool :: "RequestMessageData ObjectPool"
  getCommandPool :: "CommandPayload ObjectPool"

definition zeroRequest :: RequestMessageData where
  "zeroRequest = \<lparr>rmQueueName = [], rmAmount = 0, rmConsumerID = [], rmTime = 0\<rparr>"

definition zeroCommand :: CommandPayload where
  "zeroCommand = \<lparr>cpUsername = [], cpOp = 0, cpData = []\<rparr>"

definition NewHandler :: handler where
  "NewHandler = \<lparr>getObjectPool = NewObjectPool 10000, getCommandPool = NewObjectPool 10000\<rparr>"

section \<open>Operations\<close>

definition sendCommand_pooled ::
    "(sent \<Rightarrow> error + bytes) \<Rightarrow> (CommandPayload \<Rightarrow> error + bytes) \<Rightarrow> Operation \<Rightarrow> sent \<Rightarrow> string \<Rightarrow> handler \<Rightarrow>
     (error + bytes) \<times> handler" where
  "sendCommand_pooled marshal marshalCommand payloadType pl username h =
     (case marshal pl of
        Inl err \<Rightarrow> (Inl err, h)
      | Inr jsonBytes \<Rightarrow>
          (let (obj, pool) = objectPool_GetObject zeroCommand zeroCommand (getCommandPool h);
               obj1 = obj\<lparr>cpOp := payloadType\<rparr>;
               obj2 = obj1\<lparr>cpData := jsonBytes\<rparr>;
               obj3 = obj2\<lparr>cpUsername := username\<rparr>
           in (marshalCommand obj3, h\<lparr>getCommandPool := pool\<rparr>)))"

text \<open>The end of \<open>GetMessages\<close>, after its checks. \<open>None\<close> is a panic of the pool.\<close>

definition getMessages_pooled ::
    "(sent \<Rightarrow> error + bytes) \<Rightarrow> (CommandPayload \<Rightarrow> error + bytes) \<Rightarrow> string \<Rightarrow> u32 \<Rightarrow> bytes \<Rightarrow> i64 \<Rightarrow> string \<Rightarrow> handler \<Rightarrow>
     ((error + bytes) \<times> handler) option" where
  "getMessages_pooled marshal marshalCommand queue n consumerID nowUnix username h =
     (let (msg, pool) = objectPool_GetObject zeroRequest zeroRequest (getObjectPool h);
          msg1 = msg\<lparr>rmQueueName := queue\<rparr>;
          msg2 = msg1\<lparr>rmAmount := n\<rparr>;
          msg3 = msg2\<lparr>rmConsumerID := consumerID\<rparr>;
          msg4 = msg3\<lparr>rmTime := nowUnix\<rparr>;
          (out, h1) = sendCommand_pooled marshal marshalCommand GET_MESSAGES (PRequest msg4) username
            (h\<lparr>getObjectPool := pool\<rparr>)
      in do { pool' \<leftarrow> objectPool_ReleaseObject msg4 (getObjectPool h1);
              Some (out, h1\<lparr>getObjectPool := pool'\<rparr>) })"

section \<open>The pools do not show\<close>

definition handlerOk :: "handler \<Rightarrow> bool" where
  "handlerOk h \<longleftrightarrow> poolOk (getObjectPool h) \<and> \<not> opKilled (getObjectPool h) \<and>
     poolOk (getCommandPool h) \<and> \<not> opKilled (getCommandPool h)"

lemma NewHandler_ok: "handlerOk NewHandler"
  by (simp add: handlerOk_def NewHandler_def NewObjectPool_def poolOk_def)

lemma GetObject_ok:
  assumes "objectPool_GetObject zero made op = (x, op')" "poolOk op" "\<not> opKilled op"
  shows "poolOk op'" "\<not> opKilled op'" "length (opPool op') \<le> length (opPool op)"
  using assms by (auto simp: objectPool_GetObject_def poolOk_def split: list.splits)

lemma ReleaseObject_ok:
  assumes "poolOk op" "\<not> opKilled op"
  shows "\<exists>op'. objectPool_ReleaseObject x op = Some op' \<and> poolOk op' \<and> \<not> opKilled op'"
  using assms by (auto simp: objectPool_ReleaseObject_def poolOk_def)

lemma command_overwritten:
  "(obj :: CommandPayload)\<lparr>cpOp := op, cpData := d, cpUsername := u\<rparr> = \<lparr>cpUsername = u, cpOp = op, cpData = d\<rparr>"
  by (cases obj) simp

lemma sendCommand_pooled_same:
  "fst (sendCommand_pooled marshal marshalCommand op pl u h) = sendCommand marshal marshalCommand op pl u"
  by (simp add: sendCommand_pooled_def sendCommand_def onOk_def Let_def command_overwritten split_beta split: sum.split)

lemma sendCommand_pooled_ok: "handlerOk h \<Longrightarrow> handlerOk (snd (sendCommand_pooled marshal marshalCommand op pl u h))"
  using GetObject_ok[of zeroCommand zeroCommand "getCommandPool h"]
  by (auto simp: sendCommand_pooled_def handlerOk_def Let_def split: sum.split prod.split)

text \<open>No command object is given back, so the pool of commands stays empty for ever.\<close>

lemma sendCommand_pooled_pool:
  "length (opPool (getCommandPool (snd (sendCommand_pooled marshal marshalCommand op pl u h)))) \<le> length (opPool (getCommandPool h))"
  by (auto simp: sendCommand_pooled_def objectPool_GetObject_def Let_def split: sum.split prod.split list.splits if_splits)

text \<open>
  A fetch sends the command that \<open>Handler\<close> says, whatever the pools hold; it does not panic, and leaves
  the pools well-formed.
\<close>

theorem getMessages_pooled_same:
  assumes "handlerOk h"
  shows "\<exists>h'. getMessages_pooled marshal marshalCommand q n c now u h =
      Some (sendCommand marshal marshalCommand GET_MESSAGES
        (PRequest \<lparr>rmQueueName = q, rmAmount = n, rmConsumerID = c, rmTime = now\<rparr>) u, h') \<and> handlerOk h'"
proof -
  let ?pl = "\<lparr>rmQueueName = q, rmAmount = n, rmConsumerID = c, rmTime = now\<rparr>"
  obtain msg pool where g: "objectPool_GetObject zeroRequest zeroRequest (getObjectPool h) = (msg, pool)"
    by (cases "objectPool_GetObject zeroRequest zeroRequest (getObjectPool h)")
  let ?h = "h\<lparr>getObjectPool := pool\<rparr>"
  let ?s = "sendCommand_pooled marshal marshalCommand GET_MESSAGES (PRequest ?pl) u ?h"
  have "handlerOk ?h" using GetObject_ok[OF g] assms by (auto simp: handlerOk_def)
  then have h1: "handlerOk (snd ?s)" by (rule sendCommand_pooled_ok)
  then have "poolOk (getObjectPool (snd ?s))" "\<not> opKilled (getObjectPool (snd ?s))" by (simp_all add: handlerOk_def)
  from ReleaseObject_ok[OF this, of ?pl] obtain pool' where
    p: "objectPool_ReleaseObject ?pl (getObjectPool (snd ?s)) = Some pool'" "poolOk pool'" "\<not> opKilled pool'"
    by (elim exE conjE)
  have msg: "msg\<lparr>rmQueueName := q, rmAmount := n, rmConsumerID := c, rmTime := now\<rparr> = ?pl" by (cases msg) simp
  have "getMessages_pooled marshal marshalCommand q n c now u h = Some (fst ?s, (snd ?s)\<lparr>getObjectPool := pool'\<rparr>)"
    using p(1) by (simp add: getMessages_pooled_def g msg Let_def split_beta)
  moreover have "handlerOk ((snd ?s)\<lparr>getObjectPool := pool'\<rparr>)" using h1 p(2,3) by (simp add: handlerOk_def)
  ultimately show ?thesis by (simp add: sendCommand_pooled_same)
qed

end
