(* ===== verification/ServerStart.thy ===== *)
theory ServerStart
  imports Startup Batcher HandlerPool
begin

text \<open>
  The start of a node (\<open>cmd/main.go\<close>, \<open>main\<close>): the settings, the TLS configuration, the raft servers, the
  state machine, the configuration of raft, the batcher and the handler, in the order of the code, with every
  exit on the way.

  What the machine gives is a record: files, the port, the connections to the peers, the log store, the
  random bytes and the client for Kubernetes. A value \<open>None\<close> of \<open>main_start\<close> is a panic, or the loop that
  waits for the pods. What raft does when it starts, and what the listeners serve, is not part of it.
\<close>

section \<open>The machine and TLS\<close>

record 'c machine =
  LoadX509KeyPair :: "string \<Rightarrow> string \<Rightarrow> error + 'c"
  ReadFile :: "string \<Rightarrow> error + bytes"
  ParsePEM :: "bytes \<Rightarrow> 'c list"
  Listen :: "int \<Rightarrow> string option"
  Dial :: "string \<Rightarrow> error option"
  NewBinaryLogStore :: "int \<Rightarrow> string option"
  RandomBytes :: "error + bytes"
  Hostname :: string
  Kubernetes :: kubernetes

record 'c tlsConfig =
  Certificates :: "'c list"
  RootCAs :: "'c list"
  InsecureSkipVerify :: bool

definition createTLSConfig :: "'c machine \<Rightarrow> string \<Rightarrow> string \<Rightarrow> string \<Rightarrow> bool \<Rightarrow> error + 'c tlsConfig" where
  "createTLSConfig m caCertFile certFile keyFile skipVerification =
     onOk (LoadX509KeyPair m certFile keyFile) (\<lambda>cert.
       onOk (ReadFile m caCertFile) (\<lambda>caCert.
         Inr \<lparr>Certificates = [cert], RootCAs = ParsePEM m caCert, InsecureSkipVerify = skipVerification\<rparr>))"

definition main_tls :: "'c machine \<Rightarrow> viper \<Rightarrow> error + 'c tlsConfig option" where
  "main_tls m v =
     (if GetBool v ''TLS_ENABLED'' then
        case createTLSConfig m ''./cert/ca-cert.pem'' ''./cert/cert.pem'' ''./cert/key.pem'' (GetBool v ''TLS_VERIFY_SKIP'') of
          Inl err \<Rightarrow> Inl (Fatal ''Failed to create TLS config'')
        | Inr tlsConf \<Rightarrow> Inr (Some tlsConf)
      else Inr None)"

section \<open>The node\<close>

text \<open>The configuration that raft gets; durations are 64-bit integers, in nanoseconds.\<close>

record raftConfiguration =
  rcServers :: "(string \<times> nat) list"
  rcId :: int
  rcStreamBuildTimeout :: int
  rcStreamBuildAttempts :: int
  rcAppendTimeout :: int
  rcElectionTimeout :: int
  rcHeartbeatTimeout :: int

definition main_raft :: "settings \<Rightarrow> (string \<times> nat) list \<Rightarrow> raftConfiguration" where
  "main_raft st servers =
     \<lparr>rcServers = servers, rcId = sRaftId st,
      rcStreamBuildTimeout = tokenNanos (sStreamBuildTimeout st),
      rcStreamBuildAttempts = sStreamBuildAttempts st,
      rcAppendTimeout = tokenNanos (sAppendTimeout st),
      rcElectionTimeout = tokenNanos (sElectionTimeout st),
      rcHeartbeatTimeout = tokenNanos (sHeartbeatTimeout st)\<rparr>"

record 'c node =
  nFsm :: syblineFSM
  nRaft :: raftConfiguration
  nBatcher :: batcher
  nHandler :: handler
  nTls :: "'c tlsConfig option"
  nRestPort :: int

text \<open>
  A connection that cannot be made leaves no account manager, because the error is not reported as fatal, and
  the creation of the first account panics. A batch limit below zero panics in \<open>make\<close>.
\<close>

definition main_start :: "kdf \<Rightarrow> (bytes \<Rightarrow> bytes) \<Rightarrow> 'c machine \<Rightarrow> viper \<Rightarrow> (error + 'c node) option" where
  "main_start key sha512 m v =
     (case main_settings v (Hostname m) (Kubernetes m) (ReadFile m) of
        None \<Rightarrow> None
      | Some (Inl err) \<Rightarrow> Some (Inl err)
      | Some (Inr st) \<Rightarrow>
          (case main_tls m v of
             Inl err \<Rightarrow> Some (Inl err)
           | Inr tls \<Rightarrow>
               (case Listen m (sPort st) of
                  Some err \<Rightarrow> Some (Inl (Fatal (''failed to listen: '' @ err)))
                | None \<Rightarrow>
                    (case main_servers (sAddresses st) (sIds st) of
                       None \<Rightarrow> None
                     | Some (Inl err) \<Rightarrow> Some (Inl err)
                     | Some (Inr servers) \<Rightarrow>
                         (case NewBinaryLogStore m (sSnapshotThreshold st) of
                            Some err \<Rightarrow> Some (Inl (Fatal (''failed to create logstore: '' @ err)))
                          | None \<Rightarrow>
                              if \<not> list_all (\<lambda>server. Dial m (fst server) = None) servers then None
                              else if sRaftBatchLimit st < 0 then None
                              else Some (Inr
                                \<lparr>nFsm = main_fsm key (RandomBytes m) sha512 st, nRaft = main_raft st servers,
                                 nBatcher = NewBatcher (nat (sRaftBatchLimit st)), nHandler = NewHandler,
                                 nTls = tls, nRestPort = sRestPort st\<rparr>))))))"

section \<open>What holds of a started node\<close>

lemma main_start_node:
  assumes "main_start key sha m v = Some (Inr nd)"
  obtains st servers where "main_settings v (Hostname m) (Kubernetes m) (ReadFile m) = Some (Inr st)"
    "main_servers (sAddresses st) (sIds st) = Some (Inr servers)" "0 \<le> sRaftBatchLimit st"
    "nFsm nd = main_fsm key (RandomBytes m) sha st" "nRaft nd = main_raft st servers"
    "nBatcher nd = NewBatcher (nat (sRaftBatchLimit st))" "nHandler nd = NewHandler"
proof -
  from assms obtain st tls servers where
    "main_settings v (Hostname m) (Kubernetes m) (ReadFile m) = Some (Inr st)"
    "main_servers (sAddresses st) (sIds st) = Some (Inr servers)" "\<not> sRaftBatchLimit st < 0"
    "nd = \<lparr>nFsm = main_fsm key (RandomBytes m) sha st, nRaft = main_raft st servers,
       nBatcher = NewBatcher (nat (sRaftBatchLimit st)), nHandler = NewHandler, nTls = tls, nRestPort = sRestPort st\<rparr>"
    by (simp add: main_start_def split: option.split_asm sum.split_asm if_split_asm) blast
  then show thesis by (intro that) simp_all
qed

lemma orDefault_nonzero: "d \<noteq> 0 \<Longrightarrow> orDefault x d \<noteq> 0"
  by (simp add: orDefault_def)

lemma main_settings_limits:
  assumes "main_settings v host clientset readFile = Some (Inr st)"
  shows "sSalt st = GetString v ''SALT''" "sSalt st \<noteq> []" "sRaftBatchLimit st \<noteq> 0"
  using assms
  by (auto simp: main_settings_def Let_def bind_Some_iff onOk_Inr orDefault_nonzero split: if_splits)

text \<open>A node never starts with an empty batch.\<close>

lemma main_start_batch:
  assumes "main_start key sha m v = Some (Inr nd)"
  shows "0 < batchLength (nBatcher nd)" "nBatcher nd = NewBatcher (batchLength (nBatcher nd))"
    "handlerOk (nHandler nd)"
  using assms by (auto elim!: main_start_node dest: main_settings_limits(3) simp: NewBatcher_def NewHandler_ok)

text \<open>Comma-separated settings.\<close>

fun commaList :: "string list \<Rightarrow> string" where
  "commaList [] = []"
| "commaList [s] = s"
| "commaList (s # t # ss) = s @ CHR '','' # commaList (t # ss)"

lemma Split_commaList:
  "ss \<noteq> [] \<Longrightarrow> \<forall>s\<in>set ss. CHR '','' \<notin> set s \<Longrightarrow> Split (commaList ss) (CHR '','') = ss"
  by (induction ss rule: commaList.induct) (simp_all add: Split_pieces Split_plain)

text \<open>
  A node with static settings: when the addresses and the ids of the peers are given as comma-separated lists,
  the salt and the own id are there, and the machine does its part, the node starts, and raft gets every
  address with its id.
\<close>

lemma main_start_static:
  assumes "GetString v ''ADDRESSES'' = commaList addresses" "GetString v ''NODES'' = commaList (map Utoa ns)"
    and "addresses \<noteq> []" "\<forall>s\<in>set addresses. CHR '','' \<notin> set s" "length ns = length addresses" "\<forall>n\<in>set ns. n < 2 ^ 64"
    and "GetString v ''SALT'' \<noteq> []" "GetUint64 v ''RAFT_NODE_ID'' \<noteq> 0" "\<not> GetBool v ''K8S_AUTO''" "\<not> GetBool v ''TLS_ENABLED''"
    and "0 \<le> GetInt v ''RAFT_BATCH_LIMIT''"
    and "\<And>p. Listen m p = None" "\<And>p. NewBinaryLogStore m p = None" "\<And>a. Dial m a = None"
  shows "\<exists>nd. main_start key sha m v = Some (Inr nd) \<and> rcServers (nRaft nd) = zip addresses ns \<and>
    rcId (nRaft nd) = int (GetUint64 v ''RAFT_NODE_ID'')"
proof -
  have "ns \<noteq> []" using assms(3,5) by auto
  then have sp: "Split (GetString v ''ADDRESSES'') (CHR '','') = addresses" "Split (GetString v ''NODES'') (CHR '','') = map Utoa ns"
    using assms(1-4) Utoa_comma by (simp_all add: Split_commaList)
  have "main_peers v host clientset readFile port = Some (Inr (addresses, map Utoa ns, int (GetUint64 v ''RAFT_NODE_ID'')))" for host clientset readFile port
    using sp assms(5,8,9) by (simp add: main_peers_def Let_def)
  then obtain st where st: "main_settings v (Hostname m) (Kubernetes m) (ReadFile m) = Some (Inr st)"
    "sAddresses st = addresses" "sIds st = map Utoa ns" "sRaftId st = int (GetUint64 v ''RAFT_NODE_ID'')"
    "sRaftBatchLimit st = orDefault (GetInt v ''RAFT_BATCH_LIMIT'') 1000"
    using assms(7) by (simp add: main_settings_def Let_def onOk_def)
  moreover have "main_tls m v = Inr None" using assms(10) by (simp add: main_tls_def)
  ultimately show ?thesis
    using assms(11-) main_servers_ok[OF assms(5,6)] by (simp add: main_start_def main_raft_def orDefault_def list_all_iff)
qed

end
