(* ===== verification/Spec2Isabelle.thy ===== *)
theory Spec2Isabelle
  imports
    QueueProperties BrokerProperties RbacProperties AuthProperties FsmProperties HandlerProperties
    BatcherProperties InterfaceProperties DeliveryProperties RefineProperties FsmPayload ServerStart
begin

text \<open>
  Verification of the Sybline message broker.

  \<^bold>\<open>The program.\<close> Sybline is a replicated message broker. A client talks to a node over gRPC (\<open>pkg/rpc\<close>) or
  REST (\<open>pkg/rest\<close>). Middlewares let a request through on the leader, for a user with a live session
  (\<open>pkg/auth\<close>). The request handler (\<open>pkg/handler\<close>) validates the request, asks the role manager
  (\<open>pkg/rbac\<close>) for the permission, and turns the request into a command. The batcher
  (\<open>pkg/fsm/batcher.go\<close>) collects commands into log entries and hands them to a raft library. Every node
  applies the entries of the log to its state machine (\<open>pkg/fsm/syblineFSM.go\<close>), which checks the
  permission again and changes the broker with its queues (\<open>pkg/core\<close>), the accounts, or the roles.
  Fetched messages are locked by their consumer until they are acknowledged, given back, or the lock has
  outlived its time to live; a message that is given back too often goes to a dead letter queue.

  \<^bold>\<open>Theories and sources\<close>, in the order of their imports:
  \<^item> \<open>Prelude\<close>: Go types, the error values, the convention for calls that panic, lemmas on lists.
  \<^item> \<open>NodePool\<close>: \<open>core/Counter.go\<close>, \<open>core/NodeObjectPool.go\<close>, the node type.
  \<^item> \<open>LinkedList\<close>: \<open>core/LinkedList.go\<close> as a pointer program over a memory of nodes; one definition per
    method, its loops as \<open>partial_function (option)\<close>, a nil dereference as \<open>None\<close>.
  \<^item> \<open>QueueSpec\<close>: the abstract queue, a list of entries, with one function per method. \<open>LinkedListRefine\<close>,
    \<open>LinkedListFetch\<close>, \<open>LinkedListRemove\<close>, \<open>LinkedListBatchAck\<close>, \<open>LinkedListBatchNack\<close> show that the linked
    list implements it. \<open>QueueInterface\<close> states the Go interface \<open>Queue\<close> as the locale \<open>queue_impl\<close> and
    interprets it on the linked list; \<open>QueueRuns\<close> has runs of operations on a queue and its dead letter
    queue.
  \<^item> \<open>QueueManager\<close>, \<open>QueueManagerInv\<close>: \<open>core/QueueManager.go\<close>, \<open>core/ConsumerManager.go\<close>. Queues are
    objects of a store, so that a name and a dead letter pointer can refer to one object.
  \<^item> \<open>Broker\<close>, \<open>BrokerInv\<close>: \<open>core/Broker.go\<close>; the locale \<open>message_sink\<close> carries the fan-out of a message,
    interpreted for single and for batched messages.
  \<^item> \<open>Rbac\<close>, \<open>RbacBuiltin\<close>, \<open>RbacInv\<close>: \<open>rbac/rbacManager.go\<close>, \<open>rbac/builtin.go\<close>; the locale
    \<open>deny_overrides\<close> carries both permission checks.
  \<^item> \<open>Sessions\<close>, \<open>AuthManager\<close>: the files of \<open>pkg/auth\<close>; the locale \<open>session_store\<close> states what the
    sessions promise.
  \<^item> \<open>Fsm\<close>, \<open>FsmAuth\<close>, \<open>FsmInv\<close>, \<open>FsmRuns\<close>, \<open>FsmReplicas\<close>: \<open>fsm/syblineFSM.go\<close>, \<open>fsm/operations.go\<close>,
    \<open>fsm/command_payload.go\<close>, \<open>structs/structs.go\<close>: \<open>Apply\<close> and the cases of \<open>applySingle\<close>, then which
    permission a command needs, the invariants, log entries, and pairs of replicas.
    \<open>FsmPayload\<close> adds the payload objects that \<open>applySingle\<close> reuses from command to command, and shows that
    they do not matter. \<open>FsmDelivery\<close> follows one message through the commands, \<open>FsmCapacity\<close> has the
    invariant that queues do not outgrow their capacity.
  \<^item> \<open>BrokerSpec\<close>: the specification of the broker as a whole, queues as lists of entries with their routes and
    dead letter queues, one function per operation; and the locale \<open>forward_simulation\<close>, which carries the
    induction over runs with visible and hidden steps. \<open>BrokerRefine\<close>: which broker state represents which
    state of the specification, and that every operation of the broker does what the specification says.
    \<open>FsmRefine\<close>: which commands are visible as which operations, and the interpretation of the locale on the
    state machine.
  \<^item> \<open>Handler\<close>, \<open>HandlerInv\<close>: \<open>handler/Handler.go\<close>, \<open>handler/validation.go\<close>, each request up to the
    command it sends. \<open>HandlerPool\<close> adds the two object pools of the handler and shows that they do not
    change what is sent.
  \<^item> \<open>Batcher\<close>: \<open>fsm/batcher.go\<close> as a step relation of senders, the two goroutines and the timer.
  \<^item> \<open>ObjectPool\<close>: \<open>structs/ObjectPool.go\<close>.
  \<^item> \<open>GoText\<close>: what is used of \<open>strings\<close>, \<open>strconv\<close> and \<open>encoding/base64\<close>.
  \<^item> \<open>Rest\<close>: the middlewares and endpoints of \<open>pkg/rest\<close>. \<open>RestRoutes\<close>: the table of its routes, and which of
    them the middlewares leave open. \<open>Rpc\<close>: the interceptors and methods of \<open>pkg/rpc\<close>.
  \<^item> \<open>Startup\<close>: \<open>config/config.go\<close>, and of \<open>cmd/main.go\<close> the settings, the peers and the first state.
    \<open>ServerStart\<close>: \<open>main\<close> as a whole, from the settings to the batcher and the handler, with its exits.

  \<^bold>\<open>What is shown.\<close>
  \<^item> \<open>QueueProperties\<close>: the linked list refines the abstract queue along every run that the abstract queue
    accepts, with the same value returned by every operation; a locked message is delivered to one consumer only and stays in the list; messages come in
    order; an acknowledged message is gone; the count is exact without batch operations; the effect of
    negative and of batch acknowledgements, with the cases in which messages or the count go wrong.
  \<^item> \<open>BrokerProperties\<close>: a message reaches the queues of its routing key and no others, under every schedule
    of the goroutines; the invariant; routes under creation and deletion, and where they are left behind.
  \<^item> \<open>RbacProperties\<close>: what the two permission checks decide, and where a wildcard beats a deny, against the
    documentation; permission strings and role definitions.
  \<^item> \<open>AuthProperties\<close>: logins, password changes, how long sessions last, logging out, deleting a user.
  \<^item> \<open>FsmProperties\<close>: commands without permission change nothing; the invariant along the log; replicas
    agree although schedules and map orders differ; which commands always return.
  \<^item> \<open>RefineProperties\<close>: along every run of commands without batch acknowledgements the state machine does
    what the specification of the broker does, with the same results, and panics only where the specification
    has no outcome.
  \<^item> \<open>HandlerProperties\<close>: a command that is sent is authorised, except for the removal of a role from a user,
    for which the handler asks for another permission than the state machine; a batch is grouped without loss.
  \<^item> \<open>BatcherProperties\<close>: no interleaving blocks, and none panics unless the state machine panics on the batch that
    is sent; who gets which result, and which results are lost.
  \<^item> \<open>DeliveryProperties\<close>: a message from its submission over the fetch to the acknowledgement, through the
    state machine; queues stay within their capacity; every command returns data of its own kind.
  \<^item> \<open>InterfaceProperties\<close>: who passes the middlewares, route by route, and that a command from gRPC or REST
    comes from a live session and is authorised, with the same exception; a message fetched over REST can be acknowledged; the peers
    of a node; the server from its first state on.
  \<^item> this theory: the batcher on top of the state machine; a REST request from the middlewares over the handler
    and the batcher to its result; and the node from its start on.

  \<^bold>\<open>Errors, panics, loops.\<close> An error that the code returns is a value of the type \<open>error\<close>, a panic is
  \<open>None\<close>. Nothing has fuel: the loops over the pointers of a list are \<open>partial_function (option)\<close>, and the
  refinement shows that they return on well-formed lists; the loop that waits for the pods of Kubernetes
  recurses over the answers of the Kubernetes client, and is still waiting when they end.

  \<^bold>\<open>Arguments that stand for code outside the repository.\<close> The key derivation \<open>scrypt\<close>, SHA-512, random
  bytes, the clock, generated identifiers, the msgpack codec, the JSON decoder, the uuid functions, the
  gRPC clients of the followers, raft, viper, the Kubernetes client, files and ports. Where a property relies on one of
  them it has a named hypothesis, and its witness uses a concrete function: \<open>roundTrip\<close>, decoding gives back what was
  encoded; \<open>batchCodec\<close>, the same for a slice of entries; \<open>resultsFit\<close>, no more results than entries;
  \<open>raftApplies\<close>, raft gives what \<open>Apply\<close> gives or an error, and does not come back when \<open>Apply\<close> panics;
  \<open>envOk\<close>, the random source does not fail, nor \<open>scrypt\<close> with the cost 32768 that the code uses. The order of a range over a map
  and the schedule of goroutines are arguments as well, constrained to be an order of the keys and a
  permutation of the calls.

  \<^bold>\<open>Atomicity.\<close> The methods of \<open>pkg/core\<close>, \<open>pkg/auth\<close> and \<open>pkg/rbac\<close> are single steps. They are called from
  \<open>Apply\<close>, one command after another, or hold a mutex. The batcher, where the interleaving matters, is a
  step relation: a sender and the timer hold different locks, so every access of theirs to the next free
  index is a step of its own; the first goroutine and the timer exclude each other by a lock.

  \<^bold>\<open>Not modelled.\<close> The generated protobuf code; the generators of tokens and identifiers
  (\<open>auth/Generators.go\<close>, two calls of the uuid library, whose values are arguments); the text of errors;
  metrics, tracing and what the listeners of \<open>cmd/main.go\<close> serve; the matching of paths with the table of
  routes, CORS and the JSON encoding, which the HTTP library does; raft itself, its start from a stored log,
  its snapshots and its log store. A payload that msgpack decodes to a nil pointer, which the handler never
  sends, is not among the outcomes of the decoders. The counter of a queue is an unbounded integer, as it stays
  near the capacity of the queue.
\<close>

section \<open>The batcher on top of the state machine\<close>

text \<open>
  What is used of raft: the value that \<open>ApplyLog\<close> returns on success is the one that \<open>Apply\<close> of the state
  machine returned for the log; after an error the log was applied or not; and when the call does not come
  back, then because \<open>Apply\<close> panics.
\<close>

definition raftApplies :: "codec \<Rightarrow> syblineFSM raftApply \<Rightarrow> bool" where
  "raftApplies cd app \<longleftrightarrow>
     (\<forall>b d r b'. app b d = Some (Inr r, b') \<longrightarrow> (\<exists>es. Apply cd es b \<lparr>lgIsRaftLog = False, lgData = d\<rparr> = Some (Inr r, b'))) \<and>
     (\<forall>b d err b'. app b d = Some (Inl err, b') \<longrightarrow>
        b' = b \<or> (\<exists>es r. Apply cd es b \<lparr>lgIsRaftLog = False, lgData = d\<rparr> = Some (r, b'))) \<and>
     (\<forall>b d. app b d = None \<longrightarrow> (\<exists>es. Apply cd es b \<lparr>lgIsRaftLog = False, lgData = d\<rparr> = None))"



text \<open>What is used of msgpack: a slice decodes to the slice that was encoded, where nil and empty are one.\<close>

definition batchCodec :: "codec \<Rightarrow> marshaller \<Rightarrow> bool" where
  "batchCodec cd mar \<longleftrightarrow>
     (\<forall>datas m. mar datas = Inr m \<longrightarrow> m \<noteq> [] \<and> decBatch cd m = Inr (map (case_option [] id) datas))"

text \<open>An entry of the log runs its commands one after another, and has their results in order.\<close>

definition ranEach ::
    "codec \<Rightarrow> (nat \<Rightarrow> env) \<Rightarrow> nat \<Rightarrow> syblineFSM \<Rightarrow> CommandPayload list \<Rightarrow> SyblineFSMResult list \<Rightarrow> bool" where
  "ranEach cd es i b ps rs \<longleftrightarrow> length rs = length ps \<and>
     (\<forall>j<length ps. \<exists>c c'. runCommands cd es i b (take j ps) = Some c \<and> dispatch cd (es (i + j)) c (ps ! j) = Some (rs ! j, c'))"

lemma Apply_results:
  assumes "batchCodec cd mar" "mar datas = Inr m"
    and "Apply cd es b \<lparr>lgIsRaftLog = False, lgData = m\<rparr> = Some (Inr (Some res), b')"
  shows "Apply_loop cd es 0 b [] (map (case_option [] id) datas) = Some (res, b')"
  using assms by (auto simp: batchCodec_def Apply_def bind_Some_iff)






lemma ranEach_Cons:
  assumes "dispatch cd (es i) b p = Some (r, b')" "ranEach cd es (Suc i) b' ps rs"
  shows "ranEach cd es i b (p # ps) (r # rs)"
  unfolding ranEach_def
proof (intro conjI allI impI)
  show "length (r # rs) = length (p # ps)" using assms(2) by (simp add: ranEach_def)
  fix j assume "j < length (p # ps)"
  then show "\<exists>c c'. runCommands cd es i b (take j (p # ps)) = Some c \<and>
      dispatch cd (es (i + j)) c ((p # ps) ! j) = Some ((r # rs) ! j, c')"
    using assms by (cases j) (simp_all add: ranEach_def)
qed

lemma Apply_loop_runs:
  assumes "Apply_loop cd es i b results ds = Some (out, b')" "list_all2 (\<lambda>d p. d \<noteq> [] \<and> decCommand cd d = Inr p) ds ps"
  shows "runCommands cd es i b ps = Some b' \<and> (\<exists>rs. out = results @ rs \<and> ranEach cd es i b ps rs)"
  using assms(2,1)
proof (induction ds ps arbitrary: i b results rule: list_all2_induct)
  case Nil
  then show ?case by (simp add: ranEach_def)
next
  case (Cons d ds p ps)
  then obtain r b1 where r: "dispatch cd (es i) b p = Some (r, b1)"
    "Apply_loop cd es (Suc i) b1 (results @ [r]) ds = Some (out, b')"
    by (auto simp: applySingle_def bind_Some_iff)
  from Cons.IH[OF r(2)] obtain rs where "runCommands cd es (Suc i) b1 ps = Some b'" "out = results @ r # rs"
    "ranEach cd es (Suc i) b1 ps rs" by auto
  with r(1) ranEach_Cons[where es = es, OF r(1)] show ?case by auto
qed


text \<open>A batch of commands through an idle batcher.\<close>

lemma batch_runs:
  assumes "raftApplies cd app" "batchCodec cd mar" "holdsBatch n [] c0" "ds \<noteq> []" "length ds < n"
    and "list_all2 (\<lambda>d p. d \<noteq> [] \<and> decCommand cd d = Inr p) ds ps"
    and "mar (map Some ds) = Inr m" "app b m = Some (Inr (Some res), b')"
  shows "\<exists>chs c1 c2 es. sendMany mar app b ds c0 = Some (chs, b, c1) \<and>
    processTimer mar app b c1 = Some (b', c2) \<and> holdsBatch n [] c2 \<and>
    (bstep mar app)\<^sup>*\<^sup>* (quietSys c0 b []) (quietSys c2 b' (zip ds chs)) \<and>
    runCommands cd es 0 b ps = Some b' \<and> ranEach cd es 0 b ps res \<and>
    (\<forall>i<length ds. chanBuf c2 (fst (chs ! i)) (snd (chs ! i)) = [Some (res ! i)])"
proof -
  from assms(1,8) obtain es where "Apply cd es b \<lparr>lgIsRaftLog = False, lgData = m\<rparr> = Some (Inr (Some res), b')"
    unfolding raftApplies_def by blast
  from Apply_results[OF assms(2,7) this] have "Apply_loop cd es 0 b [] ds = Some (res, b')"
    by (simp add: comp_def)
  from Apply_loop_runs[OF this assms(6)] have run: "runCommands cd es 0 b ps = Some b'" "ranEach cd es 0 b ps res" by auto
  have "length res = length ds" using run(2) list_all2_lengthD[OF assms(6)] by (simp add: ranEach_def)
  from send_many[OF assms(3), of ds mar app b] assms(5) obtain c1 where
    c1: "sendMany mar app b ds c0 = Some (map (\<lambda>i. (outputChans c0, i)) [0..<length ds], b, c1)"
      "holdsBatch n ds c1" "outputChans c1 = outputChans c0" by auto
  from timer_sends[where mar = mar and app = app, OF c1(2) assms(4,7,8) \<open>length res = length ds\<close>] c1(3) obtain c2 where
    c2: "processTimer mar app b c1 = Some (b', c2)" "holdsBatch n [] c2"
      "\<forall>j<length ds. chanBuf c2 (outputChans c0) j = [Some (res ! j)]" by auto
  have "(bstep mar app)\<^sup>*\<^sup>* (quietSys c0 b [])
      (quietSys c2 b' (zip ds (map (\<lambda>i. (outputChans c0, i)) [0..<length ds])))"
    using sendMany_steps[OF c1(1), of "[]"] timer_steps[OF c2(1)] by (metis append_Nil rtranclp_trans)
  with c1(1) c2 run show ?thesis by (intro exI conjI) auto
qed

text \<open>
  C33: Commands through the batcher. When fewer commands than a batch holds are sent to an idle batcher and
  the timer fires, and raft does not fail, which is one of the interleavings of the batcher, the state machine
  has run exactly these commands in the order they were sent, and the channel that a sender got holds the result of the sender's own command.
\<close>

theorem batched_commands_run:
  assumes "raftApplies cd app" "batchCodec cd mar" "holdsBatch n [] c0" "ds \<noteq> []" "length ds < n"
    and "list_all2 (\<lambda>d p. d \<noteq> [] \<and> decCommand cd d = Inr p) ds ps"
    and "mar (map Some ds) = Inr m" "app b m = Some (Inr (Some res), b')"
  shows "\<exists>chs c1 c2 es. sendMany mar app b ds c0 = Some (chs, b, c1) \<and>
    processTimer mar app b c1 = Some (b', c2) \<and> holdsBatch n [] c2 \<and>
    (bstep mar app)\<^sup>*\<^sup>* (quietSys c0 b []) (quietSys c2 b' (zip ds chs)) \<and>
    runCommands cd es 0 b ps = Some b' \<and> ranEach cd es 0 b ps res \<and>
    (\<forall>i<length ds. chanBuf c2 (fst (chs ! i)) (snd (chs ! i)) = [Some (res ! i)])"
  using assms by (rule batch_runs)

text \<open>A single node for the witness: raft applies every log at once, and the codec knows entries of one byte.\<close>

definition demoPack :: marshaller where
  "demoPack datas =
     (if datas \<noteq> [] \<and> list_all (\<lambda>d. length (case_option [] id d) = 1) datas
      then Inr (map (hd \<circ> the) datas) else Inl MissingAction)"

definition demoNode :: "syblineFSM raftApply" where
  "demoNode b d =
     Apply demoCodec (\<lambda>_. demoEnv True) b \<lparr>lgIsRaftLog = False, lgData = d\<rparr>"

lemma demoNode_applies: "raftApplies demoCodec demoNode"
  unfolding raftApplies_def demoNode_def by blast

lemma demoPack_codec: "batchCodec demoCodec demoPack"
proof -
  have "map (\<lambda>x. [x]) (map (hd \<circ> the) datas) = map (case_option [] id) datas"
    if "list_all (\<lambda>d. length (case_option [] id d) = 1) datas" for datas :: "bytes option list"
    using that by (induction datas) (auto simp: length_Suc_conv split: option.splits)
  then show ?thesis by (auto simp: batchCodec_def demoPack_def demoCodec_def split: if_splits)
qed

text \<open>Witness for C33: one command creates a queue.\<close>

theorem batched_commands_run_witness:
  "\<exists>chs c1 c2 b'. sendMany demoPack demoNode demoFsm [[1]] (NewBatcher 4) = Some (chs, demoFsm, c1) \<and>
     processTimer demoPack demoNode demoFsm c1 = Some (b', c2) \<and> queueManager_Exists (qm b') ''q'' \<and>
     chanBuf c2 (fst (chs ! 0)) (snd (chs ! 0)) = [Some \<lparr>rData = NoData, rErr = None\<rparr>]"
proof -
  let ?p = "\<lparr>cpUsername = ''root'', cpOp = CREATE_QUEUE, cpData = []\<rparr> :: CommandPayload"
  from demo_create[of "demoEnv True"] obtain b' where
    b': "dispatch demoCodec (demoEnv True) demoFsm ?p = Some (\<lparr>rData = NoData, rErr = None\<rparr>, b')"
      "queueManager_Exists (qm b') ''q''" by blast
  have h: "holdsBatch 4 [] (NewBatcher 4)" by (simp add: holdsBatch_def batcherOk_def NewBatcher_def)
  have "list_all2 (\<lambda>d p. d \<noteq> [] \<and> decCommand demoCodec d = Inr p) [[1]] [?p]" by (simp add: demoCodec_def)
  moreover have "demoPack (map Some [[1]]) = Inr [1]" by (simp add: demoPack_def)
  moreover have "demoNode demoFsm [1] = Some (Inr (Some [\<lparr>rData = NoData, rErr = None\<rparr>]), b')"
    using b'(1) by (simp add: demoNode_def Apply_def applySingle_def demoCodec_def)
  ultimately show ?thesis
    using batched_commands_run[OF demoNode_applies demoPack_codec h, of "[[1]]" "[?p]" "[1]" demoFsm] b'(2) by fastforce
qed










end
